(* ===== verification/Prelude.thy ===== *)
theory Prelude
  imports Main "HOL-Library.Word"
begin

text \<open>
  Shared ground of the development: the names of the C++ integer types, the conversions the
  C++ code applies between them, bounded loops, and the combinators in which every handler of
  the program is written.

  \<^item> A value of a C++ unsigned type is an unsigned word; a C++ \<open>int\<close> or \<open>long\<close> is a HOL \<open>int\<close>,
    and every place where the code narrows it is a call of \<open>wrap_s\<close>.  A signed addition or
    multiplication whose result leaves the type is undefined behaviour in C++; where the code
    can reach it, the model returns \<open>None\<close>.
  \<^item> A \<open>cmd\<close> is a member function of the program that returns a status \<open>int\<close>.  \<open>None\<close> stands
    for an execution that has undefined behaviour, is aborted by an uncaught exception, or
    does not return.
  \<^item> \<open>steps\<close> is the sequential composition behind the macros \<open>ACLCHECK\<close> and \<open>HCCLCHECK\<close>: the
    first statement whose status is not \<open>0\<close> ends the function with that status.
\<close>

unbundle bit_operations_syntax

named_theorems cmd_defs "definitions of the command combinators, for symbolic execution"

subsection \<open>Integer types\<close>

type_synonym u8 = "8 word"
type_synonym u16 = "16 word"
type_synonym u32 = "32 word"
type_synonym u64 = "64 word"

definition wrap_s :: "nat \<Rightarrow> int \<Rightarrow> int" where
  "wrap_s w x = (x + 2 ^ (w - 1)) mod 2 ^ w - 2 ^ (w - 1)"

abbreviation to_s32 :: "int \<Rightarrow> int" where
  "to_s32 \<equiv> wrap_s 32"

abbreviation to_s64 :: "int \<Rightarrow> int" where
  "to_s64 \<equiv> wrap_s 64"

definition in_s :: "nat \<Rightarrow> int \<Rightarrow> bool" where
  "in_s w x \<longleftrightarrow> - (2 ^ (w - 1)) \<le> x \<and> x < 2 ^ (w - 1)"

lemma wrap_s_id: "in_s w x \<Longrightarrow> 0 < w \<Longrightarrow> wrap_s w x = x"
proof -
  assume a: "in_s w x" "0 < w"
  then have w: "(2::int) ^ w = 2 * 2 ^ (w - 1)"
    by (cases w) simp_all
  from a w have "(x + 2 ^ (w - 1)) mod 2 ^ w = x + 2 ^ (w - 1)"
    by (intro mod_pos_pos_trivial) (auto simp: in_s_def)
  then show ?thesis by (simp add: wrap_s_def)
qed

lemma wrap_s_bounds: "0 < w \<Longrightarrow> in_s w (wrap_s w x)"
proof -
  assume "0 < w"
  then have w: "(2::int) ^ w = 2 * 2 ^ (w - 1)"
    by (cases w) simp_all
  have "0 \<le> (x + 2 ^ (w - 1)) mod 2 ^ w" and "(x + 2 ^ (w - 1)) mod 2 ^ w < (2::int) ^ w"
    by simp_all
  then show ?thesis using w by (simp add: in_s_def wrap_s_def)
qed

text \<open>Signed arithmetic that must not overflow: \<open>None\<close> is the undefined behaviour.\<close>

definition s32_mul :: "int \<Rightarrow> int \<Rightarrow> int option" where
  "s32_mul a b = (if in_s 32 (a * b) then Some (a * b) else None)"

definition s32_inc :: "int \<Rightarrow> int option" where
  "s32_inc a = (if a < 2147483647 then Some (a + 1) else None)"

text \<open>C++ division of signed integers truncates towards zero; \<open>%\<close> goes with it.\<close>

definition c_div :: "int \<Rightarrow> int \<Rightarrow> int" where
  "c_div a b = sgn a * sgn b * (\<bar>a\<bar> div \<bar>b\<bar>)"

definition c_mod :: "int \<Rightarrow> int \<Rightarrow> int" where
  "c_mod a b = a - c_div a b * b"

lemma c_mod_nonneg: "0 \<le> a \<Longrightarrow> 0 < b \<Longrightarrow> c_mod a b = a mod b"
  by (cases "a = 0") (simp_all add: c_mod_def c_div_def minus_div_mult_eq_mod)

lemma c_div_nonneg: "0 \<le> a \<Longrightarrow> 0 < b \<Longrightarrow> c_div a b = a div b"
  by (cases "a = 0") (simp_all add: c_div_def)

subsection \<open>Words\<close>

lemma unat_of_nat_small: "n < 2 ^ LENGTH('a) \<Longrightarrow> unat (of_nat n :: 'a::len word) = n"
  by (simp add: unat_of_nat take_bit_eq_mod)

lemma unat_word_of_int_small:
  "0 \<le> i \<Longrightarrow> i < 2 ^ LENGTH('a) \<Longrightarrow> unat (word_of_int i :: 'a::len word) = nat i"
  by (simp add: unsigned_of_int take_bit_eq_mod)

lemma unat_add_small:
  "unat a + unat b < 2 ^ LENGTH('a) \<Longrightarrow> unat (a + b) = unat a + unat (b :: 'a::len word)"
  by (simp add: unat_word_ariths)

lemma unat_mult_small:
  "unat a * unat b < 2 ^ LENGTH('a) \<Longrightarrow> unat (a * b) = unat a * unat (b :: 'a::len word)"
  by (simp add: unat_word_ariths)

lemma unat_sub_small: "b \<le> a \<Longrightarrow> unat (a - b) = unat a - unat (b :: 'a::len word)"
  by (simp add: unat_sub)

lemma unat_lt_64: "unat (x :: u64) < 18446744073709551616"
  using unsigned_less [of x, where ?'a = nat] by simp

lemma unat_le_8: "unat (b :: u8) \<le> 255"
  using unsigned_less [of b, where ?'a = nat] by simp

subsection \<open>Counting loops\<close>

text \<open>
  \<open>for_range f i n s\<close> is \<open>for (k = i; k < i + n; ++k) s = f(k, s)\<close>; the body may fail.
\<close>

primrec for_range :: "(nat \<Rightarrow> 's \<Rightarrow> 's option) \<Rightarrow> nat \<Rightarrow> nat \<Rightarrow> 's \<Rightarrow> 's option" where
  "for_range f i 0 s = Some s"
| "for_range f i (Suc n) s = (case f i s of None \<Rightarrow> None | Some s' \<Rightarrow> for_range f (Suc i) n s')"

lemma for_range_add:
  "for_range f i (m + n) s =
     (case for_range f i m s of None \<Rightarrow> None | Some s' \<Rightarrow> for_range f (i + m) n s')"
  by (induction m arbitrary: i s) (auto split: option.splits)

lemma for_range_invariant:
  assumes "P i s"
    and "\<And>k s s'. P k s \<Longrightarrow> i \<le> k \<Longrightarrow> k < i + n \<Longrightarrow> f k s = Some s' \<Longrightarrow> P (Suc k) s'"
    and "for_range f i n s = Some t"
  shows "P (i + n) t"
  using assms
proof (induction n arbitrary: i s)
  case 0
  then show ?case by simp
next
  case (Suc n)
  from Suc.prems(3) obtain s' where s': "f i s = Some s'" "for_range f (Suc i) n s' = Some t"
    by (auto split: option.splits)
  with Suc.prems(1,2) have "P (Suc i) s'" by auto
  then have "P (Suc i + n) t"
    using Suc.prems(2) s'(2) by (intro Suc.IH [of "Suc i" s']) auto
  then show ?case by simp
qed

lemma for_range_total:
  assumes "P i s"
    and "\<And>k s. P k s \<Longrightarrow> i \<le> k \<Longrightarrow> k < i + n \<Longrightarrow> \<exists>s'. f k s = Some s' \<and> P (Suc k) s'"
  shows "\<exists>t. for_range f i n s = Some t \<and> P (i + n) t"
  using assms
proof (induction n arbitrary: i s)
  case 0
  then show ?case by simp
next
  case (Suc n)
  from Suc.prems obtain s' where s': "f i s = Some s'" "P (Suc i) s'" by force
  with Suc.prems(2) Suc.IH [of "Suc i" s'] show ?case by auto
qed

subsection \<open>Commands\<close>

type_synonym 's cmd = "'s \<Rightarrow> (int \<times> 's) option"

definition skip :: "'s cmd" where
  [cmd_defs]: "skip s = Some (0, s)"

definition ret :: "int \<Rightarrow> 's cmd" where
  [cmd_defs]: "ret r s = Some (r, s)"

definition assign :: "('s \<Rightarrow> 's) \<Rightarrow> 's cmd" where
  [cmd_defs]: "assign f s = Some (0, f s)"

definition when_do :: "('s \<Rightarrow> bool) \<Rightarrow> 's cmd \<Rightarrow> 's cmd" where
  [cmd_defs]: "when_do b c s = (if b s then c s else Some (0, s))"

definition if_else :: "('s \<Rightarrow> bool) \<Rightarrow> 's cmd \<Rightarrow> 's cmd \<Rightarrow> 's cmd" where
  [cmd_defs]: "if_else b c d s = (if b s then c s else d s)"

definition with_state :: "('s \<Rightarrow> 's cmd) \<Rightarrow> 's cmd" where
  [cmd_defs]: "with_state c s = c s s"

definition update_opt :: "('s \<Rightarrow> 's option) \<Rightarrow> 's cmd" where
  [cmd_defs]: "update_opt f s = (case f s of None \<Rightarrow> None | Some s' \<Rightarrow> Some (0, s'))"

text \<open>A call whose status the code discards.\<close>

definition ignore :: "'s cmd \<Rightarrow> 's cmd" where
  [cmd_defs]: "ignore c s = (case c s of None \<Rightarrow> None | Some (r, s') \<Rightarrow> Some (0, s'))"

fun steps :: "'s cmd list \<Rightarrow> 's cmd" where
  "steps [] s = Some (0, s)"
| "steps (c # cs) s =
     (case c s of None \<Rightarrow> None | Some (r, s') \<Rightarrow> if r \<noteq> 0 then Some (r, s') else steps cs s')"

definition repeat_do :: "nat \<Rightarrow> 's cmd \<Rightarrow> 's cmd" where
  "repeat_do n c = steps (replicate n c)"

lemma steps_append:
  "steps (cs @ ds) s =
     (case steps cs s of None \<Rightarrow> None | Some (r, s') \<Rightarrow> if r \<noteq> 0 then Some (r, s') else steps ds s')"
  by (induction cs arbitrary: s) (auto split: option.splits)

lemma repeat_do_0 [simp]: "repeat_do 0 c s = Some (0, s)"
  by (simp add: repeat_do_def)

lemma repeat_do_Suc [simp]:
  "repeat_do (Suc n) c s =
     (case c s of None \<Rightarrow> None | Some (r, s') \<Rightarrow> if r \<noteq> 0 then Some (r, s') else repeat_do n c s')"
  by (simp add: repeat_do_def split: option.split)

text \<open>
  When a command succeeds: one equivalence per combinator, which turn \<open>steps cs s = Some (0, t)\<close>
  into the conditions on its stages.
\<close>

named_theorems ok_iff "when a command returns \<open>0\<close>"

lemma steps_ok [ok_iff]:
  "steps [] s = Some (0, t) \<longleftrightarrow> t = s"
  "steps (c # cs) s = Some (0, t) \<longleftrightarrow> (\<exists>u. c s = Some (0, u) \<and> steps cs u = Some (0, t))"
  by (auto split: option.splits if_splits)

lemma skip_ok [ok_iff]: "skip s = Some (0, t) \<longleftrightarrow> t = s"
  by (auto simp: skip_def)

lemma ret_ok [ok_iff]: "ret r s = Some (0, t) \<longleftrightarrow> r = 0 \<and> t = s"
  by (auto simp: ret_def)

lemma assign_ok [ok_iff]: "assign f s = Some (0, t) \<longleftrightarrow> t = f s"
  by (auto simp: assign_def)

lemma update_opt_ok [ok_iff]: "update_opt f s = Some (0, t) \<longleftrightarrow> f s = Some t"
  by (auto simp: update_opt_def split: option.splits)

lemma when_do_ok [ok_iff]:
  "when_do b c s = Some (0, t) \<longleftrightarrow> (if b s then c s = Some (0, t) else t = s)"
  by (auto simp: when_do_def)

lemma if_else_ok [ok_iff]:
  "if_else b c d s = Some (0, t) \<longleftrightarrow> (if b s then c s = Some (0, t) else d s = Some (0, t))"
  by (simp add: if_else_def)

lemma with_state_ok [ok_iff]: "with_state c s = Some (0, t) \<longleftrightarrow> c s s = Some (0, t)"
  by (simp add: with_state_def)

lemma ignore_ok [ok_iff]: "ignore c s = Some (0, t) \<longleftrightarrow> (\<exists>r. c s = Some (r, t))"
  by (auto simp: ignore_def split: option.splits)

text \<open>
  An interface of commands: \<open>preserves I c\<close> says that \<open>c\<close> keeps \<open>I\<close> whatever it returns.
  The combinators preserve what their parts preserve, so a handler's invariant follows from
  those of the calls it is made of.
\<close>

definition preserves :: "('s \<Rightarrow> bool) \<Rightarrow> 's cmd \<Rightarrow> bool" where
  "preserves I c \<longleftrightarrow> (\<forall>s r s'. I s \<longrightarrow> c s = Some (r, s') \<longrightarrow> I s')"

named_theorems preserve_intros "introduction rules for \<open>preserves\<close>"

lemma preservesI: "(\<And>s r s'. I s \<Longrightarrow> c s = Some (r, s') \<Longrightarrow> I s') \<Longrightarrow> preserves I c"
  by (simp add: preserves_def)

lemma preservesD: "preserves I c \<Longrightarrow> I s \<Longrightarrow> c s = Some (r, s') \<Longrightarrow> I s'"
  by (auto simp: preserves_def)

lemma preserves_skip [preserve_intros]: "preserves I skip"
  by (simp add: preserves_def skip_def)

lemma preserves_ret [preserve_intros]: "preserves I (ret r)"
  by (simp add: preserves_def ret_def)

lemma preserves_assign [preserve_intros]: "(\<And>s. I s \<Longrightarrow> I (f s)) \<Longrightarrow> preserves I (assign f)"
  by (simp add: preserves_def assign_def)

lemma preserves_when_do [preserve_intros]: "preserves I c \<Longrightarrow> preserves I (when_do b c)"
  by (simp add: preserves_def when_do_def)

lemma preserves_if_else [preserve_intros]:
  "preserves I c \<Longrightarrow> preserves I d \<Longrightarrow> preserves I (if_else b c d)"
  unfolding preserves_def if_else_def by metis

lemma preserves_with_state [preserve_intros]:
  "(\<And>s. preserves I (c s)) \<Longrightarrow> preserves I (with_state c)"
  unfolding preserves_def with_state_def by blast

lemma preserves_update_opt [preserve_intros]:
  "(\<And>s s'. I s \<Longrightarrow> f s = Some s' \<Longrightarrow> I s') \<Longrightarrow> preserves I (update_opt f)"
  by (auto simp: preserves_def update_opt_def split: option.splits)

lemma preserves_ignore [preserve_intros]: "preserves I c \<Longrightarrow> preserves I (ignore c)"
  unfolding preserves_def ignore_def by (auto split: option.splits)

lemma preserves_Cons:
  assumes "preserves I c" "preserves I (steps cs)"
  shows "preserves I (steps (c # cs))"
proof (rule preservesI)
  fix s r s'
  assume "I s" and eq: "steps (c # cs) s = Some (r, s')"
  then obtain r1 s1 where 1: "c s = Some (r1, s1)" by (auto split: option.splits)
  have "I s1" by (rule preservesD [OF assms(1) \<open>I s\<close> 1])
  with 1 eq show "I s'" by (auto split: if_splits intro: preservesD [OF assms(2)])
qed

lemma preserves_steps [preserve_intros]:
  "list_all (preserves I) cs \<Longrightarrow> preserves I (steps cs)"
proof (induction cs)
  case Nil
  then show ?case by (simp add: preserves_def)
qed (simp add: preserves_Cons del: steps.simps)

lemma preserves_repeat_do [preserve_intros]: "preserves I c \<Longrightarrow> preserves I (repeat_do n c)"
  unfolding repeat_do_def by (rule preserves_steps) (simp add: list_all_iff)

declare steps.simps(2) [simp del]
declare steps.simps [cmd_defs]

end
