(* ===== verification/Soft_Float.thy ===== *)
theory Soft_Float
  imports Prelude
begin

text \<open>
  C++ \<open>float\<close> and \<open>double\<close>: IEEE 754 binary32 and binary64 values kept as their bit patterns
  (\<open>u32\<close>, \<open>u64\<close>), since the program stores them into buffers and punns them.  An operation
  decodes its operands to exact values \<open>(-1)^s * m * 2^e\<close>, computes exactly and rounds to
  nearest, ties to even.  A format is given by its exponent and fraction widths.
\<close>

datatype fpv = FNaN | FInf bool | FNum bool nat int

fun nbits :: "nat \<Rightarrow> nat" where
  "nbits n = (if n = 0 then 0 else Suc (nbits (n div 2)))"

declare nbits.simps [simp del]

lemma nbits_0 [simp]: "nbits 0 = 0"
  by (simp add: nbits.simps)

lemma nbits_eq_0_iff [simp]: "nbits n = 0 \<longleftrightarrow> n = 0"
  by (subst nbits.simps) simp

lemma nbits_upper: "n < 2 ^ nbits n"
proof (induction n rule: nbits.induct)
  case (1 n)
  show ?case
  proof (cases "n = 0")
    case False
    with 1 have "n div 2 < 2 ^ nbits (n div 2)" by simp
    then have "n < 2 * 2 ^ nbits (n div 2)" by linarith
    with False show ?thesis by (simp add: nbits.simps [of n])
  qed simp
qed

lemma nbits_lower: "n \<noteq> 0 \<Longrightarrow> 2 ^ (nbits n - 1) \<le> n"
proof (induction n rule: nbits.induct)
  case (1 n)
  show ?case
  proof (cases "n div 2 = 0")
    case True
    with 1 show ?thesis by (simp add: nbits.simps [of n])
  next
    case False
    with 1 have "2 ^ (nbits (n div 2) - 1) \<le> n div 2" by simp
    then have "2 * 2 ^ (nbits (n div 2) - 1) \<le> n" by linarith
    moreover have "nbits (n div 2) \<noteq> 0" using False by simp
    then have "(2::nat) * 2 ^ (nbits (n div 2) - 1) = 2 ^ nbits (n div 2)"
      by (metis Suc_diff_1 gr0I power_Suc)
    ultimately show ?thesis using 1 by (simp add: nbits.simps [of n])
  qed
qed

text \<open>Integer square root, bit pair by bit pair.\<close>

fun isqrt :: "nat \<Rightarrow> nat" where
  "isqrt n = (if n = 0 then 0
     else let r = 2 * isqrt (n div 4) in if (r + 1) * (r + 1) \<le> n then r + 1 else r)"

declare isqrt.simps [simp del]

lemma isqrt_bounds: "isqrt n * isqrt n \<le> n \<and> n < (isqrt n + 1) * (isqrt n + 1)"
proof (induction n rule: isqrt.induct)
  case (1 n)
  show ?case
  proof (cases "n = 0")
    case False
    define q where "q = isqrt (n div 4)"
    from 1 [OF False] have q: "q * q \<le> n div 4" "n div 4 < (q + 1) * (q + 1)"
      by (simp_all add: q_def)
    from q(1) have "4 * (q * q) \<le> n" by linarith
    moreover from q(2) have "n div 4 + 1 \<le> (q + 1) * (q + 1)" by linarith
    then have "n < 4 * ((q + 1) * (q + 1))" by linarith
    ultimately show ?thesis
      using False by (subst (1 2 3 4) isqrt.simps) (auto simp: q_def [symmetric] Let_def algebra_simps)
  qed (simp add: isqrt.simps)
qed

lemma le_isqrt_iff: "r \<le> isqrt n \<longleftrightarrow> r * r \<le> n"
proof
  assume "r \<le> isqrt n"
  then have "r * r \<le> isqrt n * isqrt n" by (simp add: mult_le_mono)
  with isqrt_bounds [of n] show "r * r \<le> n" by linarith
next
  assume "r * r \<le> n"
  with isqrt_bounds [of n] have "r * r < (isqrt n + 1) * (isqrt n + 1)" by linarith
  moreover have "(isqrt n + 1) * (isqrt n + 1) \<le> r * r" if "isqrt n + 1 \<le> r"
    using that that by (rule mult_le_mono)
  ultimately have "\<not> isqrt n + 1 \<le> r" by (meson leD)
  then show "r \<le> isqrt n" by simp
qed

named_theorems fp_eval "equations that evaluate the arithmetic on numerals"

lemma nbits_numeral [fp_eval]: "nbits (numeral k) = Suc (nbits (numeral k div 2))"
  by (simp add: nbits.simps [of "numeral k"])

lemma nbits_one [fp_eval]: "nbits 1 = 1" "nbits (Suc 0) = 1"
  by (simp_all add: nbits.simps [of "Suc 0"])

lemma isqrt_numeral [fp_eval]:
  "isqrt (numeral k) =
     (let r = 2 * isqrt (numeral k div 4) in if (r + 1) * (r + 1) \<le> numeral k then r + 1 else r)"
  by (subst isqrt.simps) simp

lemma isqrt_small [fp_eval]: "isqrt 0 = 0" "isqrt 1 = 1" "isqrt (Suc 0) = 1"
  by (simp_all add: isqrt.simps [of 0] isqrt.simps [of "Suc 0"])

subsection \<open>Formats\<close>

definition emin :: "nat \<Rightarrow> nat \<Rightarrow> int" where
  "emin eb mb = 2 - 2 ^ (eb - 1) - int mb"

definition fp_inf :: "nat \<Rightarrow> nat \<Rightarrow> nat" where
  "fp_inf eb mb = (2 ^ eb - 1) * 2 ^ mb"

definition fp_sign :: "nat \<Rightarrow> nat \<Rightarrow> bool \<Rightarrow> nat" where
  "fp_sign eb mb s = (if s then 2 ^ (eb + mb) else 0)"

definition fp_decode :: "nat \<Rightarrow> nat \<Rightarrow> nat \<Rightarrow> fpv" where
  "fp_decode eb mb b =
     (let s = odd (b div 2 ^ (eb + mb)); ef = b div 2 ^ mb mod 2 ^ eb; m = b mod 2 ^ mb
      in if ef = 2 ^ eb - 1 then (if m = 0 then FInf s else FNaN)
         else if ef = 0 then FNum s m (emin eb mb)
         else FNum s (m + 2 ^ mb) (emin eb mb + int ef - 1))"

text \<open>\<open>m / 2^k\<close> rounded to nearest, ties to even.\<close>

definition rne :: "nat \<Rightarrow> nat \<Rightarrow> nat" where
  "rne m k =
     (if k = 0 then m
      else let q = m div 2 ^ k; r = m mod 2 ^ k; h = 2 ^ (k - 1)
           in if h < r \<or> r = h \<and> odd q then q + 1 else q)"

definition fp_round :: "nat \<Rightarrow> nat \<Rightarrow> bool \<Rightarrow> nat \<Rightarrow> int \<Rightarrow> nat" where
  "fp_round eb mb s m e =
     (if m = 0 then fp_sign eb mb s
      else let et = max (e + int (nbits m) - int (mb + 1)) (emin eb mb);
               q = (if et \<le> e then m * 2 ^ nat (e - et) else rne m (nat (et - e)))
           in fp_sign eb mb s + min (q + nat (et - emin eb mb) * 2 ^ mb) (fp_inf eb mb))"

fun fp_encode :: "nat \<Rightarrow> nat \<Rightarrow> fpv \<Rightarrow> nat" where
  "fp_encode eb mb FNaN = fp_inf eb mb + 2 ^ (mb - 1)"
| "fp_encode eb mb (FInf s) = fp_sign eb mb s + fp_inf eb mb"
| "fp_encode eb mb (FNum s m e) = fp_round eb mb s m e"

subsection \<open>Exact arithmetic on decoded values\<close>

definition signed :: "bool \<Rightarrow> nat \<Rightarrow> int" where
  "signed s m = (if s then - int m else int m)"

definition align :: "nat \<Rightarrow> int \<Rightarrow> int \<Rightarrow> nat" where
  "align m e e' = m * 2 ^ nat (e - e')"

fun v_neg :: "fpv \<Rightarrow> fpv" where
  "v_neg FNaN = FNaN"
| "v_neg (FInf s) = FInf (\<not> s)"
| "v_neg (FNum s m e) = FNum (\<not> s) m e"

fun v_abs :: "fpv \<Rightarrow> fpv" where
  "v_abs FNaN = FNaN"
| "v_abs (FInf s) = FInf False"
| "v_abs (FNum s m e) = FNum False m e"

fun v_add :: "fpv \<Rightarrow> fpv \<Rightarrow> fpv" where
  "v_add (FNum s m e) (FNum t n f) =
     (let g = min e f; x = signed s (align m e g) + signed t (align n f g)
      in if x = 0 then FNum (s \<and> t) 0 g else FNum (x < 0) (nat \<bar>x\<bar>) g)"
| "v_add (FInf s) (FInf t) = (if s = t then FInf s else FNaN)"
| "v_add (FInf s) (FNum t n f) = FInf s"
| "v_add (FNum s m e) (FInf t) = FInf t"
| "v_add _ _ = FNaN"

fun v_mul :: "fpv \<Rightarrow> fpv \<Rightarrow> fpv" where
  "v_mul (FNum s m e) (FNum t n f) = FNum (s \<noteq> t) (m * n) (e + f)"
| "v_mul (FInf s) (FInf t) = FInf (s \<noteq> t)"
| "v_mul (FInf s) (FNum t n f) = (if n = 0 then FNaN else FInf (s \<noteq> t))"
| "v_mul (FNum s m e) (FInf t) = (if m = 0 then FNaN else FInf (s \<noteq> t))"
| "v_mul _ _ = FNaN"

text \<open>
  The quotient of a format with fraction width \<open>mb\<close>: enough quotient bits for correct
  rounding, and one sticky bit for a non-zero remainder.
\<close>

definition v_ratio :: "nat \<Rightarrow> bool \<Rightarrow> nat \<Rightarrow> nat \<Rightarrow> int \<Rightarrow> fpv" where
  "v_ratio mb s n d e =
     (let k = mb + 3 + nbits d - nbits n; x = n * 2 ^ k
      in FNum s (2 * (x div d) + (if x mod d = 0 then 0 else 1)) (e - int k - 1))"

fun v_div :: "nat \<Rightarrow> fpv \<Rightarrow> fpv \<Rightarrow> fpv" where
  "v_div mb (FNum s m e) (FNum t n f) =
     (if n = 0 then (if m = 0 then FNaN else FInf (s \<noteq> t))
      else if m = 0 then FNum (s \<noteq> t) 0 0
      else v_ratio mb (s \<noteq> t) m n (e - f))"
| "v_div mb (FInf s) (FInf t) = FNaN"
| "v_div mb (FInf s) (FNum t n f) = FInf (s \<noteq> t)"
| "v_div mb (FNum s m e) (FInf t) = FNum (s \<noteq> t) 0 0"
| "v_div mb _ _ = FNaN"

fun v_sqrt :: "nat \<Rightarrow> fpv \<Rightarrow> fpv" where
  "v_sqrt mb (FNum s m e) =
     (if m = 0 then FNum s m e
      else if s then FNaN
      else let j = 2 * (mb + 2) + (if even e then 0 else 1); x = m * 2 ^ j; r = isqrt x
           in FNum False (2 * r + (if r * r = x then 0 else 1)) ((e - int j) div 2 - 1))"
| "v_sqrt mb (FInf s) = (if s then FNaN else FInf False)"
| "v_sqrt mb FNaN = FNaN"

text \<open>\<open>a > b\<close>; false when an operand is a NaN.\<close>

fun v_gt :: "fpv \<Rightarrow> fpv \<Rightarrow> bool" where
  "v_gt (FNum s m e) (FNum t n f) =
     (let g = min e f in signed t (align n f g) < signed s (align m e g))"
| "v_gt (FInf s) (FInf t) \<longleftrightarrow> \<not> s \<and> t"
| "v_gt (FInf s) (FNum t n f) \<longleftrightarrow> \<not> s"
| "v_gt (FNum s m e) (FInf t) \<longleftrightarrow> t"
| "v_gt _ _ \<longleftrightarrow> False"

fun v_eq :: "fpv \<Rightarrow> fpv \<Rightarrow> bool" where
  "v_eq (FNum s m e) (FNum t n f) =
     (let g = min e f in signed t (align n f g) = signed s (align m e g))"
| "v_eq (FInf s) (FInf t) \<longleftrightarrow> s = t"
| "v_eq _ _ \<longleftrightarrow> False"

text \<open>Conversion to an integer truncates; \<open>None\<close> for NaN and infinities.\<close>

fun v_trunc :: "fpv \<Rightarrow> int option" where
  "v_trunc (FNum s m e) = Some (signed s (if 0 \<le> e then m * 2 ^ nat e else m div 2 ^ nat (- e)))"
| "v_trunc _ = None"

definition v_of_int :: "int \<Rightarrow> fpv" where
  "v_of_int i = FNum (i < 0) (nat \<bar>i\<bar>) 0"

subsection \<open>The operations the program uses\<close>

definition f32_decode :: "u32 \<Rightarrow> fpv" where "f32_decode x = fp_decode 8 23 (unat x)"
definition f64_decode :: "u64 \<Rightarrow> fpv" where "f64_decode x = fp_decode 11 52 (unat x)"
definition f32_encode :: "fpv \<Rightarrow> u32" where "f32_encode v = of_nat (fp_encode 8 23 v)"
definition f64_encode :: "fpv \<Rightarrow> u64" where "f64_encode v = of_nat (fp_encode 11 52 v)"

definition f32_add :: "u32 \<Rightarrow> u32 \<Rightarrow> u32" where
  "f32_add a b = f32_encode (v_add (f32_decode a) (f32_decode b))"
definition f32_sub :: "u32 \<Rightarrow> u32 \<Rightarrow> u32" where
  "f32_sub a b = f32_encode (v_add (f32_decode a) (v_neg (f32_decode b)))"
definition f32_mul :: "u32 \<Rightarrow> u32 \<Rightarrow> u32" where
  "f32_mul a b = f32_encode (v_mul (f32_decode a) (f32_decode b))"
definition f32_div :: "u32 \<Rightarrow> u32 \<Rightarrow> u32" where
  "f32_div a b = f32_encode (v_div 23 (f32_decode a) (f32_decode b))"
definition f32_abs :: "u32 \<Rightarrow> u32" where
  "f32_abs a = f32_encode (v_abs (f32_decode a))"
definition f32_of_int :: "int \<Rightarrow> u32" where "f32_of_int i = f32_encode (v_of_int i)"

definition f64_mul :: "u64 \<Rightarrow> u64 \<Rightarrow> u64" where
  "f64_mul a b = f64_encode (v_mul (f64_decode a) (f64_decode b))"
definition f64_div :: "u64 \<Rightarrow> u64 \<Rightarrow> u64" where
  "f64_div a b = f64_encode (v_div 52 (f64_decode a) (f64_decode b))"
definition f64_sqrt :: "u64 \<Rightarrow> u64" where "f64_sqrt a = f64_encode (v_sqrt 52 (f64_decode a))"
definition f64_of_int :: "int \<Rightarrow> u64" where "f64_of_int i = f64_encode (v_of_int i)"
definition f64_of_f32 :: "u32 \<Rightarrow> u64" where "f64_of_f32 x = f64_encode (f32_decode x)"
definition f32_of_f64 :: "u64 \<Rightarrow> u32" where "f32_of_f64 x = f32_encode (f64_decode x)"
definition f64_gt :: "u64 \<Rightarrow> u64 \<Rightarrow> bool" where "f64_gt a b = v_gt (f64_decode a) (f64_decode b)"
definition f32_gt :: "u32 \<Rightarrow> u32 \<Rightarrow> bool" where "f32_gt a b = v_gt (f32_decode a) (f32_decode b)"
definition f32_eq :: "u32 \<Rightarrow> u32 \<Rightarrow> bool" where "f32_eq a b = v_eq (f32_decode a) (f32_decode b)"

text \<open>
  Conversions of a \<open>double\<close> to an integer type are undefined when the truncated value does
  not fit: \<open>None\<close>.
\<close>

definition f64_to_s :: "nat \<Rightarrow> u64 \<Rightarrow> int option" where
  "f64_to_s w x =
     (case v_trunc (f64_decode x) of Some i \<Rightarrow> if in_s w i then Some i else None | None \<Rightarrow> None)"

definition f64_to_u64 :: "u64 \<Rightarrow> u64 option" where
  "f64_to_u64 x =
     (case v_trunc (f64_decode x) of
        Some i \<Rightarrow> if 0 \<le> i \<and> i < 2 ^ 64 then Some (word_of_int i) else None
      | None \<Rightarrow> None)"

lemmas fp_defs =
  emin_def fp_inf_def fp_sign_def fp_decode_def rne_def fp_round_def signed_def align_def
  v_ratio_def v_of_int_def f32_decode_def f64_decode_def f32_encode_def f64_encode_def
  f32_add_def f32_sub_def f32_mul_def f32_div_def f32_abs_def f32_of_int_def f64_mul_def
  f64_div_def f64_sqrt_def f64_of_int_def f64_of_f32_def f32_of_f64_def f64_gt_def f32_gt_def
  f32_eq_def f64_to_s_def f64_to_u64_def Let_def in_s_def

declare fp_defs [fp_eval]

subsection \<open>Facts\<close>

lemma fp_round_exact:
  assumes m: "m \<noteq> 0" "nbits m \<le> mb + 1" and e: "emin eb mb \<le> e"
    and fits: "e + int (nbits m) - int (mb + 1) \<le> emin eb mb + 2 ^ eb - 3"
    and eb: "2 \<le> eb"
  defines "et \<equiv> max (e + int (nbits m) - int (mb + 1)) (emin eb mb)"
  shows "fp_decode eb mb (fp_round eb mb s m e) = FNum s (m * 2 ^ nat (e - et)) et"
proof -
  define t where "t = nat (et - emin eb mb)"
  define q where "q = m * 2 ^ nat (e - et)"
  have et: "et \<le> e" "emin eb mb \<le> et" using m e by (auto simp: et_def)
  have et': "max (e + int (nbits m) - (1 + int mb)) (emin eb mb) = et" by (simp add: et_def)
  have tle: "t + 2 < 2 ^ eb"
  proof -
    have "(2::int) ^ 2 \<le> 2 ^ eb" using eb by (intro power_increasing) simp_all
    then have "et - emin eb mb + 2 < 2 ^ eb" using fits by (simp add: et_def max_def)
    then have "int t + 2 < int (2 ^ eb)" using et by (simp add: t_def)
    then show ?thesis by linarith
  qed
  have qu: "q < 2 ^ (mb + 1)"
  proof -
    have "m < 2 ^ nbits m" by (rule nbits_upper)
    then have "q < 2 ^ (nbits m + nat (e - et))" by (simp add: q_def power_add)
    also have "nbits m + nat (e - et) \<le> mb + 1" using m e by (auto simp: et_def max_def)
    then have "(2::nat) ^ (nbits m + nat (e - et)) \<le> 2 ^ (mb + 1)" by (rule power_increasing) simp
    finally show ?thesis .
  qed
  have ql: "t \<noteq> 0 \<Longrightarrow> 2 ^ mb \<le> q"
  proof -
    assume "t \<noteq> 0"
    moreover have "Suc 0 \<le> nbits m" using m by (metis Suc_leI gr0I nbits_eq_0_iff)
    ultimately have "nbits m - 1 + nat (e - et) = mb"
      using m et by (auto simp: t_def et_def max_def split: if_splits)
    moreover have "2 ^ (nbits m - 1) \<le> m" using m by (intro nbits_lower)
    ultimately show ?thesis by (metis mult_le_mono1 power_add q_def)
  qed
  have bits: "fp_round eb mb s m e = fp_sign eb mb s + (q + t * 2 ^ mb)"
  proof -
    have "q + t * 2 ^ mb \<le> (t + 2) * 2 ^ mb" using qu by (simp add: algebra_simps)
    also have "\<dots> \<le> (2 ^ eb - 1) * 2 ^ mb" using tle by (intro mult_le_mono1) simp
    finally show ?thesis
      using m et by (simp add: fp_round_def Let_def et' q_def t_def fp_inf_def)
  qed
  have small: "q + t * 2 ^ mb < 2 ^ (eb + mb)"
  proof -
    have "q + t * 2 ^ mb < (t + 2) * 2 ^ mb" using qu by (simp add: algebra_simps)
    also have "\<dots> \<le> 2 ^ eb * 2 ^ mb" using tle by (intro mult_le_mono1) simp
    finally show ?thesis by (simp add: power_add)
  qed
  let ?b = "fp_round eb mb s m e"
  have sgn: "odd (?b div 2 ^ (eb + mb)) = s"
  proof -
    have "(2 ^ (eb + mb) + x) div 2 ^ (eb + mb) = 1" if "x < 2 ^ (eb + mb)" for x :: nat
      using that by (intro div_nat_eqI) simp_all
    with small show ?thesis by (auto simp: bits fp_sign_def)
  qed
  have field: "?b div 2 ^ mb mod 2 ^ eb = (q + t * 2 ^ mb) div 2 ^ mb"
  proof -
    have "?b div 2 ^ mb = (if s then 2 ^ eb else 0) + (q + t * 2 ^ mb) div 2 ^ mb"
      by (simp add: bits fp_sign_def power_add)
    moreover have "(q + t * 2 ^ mb) div 2 ^ mb < 2 ^ eb"
      using small by (intro less_mult_imp_div_less) (simp add: power_add)
    ultimately show ?thesis by simp
  qed
  have man: "?b mod 2 ^ mb = q mod 2 ^ mb"
  proof -
    have "?b = q + ((if s then 2 ^ eb else 0) + t) * 2 ^ mb"
      by (simp add: bits fp_sign_def power_add algebra_simps)
    then show ?thesis by simp
  qed
  have "fp_decode eb mb ?b = FNum s q et"
  proof (cases "q < 2 ^ mb")
    case True
    with ql have "t = 0" by linarith
    with True field man et have f: "?b div 2 ^ mb mod 2 ^ eb = 0" "?b mod 2 ^ mb = q" "emin eb mb = et"
      by (simp_all add: t_def)
    from tle have "(0::nat) \<noteq> 2 ^ eb - 1" by linarith
    then show ?thesis unfolding fp_decode_def Let_def sgn f by simp
  next
    case False
    then have d: "(q + t * 2 ^ mb) div 2 ^ mb = t + 1" and r: "q mod 2 ^ mb = q - 2 ^ mb"
      using qu by (simp_all add: div_nat_eqI mod_if algebra_simps)
    from tle have "t + 1 \<noteq> 2 ^ eb - 1" by linarith
    then show ?thesis
      unfolding fp_decode_def Let_def sgn field man d r using False et by (simp add: t_def)
  qed
  then show ?thesis by (simp add: q_def)
qed

end
