(* ===== verification/C_Library.thy ===== *)
theory C_Library
  imports Prelude Soft_Float
begin

text \<open>
  The functions of the C and C++ standard libraries that the program calls on strings.  A C
  string is the \<open>string\<close> of its bytes before the terminating NUL.  Characters are compared in
  the C locale.
\<close>

definition ord :: "char \<Rightarrow> nat" where
  "ord c = of_char c"

definition isdigit :: "char \<Rightarrow> bool" where
  "isdigit c \<longleftrightarrow> 48 \<le> ord c \<and> ord c \<le> 57"

definition isspace :: "char \<Rightarrow> bool" where
  "isspace c \<longleftrightarrow> ord c = 32 \<or> 9 \<le> ord c \<and> ord c \<le> 13"

text \<open>The value of a digit in bases up to 36; 99 for a character that is no digit.\<close>

definition digit_val :: "char \<Rightarrow> nat" where
  "digit_val c =
     (if isdigit c then ord c - 48
      else if 65 \<le> ord c \<and> ord c \<le> 90 then ord c - 55
      else if 97 \<le> ord c \<and> ord c \<le> 122 then ord c - 87
      else 99)"

subsection \<open>\<open>strtol\<close> and the functions built on it\<close>

text \<open>The digits at the front: value, number of digits, rest.\<close>

fun scan_digits :: "nat \<Rightarrow> nat \<Rightarrow> nat \<Rightarrow> string \<Rightarrow> nat \<times> nat \<times> string" where
  "scan_digits b v n [] = (v, n, [])"
| "scan_digits b v n (c # cs) =
     (if digit_val c < b then scan_digits b (v * b + digit_val c) (Suc n) cs else (v, n, c # cs))"

fun scan_sign :: "string \<Rightarrow> bool \<times> string" where
  "scan_sign [] = (False, [])"
| "scan_sign (c # cs) =
     (if c = CHR ''-'' then (True, cs) else if c = CHR ''+'' then (False, cs) else (False, c # cs))"

text \<open>Base 0: \<open>0x\<close> and a hexadecimal digit mean 16, a leading \<open>0\<close> means 8, otherwise 10.\<close>

fun scan_prefix :: "nat \<Rightarrow> string \<Rightarrow> nat \<times> string" where
  "scan_prefix b s =
     (if b \<noteq> 0 then (b, s)
      else (case s of
          z # x # d # cs \<Rightarrow>
            if z = CHR ''0'' \<and> (x = CHR ''x'' \<or> x = CHR ''X'') \<and> digit_val d < 16 then (16, d # cs)
            else if z = CHR ''0'' then (8, s) else (10, s)
        | z # cs \<Rightarrow> if z = CHR ''0'' then (8, s) else (10, s)
        | [] \<Rightarrow> (10, s)))"

definition clamp_long :: "int \<Rightarrow> int" where
  "clamp_long x = max (- (2 ^ 63)) (min (2 ^ 63 - 1) x)"

text \<open>
  The magnitude, sign and rest read by the \<open>strto*\<close> family; \<open>None\<close> when there is no
  conversion, in which case the end pointer is the start of the string.
\<close>

definition scan_int :: "nat \<Rightarrow> string \<Rightarrow> (bool \<times> nat \<times> string) option" where
  "scan_int base s =
     (let (neg, s1) = scan_sign (dropWhile isspace s);
          (b, s2) = scan_prefix base s1;
          (v, n, rest) = scan_digits b 0 0 s2
      in if n = 0 then None else Some (neg, v, rest))"

definition strtol :: "nat \<Rightarrow> string \<Rightarrow> int \<times> string" where
  "strtol base s =
     (case scan_int base s of
        None \<Rightarrow> (0, s)
      | Some (neg, v, rest) \<Rightarrow> (clamp_long (if neg then - int v else int v), rest))"

definition atoi :: "string \<Rightarrow> int" where
  "atoi s = to_s32 (fst (strtol 10 s))"

text \<open>
  \<open>std::stoi\<close> and \<open>std::stoull\<close>: \<open>None\<close> is the exception \<open>invalid_argument\<close> or
  \<open>out_of_range\<close>.  \<open>stoull\<close> accepts a sign and negates modulo \<open>2^64\<close>.
\<close>

definition stoi :: "string \<Rightarrow> int option" where
  "stoi s =
     (case scan_int 10 s of
        None \<Rightarrow> None
      | Some (neg, v, rest) \<Rightarrow>
          let x = (if neg then - int v else int v) in if in_s 32 x then Some x else None)"

definition stoull :: "string \<Rightarrow> u64 option" where
  "stoull s =
     (case scan_int 10 s of
        None \<Rightarrow> None
      | Some (neg, v, rest) \<Rightarrow>
          if v < 2 ^ 64 then Some (if neg then - of_nat v else of_nat v) else None)"

subsection \<open>\<open>strtof\<close>\<close>

text \<open>
  Decimal and hexadecimal floating-point literals, \<open>inf\<close> and \<open>nan\<close>, in any letter case.  The
  fraction digits are scanned with the integer digits as one number, and the exponent
  corrects for their number.
\<close>

definition lower :: "char \<Rightarrow> char" where
  "lower c = (if 65 \<le> ord c \<and> ord c \<le> 90 then char_of (ord c + 32) else c)"

definition has_prefix :: "string \<Rightarrow> string \<Rightarrow> bool" where
  "has_prefix p s \<longleftrightarrow> take (length p) (map lower s) = p"

text \<open>Integer and fraction digits in base \<open>b\<close>: value, digits read, fraction digits, rest.\<close>

definition scan_fraction :: "nat \<Rightarrow> string \<Rightarrow> nat \<times> nat \<times> nat \<times> string" where
  "scan_fraction b s =
     (let (v, n, s1) = scan_digits b 0 0 s
      in case s1 of
           c # cs \<Rightarrow>
             if c = CHR ''.'' then
               let (v', k, s2) = scan_digits b v 0 cs
               in if n + k = 0 then (v, 0, 0, s1) else (v', n + k, k, s2)
             else (v, n, 0, s1)
         | [] \<Rightarrow> (v, n, 0, s1))"

definition scan_exponent :: "char \<Rightarrow> string \<Rightarrow> int" where
  "scan_exponent e s =
     (case s of
        c # cs \<Rightarrow>
          if lower c = e then
            (let (neg, s1) = scan_sign cs; (v, n, rest) = scan_digits 10 0 0 s1
             in if n = 0 then 0 else if neg then - int v else int v)
          else 0
      | [] \<Rightarrow> 0)"

definition fp_of_decimal :: "nat \<Rightarrow> bool \<Rightarrow> nat \<Rightarrow> int \<Rightarrow> fpv" where
  "fp_of_decimal mb neg v e =
     (if v = 0 then FNum neg 0 0
      else if 0 \<le> e then FNum neg (v * 10 ^ nat e) 0
      else v_ratio mb neg v (10 ^ nat (- e)) 0)"

definition strtof :: "string \<Rightarrow> u32" where
  "strtof s =
     (let (neg, t) = scan_sign (dropWhile isspace s)
      in if has_prefix ''inf'' t then f32_encode (FInf neg)
         else if has_prefix ''nan'' t then f32_encode FNaN
         else if has_prefix ''0x'' t \<and> fst (snd (scan_fraction 16 (drop 2 t))) \<noteq> 0 then
           (let (v, n, k, rest) = scan_fraction 16 (drop 2 t)
            in f32_encode (FNum neg v (scan_exponent CHR ''p'' rest - 4 * int k)))
         else
           (let (v, n, k, rest) = scan_fraction 10 t
            in if n = 0 then 0
               else f32_encode (fp_of_decimal 23 neg v (scan_exponent CHR ''e'' rest - int k))))"

subsection \<open>Facts\<close>

lemma ord_digit [simp]: "isdigit c \<Longrightarrow> digit_val c = ord c - 48"
  by (simp add: digit_val_def)

lemma isdigit_digit_val_lt: "isdigit c \<Longrightarrow> digit_val c < 10"
  by (auto simp: isdigit_def)

lemma isdigit_not_space: "isdigit c \<Longrightarrow> \<not> isspace c"
  by (auto simp: isdigit_def isspace_def)

lemma isdigit_not_sign: "isdigit c \<Longrightarrow> c \<noteq> CHR ''-'' \<and> c \<noteq> CHR ''+''"
  by (auto simp: isdigit_def ord_def)

text \<open>Cutting at the first occurrence of a character.\<close>

lemma cut_found:
  "d \<notin> set p \<Longrightarrow> takeWhile (\<lambda>c. c \<noteq> d) (p @ d # s) = p"
  "d \<notin> set p \<Longrightarrow> dropWhile (\<lambda>c. c \<noteq> d) (p @ d # s) = d # s"
  by (induction p) auto

lemma cut_missing:
  "d \<notin> set p \<Longrightarrow> takeWhile (\<lambda>c. c \<noteq> d) p = p"
  "d \<notin> set p \<Longrightarrow> dropWhile (\<lambda>c. c \<noteq> d) p = []"
  by (induction p) auto

text \<open>The value a list of digits denotes.\<close>

definition digits_val :: "nat \<Rightarrow> string \<Rightarrow> nat" where
  "digits_val b ds = foldl (\<lambda>v c. v * b + digit_val c) 0 ds"

lemma scan_digits_foldl:
  assumes "\<forall>c \<in> set ds. digit_val c < b" and "rest = [] \<or> \<not> digit_val (hd rest) < b"
  shows "scan_digits b v n (ds @ rest) =
    (foldl (\<lambda>v c. v * b + digit_val c) v ds, n + length ds, rest)"
  using assms
proof (induction ds arbitrary: v n)
  case Nil
  then show ?case by (cases rest) auto
next
  case (Cons d ds)
  then show ?case by simp
qed

lemma scan_digits_app:
  assumes "\<forall>c \<in> set ds. digit_val c < b" and "rest = [] \<or> \<not> digit_val (hd rest) < b"
  shows "scan_digits b 0 0 (ds @ rest) = (digits_val b ds, length ds, rest)"
  using scan_digits_foldl [OF assms] by (simp add: digits_val_def)

text \<open>
  What follows the first character that is neither space, sign nor digit does not matter to
  \<open>atoi\<close>: the number ends there.
\<close>

lemma scan_digits_cut:
  assumes "\<not> digit_val x < b"
  shows "fst (scan_digits b v n (s @ x # t)) = fst (scan_digits b v n (s @ x # t')) \<and>
         fst (snd (scan_digits b v n (s @ x # t))) = fst (snd (scan_digits b v n (s @ x # t')))"
  using assms by (induction s arbitrary: v n) auto

lemma scan_digits_end:
  assumes "\<not> digit_val x < b"
  shows "fst (scan_digits b v n (s @ x # t)) = fst (scan_digits b v n s) \<and>
         fst (snd (scan_digits b v n (s @ x # t))) = fst (snd (scan_digits b v n s))"
  using assms by (induction s arbitrary: v n) auto

lemma atoi_stop:
  assumes "\<not> digit_val x < 10" and "\<not> isspace x" and "x \<noteq> CHR ''-''" and "x \<noteq> CHR ''+''"
  shows "atoi (s @ x # t) = atoi s"
proof -
  define u where "u = dropWhile isspace s"
  have d: "dropWhile isspace (s @ x # t) = u @ x # t"
    unfolding u_def using assms(2) by (induction s) auto
  obtain neg w where w: "scan_sign u = (neg, w)" by (cases "scan_sign u")
  then have w': "scan_sign (u @ x # t) = (neg, w @ x # t)"
    using assms(3,4) by (cases u) (auto split: if_splits)
  obtain v n r where 1: "scan_digits 10 0 0 (w @ x # t) = (v, n, r)"
    by (cases "scan_digits 10 0 0 (w @ x # t)") auto
  obtain v' n' r' where 2: "scan_digits 10 0 0 w = (v', n', r')"
    by (cases "scan_digits 10 0 0 w") auto
  from scan_digits_end [OF assms(1), of 0 0 w t] 1 2 have "v = v'" "n = n'" by simp_all
  then show ?thesis
    by (simp add: atoi_def strtol_def scan_int_def Let_def d w' 1 2 w u_def [symmetric])
qed

end
