(* ===== verification/Hccl_Types.thy ===== *)
theory Hccl_Types
  imports C_Library
begin

text \<open>
  The enumerations of the collective library and the option tables of
  \<open>common/src/hccl_test_common.cc\<close>.  A member of class \<open>HcclTest\<close> holds an enumeration value as
  an \<open>int\<close>; \<open>dtype_of\<close> and \<open>op_of\<close> read such an \<open>int\<close> as the label a \<open>switch\<close> compares it with.

  The header that declares the enumerations belongs to the vendor's toolkit.  The program fixes
  the values it relies on: it converts between a position in its own tables and an enumerator,
  and says that the enumeration of data types leaves out the value 13.
\<close>

datatype HcclDataType =
    HCCL_DATA_TYPE_INT8 | HCCL_DATA_TYPE_INT16 | HCCL_DATA_TYPE_INT32 | HCCL_DATA_TYPE_FP16
  | HCCL_DATA_TYPE_FP32 | HCCL_DATA_TYPE_INT64 | HCCL_DATA_TYPE_UINT64 | HCCL_DATA_TYPE_UINT8
  | HCCL_DATA_TYPE_UINT16 | HCCL_DATA_TYPE_UINT32 | HCCL_DATA_TYPE_FP64 | HCCL_DATA_TYPE_BFP16
  | HCCL_DATA_TYPE_INT128 | HCCL_DATA_TYPE_HIF8 | HCCL_DATA_TYPE_FP8E4M3 | HCCL_DATA_TYPE_FP8E5M2
  | HCCL_DATA_TYPE_FP8E8M0

datatype HcclReduceOp = HCCL_REDUCE_SUM | HCCL_REDUCE_PROD | HCCL_REDUCE_MAX | HCCL_REDUCE_MIN

subsection \<open>Tables\<close>

definition test_types :: "HcclDataType list" where
  "test_types =
     [HCCL_DATA_TYPE_INT8, HCCL_DATA_TYPE_INT16, HCCL_DATA_TYPE_INT32, HCCL_DATA_TYPE_FP16,
      HCCL_DATA_TYPE_FP32, HCCL_DATA_TYPE_INT64, HCCL_DATA_TYPE_UINT64, HCCL_DATA_TYPE_UINT8,
      HCCL_DATA_TYPE_UINT16, HCCL_DATA_TYPE_UINT32, HCCL_DATA_TYPE_FP64, HCCL_DATA_TYPE_BFP16,
      HCCL_DATA_TYPE_INT128, HCCL_DATA_TYPE_HIF8, HCCL_DATA_TYPE_FP8E4M3,
      HCCL_DATA_TYPE_FP8E5M2, HCCL_DATA_TYPE_FP8E8M0]"

definition test_typenames :: "string list" where
  "test_typenames =
     [''int8'', ''int16'', ''int32'', ''fp16'', ''fp32'', ''int64'', ''uint64'', ''uint8'',
      ''uint16'', ''uint32'', ''fp64'', ''bfp16'', ''int128'', ''hif8'', ''fp8e4m3'',
      ''fp8e5m2'', ''fp8e8m0'']"

definition test_ops :: "HcclReduceOp list" where
  "test_ops = [HCCL_REDUCE_SUM, HCCL_REDUCE_PROD, HCCL_REDUCE_MAX, HCCL_REDUCE_MIN]"

definition test_opnames :: "string list" where
  "test_opnames = [''sum'', ''prod'', ''max'', ''min'']"

definition test_accelerator_config :: "string list" where
  "test_accelerator_config =
     [''default'', ''host_ts'', ''aicpu_ts'', ''aiv'', ''aiv_only'', ''ccu_ms'', ''ccu_sched'',
      ''aicpu'']"

subsection \<open>Enumeration values\<close>

fun dtype_value :: "HcclDataType \<Rightarrow> int" where
  "dtype_value HCCL_DATA_TYPE_INT8 = 0"
| "dtype_value HCCL_DATA_TYPE_INT16 = 1"
| "dtype_value HCCL_DATA_TYPE_INT32 = 2"
| "dtype_value HCCL_DATA_TYPE_FP16 = 3"
| "dtype_value HCCL_DATA_TYPE_FP32 = 4"
| "dtype_value HCCL_DATA_TYPE_INT64 = 5"
| "dtype_value HCCL_DATA_TYPE_UINT64 = 6"
| "dtype_value HCCL_DATA_TYPE_UINT8 = 7"
| "dtype_value HCCL_DATA_TYPE_UINT16 = 8"
| "dtype_value HCCL_DATA_TYPE_UINT32 = 9"
| "dtype_value HCCL_DATA_TYPE_FP64 = 10"
| "dtype_value HCCL_DATA_TYPE_BFP16 = 11"
| "dtype_value HCCL_DATA_TYPE_INT128 = 12"
| "dtype_value HCCL_DATA_TYPE_HIF8 = 14"
| "dtype_value HCCL_DATA_TYPE_FP8E4M3 = 15"
| "dtype_value HCCL_DATA_TYPE_FP8E5M2 = 16"
| "dtype_value HCCL_DATA_TYPE_FP8E8M0 = 17"

fun op_value :: "HcclReduceOp \<Rightarrow> int" where
  "op_value HCCL_REDUCE_SUM = 0"
| "op_value HCCL_REDUCE_PROD = 1"
| "op_value HCCL_REDUCE_MAX = 2"
| "op_value HCCL_REDUCE_MIN = 3"

definition dtype_of :: "int \<Rightarrow> HcclDataType option" where
  "dtype_of d = find (\<lambda>t. dtype_value t = d) test_types"

definition op_of :: "int \<Rightarrow> HcclReduceOp option" where
  "op_of i = find (\<lambda>p. op_value p = i) test_ops"

lemma dtype_of_value [simp]: "dtype_of (dtype_value t) = Some t"
  by (cases t) (simp_all add: dtype_of_def test_types_def)

lemma op_of_value [simp]: "op_of (op_value p) = Some p"
  by (cases p) (simp_all add: op_of_def test_ops_def)

lemma dtype_of_eq_Some: "dtype_of d = Some t \<longleftrightarrow> d = dtype_value t"
  by (auto simp: dtype_of_def find_Some_iff)
    (metis dtype_of_def dtype_of_value find_Some_iff)

lemma op_of_eq_Some: "op_of d = Some t \<longleftrightarrow> d = op_value t"
  by (auto simp: op_of_def find_Some_iff) (metis op_of_def op_of_value find_Some_iff)

lemma dtype_value_inj: "dtype_value t = dtype_value t' \<longleftrightarrow> t = t'"
  by (metis dtype_of_value option.inject)

lemma dtype_value_neq_13: "dtype_value t \<noteq> 13 \<and> dtype_value t \<noteq> - 1"
  by (cases t) simp_all

text \<open>The bytes of an element, as the names of the types say.\<close>

fun type_bytes :: "HcclDataType \<Rightarrow> nat" where
  "type_bytes HCCL_DATA_TYPE_INT8 = 1"
| "type_bytes HCCL_DATA_TYPE_INT16 = 2"
| "type_bytes HCCL_DATA_TYPE_INT32 = 4"
| "type_bytes HCCL_DATA_TYPE_FP16 = 2"
| "type_bytes HCCL_DATA_TYPE_FP32 = 4"
| "type_bytes HCCL_DATA_TYPE_INT64 = 8"
| "type_bytes HCCL_DATA_TYPE_UINT64 = 8"
| "type_bytes HCCL_DATA_TYPE_UINT8 = 1"
| "type_bytes HCCL_DATA_TYPE_UINT16 = 2"
| "type_bytes HCCL_DATA_TYPE_UINT32 = 4"
| "type_bytes HCCL_DATA_TYPE_FP64 = 8"
| "type_bytes HCCL_DATA_TYPE_BFP16 = 2"
| "type_bytes HCCL_DATA_TYPE_INT128 = 16"
| "type_bytes HCCL_DATA_TYPE_HIF8 = 1"
| "type_bytes HCCL_DATA_TYPE_FP8E4M3 = 1"
| "type_bytes HCCL_DATA_TYPE_FP8E5M2 = 1"
| "type_bytes HCCL_DATA_TYPE_FP8E8M0 = 1"

subsection \<open>Option names\<close>

text \<open>\<open>for (t = i; t < n; t++) if (strcmp(str, names[t]) == 0) return t;\<close>\<close>

fun strcmp_from :: "nat \<Rightarrow> string list \<Rightarrow> string \<Rightarrow> nat option" where
  "strcmp_from i [] str = None"
| "strcmp_from i (x # xs) str = (if str = x then Some i else strcmp_from (Suc i) xs str)"

definition get_hccl_op_from_str :: "string \<Rightarrow> int" where
  "get_hccl_op_from_str str =
     (case strcmp_from 0 test_opnames str of Some t \<Rightarrow> int t | None \<Rightarrow> - 1)"

definition get_hccl_dtype_from_str :: "string \<Rightarrow> int" where
  "get_hccl_dtype_from_str str =
     (case strcmp_from 0 test_typenames str of
        Some t \<Rightarrow> if t \<ge> 13 then int t + 1 else int t
      | None \<Rightarrow> - 1)"

definition get_accelerator_config_value_from_str :: "string \<Rightarrow> int" where
  "get_accelerator_config_value_from_str str =
     (case strcmp_from 0 test_accelerator_config str of Some t \<Rightarrow> int t | None \<Rightarrow> - 1)"

lemma strcmp_from_None: "strcmp_from i xs str = None \<longleftrightarrow> str \<notin> set xs"
  by (induction xs arbitrary: i) auto

lemma strcmp_from_nth:
  "distinct xs \<Longrightarrow> k < length xs \<Longrightarrow> strcmp_from i xs (xs ! k) = Some (i + k)"
  by (induction xs arbitrary: i k) (auto simp: nth_Cons split: nat.splits)

lemma strcmp_from_Some:
  "strcmp_from i xs str = Some t \<Longrightarrow> i \<le> t \<and> t < i + length xs \<and> xs ! (t - i) = str"
proof (induction xs arbitrary: i)
  case (Cons x xs)
  then show ?case
    by (cases "str = x") (auto simp: nth_Cons' dest!: Cons.IH)
qed simp

lemma lookup_names_sound:
  "get_hccl_op_from_str str = int t \<Longrightarrow> t < 4 \<and> test_opnames ! t = str"
  "get_accelerator_config_value_from_str str = int t \<Longrightarrow>
     t < 8 \<and> test_accelerator_config ! t = str"
  by (auto simp: get_hccl_op_from_str_def get_accelerator_config_value_from_str_def
      test_opnames_def test_accelerator_config_def split: option.splits if_splits)

lemma test_tables_distinct: "distinct test_typenames" "distinct test_opnames"
    "distinct test_accelerator_config"
  by (simp_all add: test_typenames_def test_opnames_def test_accelerator_config_def)

text \<open>
  C40. The data type option names every enumerator exactly once: the name at position \<open>k\<close> of the
  table is parsed to the value of the enumerator at position \<open>k\<close>, the gap at 13 included; a
  string that is no name is parsed to \<open>-1\<close>; and the result is a value of the enumeration
  exactly for the names.
\<close>

theorem get_hccl_dtype_from_str_correct:
  "(\<forall>k < 17. get_hccl_dtype_from_str (test_typenames ! k) = dtype_value (test_types ! k)) \<and>
   (str \<notin> set test_typenames \<longrightarrow> get_hccl_dtype_from_str str = - 1) \<and>
   (dtype_of (get_hccl_dtype_from_str str) \<noteq> None \<longleftrightarrow> str \<in> set test_typenames)"
proof -
  have tab: "get_hccl_dtype_from_str (test_typenames ! k) = dtype_value (test_types ! k)"
    if "k < 17" for k
  proof -
    have "k \<in> {0..<17}" using that by simp
    then have "dtype_value (test_types ! k) = (if k \<ge> 13 then int k + 1 else int k)"
      by (simp add: atLeastLessThan_nat_numeral atLeast0LessThan lessThan_nat_numeral
          lessThan_Suc test_types_def) auto
    then show ?thesis
      using strcmp_from_nth [OF test_tables_distinct(1), of k 0] that
      by (simp add: get_hccl_dtype_from_str_def test_typenames_def)
  qed
  have none: "get_hccl_dtype_from_str s = - 1" if "s \<notin> set test_typenames" for s
    using that strcmp_from_None [of 0 test_typenames s]
    by (simp add: get_hccl_dtype_from_str_def)
  have "dtype_of (get_hccl_dtype_from_str s) \<noteq> None" if "s \<in> set test_typenames" for s
  proof -
    have "length test_typenames = 17" by (simp add: test_typenames_def)
    with that obtain k where k: "k < 17" "s = test_typenames ! k"
      by (auto simp: in_set_conv_nth)
    then show ?thesis using tab by simp
  qed
  moreover have "dtype_of (- 1) = None"
    using dtype_value_neq_13 by (auto simp: dtype_of_def find_None_iff)
  ultimately show ?thesis using tab none by fastforce
qed

theorem get_hccl_dtype_from_str_witness:
  "get_hccl_dtype_from_str ''hif8'' = 14 \<and> get_hccl_dtype_from_str ''float'' = - 1"
  using get_hccl_dtype_from_str_correct [of "''float''"]
    spec [OF conjunct1 [OF get_hccl_dtype_from_str_correct], of 13]
  by (simp add: test_typenames_def test_types_def)

end
