(* ===== verification/Option_Text.thy ===== *)
theory Option_Text
  imports Hccl_Types
begin

text \<open>
  The functions of \<open>common/src/hccl_test_common.cc\<close> that compute on text: the host name and its hash,
  sizes, and numeric option values.
\<close>

subsection \<open>Host name and hash\<close>

text \<open>The buffer after \<open>gethostname\<close>: the first dot becomes the terminator.\<close>

fun cut_dot :: "string \<Rightarrow> string" where
  "cut_dot [] = []"
| "cut_dot (c # cs) = (if c = CHR ''.'' then CHR 0x00 # cs else c # cut_dot cs)"

definition get_host_name :: "string \<Rightarrow> string" where
  "get_host_name buf = cut_dot buf"

definition c_str :: "string \<Rightarrow> string" where
  "c_str buf = takeWhile (\<lambda>c. c \<noteq> CHR 0x00) buf"

text \<open>DJB2 on 64 bits; \<open>char\<close> is unsigned on the target (AArch64).\<close>

definition get_host_hash :: "string \<Rightarrow> u64" where
  "get_host_hash s = fold (\<lambda>c r. (push_bit 5 r + r) + of_nat (ord c)) s 5381"

text \<open>
  \<open>get_host_name\<close> leaves exactly the part of the host name before its first dot, and
  \<open>get_host_hash\<close> is the DJB2 polynomial of the characters in base 33, modulo \<open>2^64\<close>, with
  5381 as its leading coefficient.
\<close>

theorem host_name_and_hash:
  "c_str (get_host_name buf) = takeWhile (\<lambda>c. c \<noteq> CHR ''.'') (c_str buf) \<and>
   get_host_hash s =
     5381 * 33 ^ length s + (\<Sum>i < length s. of_nat (ord (s ! i)) * 33 ^ (length s - 1 - i))"
proof
  have "takeWhile (\<lambda>c. c \<noteq> CHR 0x00) (cut_dot b) =
      takeWhile (\<lambda>c. c \<noteq> CHR ''.'') (takeWhile (\<lambda>c. c \<noteq> CHR 0x00) b)" for b
    by (induction b) auto
  then show "c_str (get_host_name buf) = takeWhile (\<lambda>c. c \<noteq> CHR ''.'') (c_str buf)"
    by (simp add: c_str_def get_host_name_def)
  have step: "push_bit 5 r + r + x = 33 * r + x" for r x :: u64
    by (simp add: push_bit_eq_mult)
  have "fold (\<lambda>c r. (push_bit 5 r + r) + of_nat (ord c)) s r =
      r * 33 ^ length s + (\<Sum>i < length s. of_nat (ord (s ! i)) * 33 ^ (length s - 1 - i))"
    for r :: u64
  proof (induction s arbitrary: r)
    case (Cons c s)
    have "fold (\<lambda>c r. (push_bit 5 r + r) + of_nat (ord c)) (c # s) r =
        fold (\<lambda>c r. (push_bit 5 r + r) + of_nat (ord c)) s (33 * r + of_nat (ord c))"
      by (simp add: step)
    also note Cons.IH
    finally show ?case
      by (simp add: sum.lessThan_Suc_shift algebra_simps del: sum.lessThan_Suc)
  qed simp
  then show "get_host_hash s =
     5381 * 33 ^ length s + (\<Sum>i < length s. of_nat (ord (s ! i)) * 33 ^ (length s - 1 - i))"
    by (simp add: get_host_hash_def)
qed

subsection \<open>Numbers in options\<close>

definition KILO :: int where "KILO = 1024"
definition MEGA :: int where "MEGA = KILO * KILO"
definition GIGA :: int where "GIGA = MEGA * KILO"

text \<open>
  \<open>None\<close>: the product \<open>size * units\<close> leaves \<open>long long\<close>.
\<close>

definition parsesize :: "string \<Rightarrow> int option" where
  "parsesize value =
     (let (size, size_lit) = strtol 0 value;
          scaled = (\<lambda>units. if in_s 64 (size * units) then Some (size * units) else None)
      in if length size_lit = 1 then
           (if hd size_lit = CHR ''G'' \<or> hd size_lit = CHR ''g'' then scaled GIGA
            else if hd size_lit = CHR ''M'' \<or> hd size_lit = CHR ''m'' then scaled MEGA
            else if hd size_lit = CHR ''K'' \<or> hd size_lit = CHR ''k'' then scaled KILO
            else Some (- 1))
         else if length size_lit = 0 then scaled 1
         else Some (- 1))"

definition sal_str_len :: "string \<Rightarrow> nat \<Rightarrow> nat" where
  "sal_str_len s maxLen = min (length s) maxLen"

text \<open>\<open>for (index = 0; index < n; index++) if (!isdigit(s[index])) return -1; return 0;\<close>\<close>

fun all_digit_loop :: "string \<Rightarrow> nat \<Rightarrow> nat \<Rightarrow> int" where
  "all_digit_loop s index 0 = 0"
| "all_digit_loop s index (Suc n) =
     (if \<not> isdigit (s ! index) then - 1 else all_digit_loop s (Suc index) n)"

definition is_all_digit :: "string option \<Rightarrow> int" where
  "is_all_digit strNum =
     (case strNum of
        None \<Rightarrow> - 1
      | Some s \<Rightarrow> all_digit_loop s 0 (sal_str_len s 2147483647))"

definition strtol_alldigit :: "string \<Rightarrow> int" where
  "strtol_alldigit optarg =
     (let r = is_all_digit (Some optarg) in if r \<noteq> 0 then r else fst (strtol 0 optarg))"

lemma all_digit_loop_iff:
  "index + n \<le> length s \<Longrightarrow>
     all_digit_loop s index n = (if \<forall>c \<in> set (take n (drop index s)). isdigit c then 0 else - 1)"
proof (induction n arbitrary: index)
  case (Suc n)
  then have "drop index s = s ! index # drop (Suc index) s" by (simp add: Cons_nth_drop_Suc)
  with Suc show ?case by simp
qed simp

lemma is_all_digit_iff:
  "length s \<le> 2147483647 \<Longrightarrow> is_all_digit (Some s) = (if \<forall>c \<in> set s. isdigit c then 0 else - 1)"
  by (simp add: is_all_digit_def sal_str_len_def all_digit_loop_iff)

text \<open>A decimal numeral as \<open>strtol\<close> with base 0 reads it: digits, the first not \<open>0\<close>.\<close>

definition decimal :: "string \<Rightarrow> bool" where
  "decimal ds \<longleftrightarrow> ds \<noteq> [] \<and> (\<forall>c \<in> set ds. isdigit c) \<and> hd ds \<noteq> CHR ''0''"

lemma scan_prefix_nonzero: "z \<noteq> CHR ''0'' \<Longrightarrow> scan_prefix 0 (z # s) = (10, z # s)"
  by (auto split: list.split)

lemma strtol_decimal:
  assumes "decimal ds" and "rest = [] \<or> \<not> digit_val (hd rest) < 10"
  shows "strtol 0 (ds @ rest) = (clamp_long (int (digits_val 10 ds)), rest)"
proof -
  obtain d ds' where ds: "ds = d # ds'" using assms(1) by (cases ds) (auto simp: decimal_def)
  with assms(1) have d: "isdigit d" "d \<noteq> CHR ''0''" by (auto simp: decimal_def)
  from assms(1) have dig: "\<forall>c \<in> set ds. digit_val c < 10"
    by (simp add: decimal_def isdigit_digit_val_lt del: ord_digit)
  have "scan_digits 10 0 0 (ds @ rest) = (digits_val 10 ds, length ds, rest)"
    using dig assms(2) by (rule scan_digits_app)
  moreover have "dropWhile isspace (ds @ rest) = ds @ rest"
    using d isdigit_not_space by (simp add: ds)
  moreover have "scan_sign (ds @ rest) = (False, ds @ rest)"
    using isdigit_not_sign [OF d(1)] by (simp add: ds)
  moreover have "scan_prefix 0 (ds @ rest) = (10, ds @ rest)"
    using d(2) unfolding ds append_Cons by (rule scan_prefix_nonzero)
  ultimately show ?thesis
    by (simp add: strtol_def scan_int_def ds del: scan_prefix.simps scan_digits.simps)
qed

fun unit_of :: "string \<Rightarrow> int" where
  "unit_of u = (if u = ''G'' \<or> u = ''g'' then GIGA else if u = ''M'' \<or> u = ''m'' then MEGA
     else if u = ''K'' \<or> u = ''k'' then KILO else 1)"

definition size_suffixes :: "string list" where
  "size_suffixes = [''G'', ''g'', ''M'', ''m'', ''K'', ''k'', []]"

lemma unit_facts: "0 < KILO" "0 < MEGA" "0 < GIGA"
  by (simp_all add: KILO_def MEGA_def GIGA_def)

lemma suffix_char: "u \<in> set size_suffixes \<Longrightarrow> u = [] \<or> \<not> digit_val (hd u) < 10"
  by (auto simp: size_suffixes_def digit_val_def isdigit_def ord_def)

text \<open>
  C33. A size written as a decimal numeral and a unit letter in either case is parsed to the
  number of bytes it says, as long as that number fits in \<open>long\<close>; a decimal numeral followed
  by anything that is neither a unit letter nor the end of the string is refused with \<open>-1\<close>.
\<close>

theorem parsesize_correct:
  assumes "decimal ds" and "int (digits_val 10 ds) < 2 ^ 63"
    and "u = [] \<or> \<not> digit_val (hd u) < 10"
  shows "if u \<in> set size_suffixes
    then int (digits_val 10 ds) * unit_of u < 2 ^ 63 \<longrightarrow>
         parsesize (ds @ u) = Some (int (digits_val 10 ds) * unit_of u)
    else parsesize (ds @ u) = Some (- 1)"
proof -
  have c: "clamp_long (int (digits_val 10 ds)) = int (digits_val 10 ds)"
    using assms(2) by (simp add: clamp_long_def)
  have l1: "length u = 1 \<Longrightarrow> \<exists>x. u = [x]" by (cases u) auto
  have nn: "0 \<le> int (digits_val 10 ds) * unit_of u"
    using unit_facts by (intro mult_nonneg_nonneg) simp_all
  show ?thesis
  proof (cases "u \<in> set size_suffixes")
    case True
    then have "parsesize (ds @ u) =
        (if in_s 64 (int (digits_val 10 ds) * unit_of u)
         then Some (int (digits_val 10 ds) * unit_of u) else None)"
      using strtol_decimal [OF assms(1,3)]
      by (auto simp: parsesize_def c size_suffixes_def)
    with True nn show ?thesis by (simp add: in_s_def)
  next
    case False
    then show ?thesis
      using strtol_decimal [OF assms(1,3)] l1
      by (auto simp: parsesize_def c size_suffixes_def)
  qed
qed

theorem parsesize_correct_witness:
  "parsesize ''64M'' = Some 67108864 \<and> parsesize ''64Mi'' = Some (- 1)"
proof -
  have d: "decimal ''64''" by (simp add: decimal_def isdigit_def ord_def)
  have v: "digits_val 10 ''64'' = 64" by (simp add: digits_val_def isdigit_def ord_def)
  show ?thesis
    using parsesize_correct [OF d, of "''M''"] parsesize_correct [OF d, of "''Mi''"]
    by (simp add: v size_suffixes_def digit_val_def isdigit_def ord_def MEGA_def KILO_def)
qed

text \<open>
  A numeric option value is refused with \<open>-1\<close> exactly when it holds a character that is
  not a digit, and a decimal numeral is read as its value (saturated at the largest \<open>long\<close>);
  a value with a leading zero is read in base 8, so \<open>010\<close> is eight and \<open>08\<close> is zero.
\<close>

theorem strtol_alldigit_correct:
  assumes "length s \<le> 2147483647"
  shows "(strtol_alldigit s = - 1 \<longleftrightarrow> \<not> (\<forall>c \<in> set s. isdigit c)) \<and>
         (decimal s \<longrightarrow> strtol_alldigit s = min (2 ^ 63 - 1) (int (digits_val 10 s))) \<and>
         strtol_alldigit ''010'' = 8 \<and> strtol_alldigit ''08'' = 0"
proof -
  have nonneg: "0 \<le> fst (strtol 0 s)" if all: "\<forall>c \<in> set s. isdigit c"
  proof -
    have sp: "dropWhile isspace s = s"
      using all isdigit_not_space by (cases s) auto
    have sg: "scan_sign s = (False, s)"
      using all isdigit_not_sign by (cases s) auto
    show ?thesis
      by (auto simp: strtol_def scan_int_def sp sg clamp_long_def Let_def split: prod.splits option.splits)
  qed
  have 1: "strtol_alldigit s = - 1 \<longleftrightarrow> \<not> (\<forall>c \<in> set s. isdigit c)"
    using nonneg by (auto simp: strtol_alldigit_def is_all_digit_iff [OF assms] Let_def)
  have 2: "strtol_alldigit s = min (2 ^ 63 - 1) (int (digits_val 10 s))" if "decimal s"
    using that strtol_decimal [OF that, of "[]"]
    by (simp add: strtol_alldigit_def is_all_digit_iff [OF assms] decimal_def clamp_long_def)
  have 3: "strtol_alldigit ''010'' = 8" "strtol_alldigit ''08'' = 0"
    by (simp_all add: strtol_alldigit_def is_all_digit_iff strtol_def scan_int_def isdigit_def
        isspace_def ord_def clamp_long_def digit_val_def)
  from 1 2 3 show ?thesis by simp
qed

theorem strtol_alldigit_correct_witness:
  "strtol_alldigit ''20'' = 20 \<and> strtol_alldigit ''2x'' = - 1"
  using strtol_alldigit_correct [of "''20''"] strtol_alldigit_correct [of "''2x''"]
  by (simp add: decimal_def isdigit_def ord_def digits_val_def)

end
