(* ===== verification/Device_Text.thy ===== *)
theory Device_Text
  imports Option_Text "HOL-Library.Sublist"
begin

text \<open>
  The device list of \<open>HCCL_TEST_USE_DEVS\<close> and the decisions taken on the SoC name:
  \<open>getAviDevs\<close>, \<open>use_ddr_mem\<close>, \<open>IsSupport910_95\<close> and the test of \<open>set_device_sat_mode\<close>
  (\<open>common/src/hccl_test_common.cc\<close>).
\<close>

subsection \<open>\<open>getAviDevs\<close>\<close>

text \<open>\<open>std::string::find\<close> of a one-character pattern from a position.\<close>

definition find_char :: "char \<Rightarrow> string \<Rightarrow> nat \<Rightarrow> nat option" where
  "find_char c s i =
     (let p = i + length (takeWhile (\<lambda>x. x \<noteq> c) (drop i s)) in if p < length s then Some p else None)"

lemma find_char_ge: "find_char c s i = Some p \<Longrightarrow> i \<le> p \<and> p < length s"
  by (auto simp: find_char_def Let_def split: if_splits)

function avi_loop :: "string \<Rightarrow> nat \<Rightarrow> int list \<Rightarrow> int list" where
  "avi_loop use_devs i dev_ids =
     (if i < length use_devs then
        (case find_char CHR '','' use_devs i of
           Some pos \<Rightarrow> avi_loop use_devs (Suc pos) (dev_ids @ [atoi (take pos (drop i use_devs))])
         | None \<Rightarrow> avi_loop use_devs (Suc i) dev_ids)
      else dev_ids)"
  by pat_completeness auto
termination
  by (relation "measure (\<lambda>(u, i, ids). length u - i)") (auto dest: find_char_ge)

declare avi_loop.simps [simp del]

text \<open>The second argument of \<open>substr\<close> is a length; the code passes the position there.\<close>

definition getAviDevs :: "string \<Rightarrow> int list" where
  "getAviDevs devs = avi_loop (devs @ '','') 0 []"

text \<open>The reading of the variable that is meant: the numbers between the commas.\<close>

fun split_on :: "char \<Rightarrow> string \<Rightarrow> string list" where
  "split_on d [] = [[]]"
| "split_on d (c # cs) =
     (if c = d then [] # split_on d cs
      else (case split_on d cs of p # ps \<Rightarrow> (c # p) # ps | [] \<Rightarrow> [[c]]))"

lemma split_on_not_Nil: "split_on d s \<noteq> []"
  by (induction s) (auto split: list.splits)

lemma split_on_piece: "d \<notin> set p \<Longrightarrow> split_on d (p @ d # t) = p # split_on d t"
  by (induction p) auto

lemma split_on_last: "d \<notin> set p \<Longrightarrow> split_on d p = [p]"
  by (induction p) auto

lemma find_char_piece:
  "d \<notin> set p \<Longrightarrow> find_char d (a @ p @ d # t) (length a) = Some (length a + length p)"
proof -
  assume "d \<notin> set p"
  then have "takeWhile (\<lambda>x. x \<noteq> d) (p @ d # t) = p" by (induction p) auto
  then show ?thesis by (simp add: find_char_def)
qed

lemma atoi_comma: "atoi (p @ CHR '','' # t) = atoi p"
  by (rule atoi_stop) (simp_all add: digit_val_def isdigit_def isspace_def ord_def)

lemma atoi_piece:
  assumes "length p \<le> n"
  shows "atoi (take n (p @ CHR '','' # t)) = atoi p"
proof (cases "n - length p")
  case 0
  with assms show ?thesis by simp
next
  case (Suc k)
  with assms have "take n (p @ CHR '','' # t) = p @ CHR '','' # take k t"
    by simp
  then show ?thesis by (simp add: atoi_comma)
qed

lemma avi_loop_pieces:
  "avi_loop (a @ s @ '','') (length a) ids = ids @ map atoi (split_on CHR '','' s)"
proof (induction "length s" arbitrary: a s ids rule: less_induct)
  case less
  show ?case
  proof (cases "CHR '','' \<in> set s")
    case False
    then have "find_char CHR '','' (a @ s @ '','') (length a) = Some (length a + length s)"
      using find_char_piece [of "CHR '',''" s a "[]"] by simp
    moreover have "atoi (take (length a + length s) (s @ '','')) = atoi s"
      by (rule atoi_piece) simp
    ultimately show ?thesis
      using split_on_last [OF False] by (subst avi_loop.simps) (simp add: avi_loop.simps)
  next
    case True
    then obtain p t where s: "s = p @ CHR '','' # t" and p: "CHR '','' \<notin> set p"
      by (metis split_list_first)
    have "find_char CHR '','' (a @ s @ '','') (length a) = Some (length a + length p)"
      using find_char_piece [OF p, of a "t @ '',''"] by (simp add: s)
    moreover have "atoi (take (length a + length p) (s @ '','')) = atoi p"
      using atoi_piece [of p "length a + length p" "t @ '',''"] by (simp add: s)
    moreover have "avi_loop (a @ s @ '','') (Suc (length a + length p)) ids' =
        ids' @ map atoi (split_on CHR '','' t)" for ids'
      using less [of t "a @ p @ '',''" ids'] by (simp add: s)
    ultimately show ?thesis
      using split_on_piece [OF p, of t] by (subst avi_loop.simps) (simp add: s)
  qed
qed

lemma getAviDevs_pieces: "getAviDevs devs = map atoi (split_on CHR '','' devs)"
  using avi_loop_pieces [of "[]" devs "[]"] by (simp add: getAviDevs_def)

lemma length_split_on: "length (split_on d s) \<le> length s + 1"
  by (induction s) (auto split: list.splits)

lemma length_getAviDevs: "0 < length (getAviDevs devs) \<and> length (getAviDevs devs) \<le> length devs + 1"
  using length_split_on [of "CHR '',''" devs] split_on_not_Nil [of "CHR '',''" devs]
  by (simp add: getAviDevs_pieces)

text \<open>
  \<open>getAviDevs\<close> returns the numbers between the commas of \<open>HCCL_TEST_USE_DEVS\<close>, in order,
  although it passes a position where \<open>substr\<close> takes a length: the surplus characters start
  with a comma, where \<open>atoi\<close> stops.  The list is never empty.
\<close>

theorem getAviDevs_eq_split:
  "getAviDevs devs = map atoi (split_on CHR '','' devs) \<and> getAviDevs devs \<noteq> []"
  using split_on_not_Nil [of "CHR '',''" devs] by (simp add: getAviDevs_pieces)

subsection \<open>SoC names\<close>

datatype aclrtMemAttr = ACL_DDR_MEM_HUGE | ACL_HBM_MEM_HUGE

text \<open>\<open>soc.compare(0, strlen(p), p) == 0\<close>\<close>

definition soc_starts :: "string \<Rightarrow> string \<Rightarrow> bool" where
  "soc_starts p soc \<longleftrightarrow> take (length p) soc = p"

definition use_ddr_mem :: "string \<Rightarrow> aclrtMemAttr" where
  "use_ddr_mem socVersion =
     (if soc_starts ''Ascend310P'' socVersion \<or> soc_starts ''BS9SX1A'' socVersion \<or>
         soc_starts ''Ascend610'' socVersion \<or> soc_starts ''Ascend610Lite'' socVersion \<or>
         soc_starts ''BS9SX2A'' socVersion \<or> soc_starts ''MC61AM21A'' socVersion \<or>
         soc_starts ''Ascend310B'' socVersion \<or> soc_starts ''AS31XM1X'' socVersion
      then ACL_DDR_MEM_HUGE else ACL_HBM_MEM_HUGE)"

text \<open>The names the function declares.\<close>

definition ddr_soc_names :: "string list" where
  "ddr_soc_names =
     [''Ascend610'', ''Ascend610B1'', ''Ascend610B2'', ''Ascend610Lite'', ''BS9SX1A'',
      ''BS9SX1AA'', ''BS9SX1AB'', ''BS9SX1AC'', ''BS9SX2A'', ''BS9SX2AA'', ''BS9SX2AB'',
      ''MC61AM21A'', ''MC61AM21AA'', ''MC61AM21AB'', ''Ascend310P'', ''Ascend310P1'',
      ''Ascend310P2'', ''Ascend310P3'', ''Ascend310P4'', ''Ascend310B1'', ''Ascend310B2'',
      ''Ascend310B3'', ''Ascend310B4'', ''Ascend310B'', ''AS31XM1X'']"

definition hbm_soc_names :: "string list" where
  "hbm_soc_names =
     [''Ascend910'', ''Ascend910B1'', ''Ascend910B2'', ''Ascend910B2C'', ''Ascend910B3'',
      ''Ascend910B4'', ''Ascend910B4-1'', ''Ascend910_9391'', ''Ascend910_9381'',
      ''Ascend910_9392'', ''Ascend910_9382'', ''Ascend910_9372'', ''Ascend910_9361'']"

text \<open>\<open>soc.find("910_95") != npos\<close>\<close>

definition IsSupport910_95 :: "string \<Rightarrow> bool" where
  "IsSupport910_95 socVersion \<longleftrightarrow> sublist ''910_95'' socVersion"

text \<open>The condition under which \<open>set_device_sat_mode\<close> switches the overflow mode.\<close>

definition sat_mode_needed :: "string \<Rightarrow> bool" where
  "sat_mode_needed soc \<longleftrightarrow>
     length ''Ascend910B'' \<noteq> length soc \<and>
     take (length ''Ascend910B'') ''Ascend910B'' = take (length ''Ascend910B'') soc"

lemma proper_extension:
  "length p \<noteq> length s \<and> take (length p) p = take (length p) s \<longleftrightarrow> strict_prefix p s"
proof
  assume a: "length p \<noteq> length s \<and> take (length p) p = take (length p) s"
  then have "s = p @ drop (length p) s" by (metis append_take_drop_id take_all_iff le_refl)
  then show "strict_prefix p s" using a by (metis prefixI strict_prefix_def)
next
  assume "strict_prefix p s"
  then show "length p \<noteq> length s \<and> take (length p) p = take (length p) s"
    by (auto elim!: strict_prefixE')
qed

text \<open>
  The SoC decisions: every name that \<open>use_ddr_mem\<close> declares is classified by the prefixes
  it compares with, the 310, 610, BS9, MC61 and AS31 families as DDR and the 910 family as
  HBM; a name longer than its prefix keeps the class; and the overflow mode is switched exactly
  for the proper extensions of \<open>Ascend910B\<close>.
\<close>

theorem soc_decisions:
  "(\<forall>n \<in> set ddr_soc_names. \<forall>x. use_ddr_mem (n @ x) = ACL_DDR_MEM_HUGE) \<and>
   (\<forall>x. use_ddr_mem (''Ascend910'' @ x) = ACL_HBM_MEM_HUGE) \<and>
   (\<forall>n \<in> set hbm_soc_names. use_ddr_mem n = ACL_HBM_MEM_HUGE) \<and>
   (sat_mode_needed soc \<longleftrightarrow> strict_prefix ''Ascend910B'' soc)"
proof -
  have "sat_mode_needed soc \<longleftrightarrow> strict_prefix ''Ascend910B'' soc"
    unfolding sat_mode_needed_def by (rule proper_extension)
  then show ?thesis
    by (simp add: ddr_soc_names_def hbm_soc_names_def use_ddr_mem_def soc_starts_def)
qed

theorem soc_decisions_witness:
  "use_ddr_mem ''Ascend310P3X'' = ACL_DDR_MEM_HUGE \<and> use_ddr_mem ''Ascend910B2'' = ACL_HBM_MEM_HUGE
   \<and> sat_mode_needed ''Ascend910B2''"
proof -
  have "''Ascend310P3'' \<in> set ddr_soc_names" by (simp add: ddr_soc_names_def)
  moreover have "''Ascend910B2'' \<in> set hbm_soc_names" by (simp add: hbm_soc_names_def)
  ultimately have "use_ddr_mem (''Ascend310P3'' @ ''X'') = ACL_DDR_MEM_HUGE"
    and "use_ddr_mem ''Ascend910B2'' = ACL_HBM_MEM_HUGE"
    using soc_decisions [of "''Ascend910B2''"] by blast+
  moreover have "sat_mode_needed ''Ascend910B2''"
    using soc_decisions [of "''Ascend910B2''"] by (simp add: strict_prefix_def prefix_def)
  ultimately show ?thesis by simp
qed

end
