(* ===== verification/Byte_Memory.thy ===== *)
theory Byte_Memory
  imports Prelude
begin

text \<open>
  Host buffers as the program uses them: a block of bytes that is read and written through
  typed pointers.  An element of width \<open>w\<close> at index \<open>j\<close> from a base offset occupies the \<open>w\<close>
  bytes from \<open>base + j * w\<close>, least significant byte first.  An access outside the block is
  undefined behaviour: \<open>None\<close>.
\<close>

type_synonym mem = "u8 list"

named_theorems mem_eval "equations that evaluate buffers on numerals"

subsection \<open>Little-endian encoding\<close>

fun le_bytes :: "nat \<Rightarrow> nat \<Rightarrow> u8 list" where
  "le_bytes 0 x = []"
| "le_bytes (Suc n) x = of_nat x # le_bytes n (x div 256)"

fun le_nat :: "u8 list \<Rightarrow> nat" where
  "le_nat [] = 0"
| "le_nat (b # bs) = unat b + 256 * le_nat bs"

lemma length_le_bytes [simp]: "length (le_bytes n x) = n"
  by (induction n arbitrary: x) auto

lemma le_nat_le_bytes [simp]: "le_nat (le_bytes n x) = x mod 256 ^ n"
proof (induction n arbitrary: x)
  case (Suc n)
  have "unat (of_nat x :: u8) = x mod 256" by (simp add: unat_of_nat take_bit_eq_mod)
  with Suc show ?case by (simp add: mod_mult2_eq)
qed simp

lemma le_nat_bound: "le_nat bs < 256 ^ length bs"
proof (induction bs)
  case (Cons b bs)
  then have "unat b + 256 * le_nat bs < 256 * 256 ^ length bs"
    using unat_le_8 [of b] by linarith
  then show ?case by simp
qed simp

lemma le_bytes_le_nat [simp]: "le_bytes (length bs) (le_nat bs) = bs"
proof (induction bs)
  case (Cons b bs)
  have "(unat b + 256 * le_nat bs) div 256 = le_nat bs"
    using unat_le_8 [of b] by (simp add: div_eq_0_iff)
  moreover have "(of_nat (unat b + 256 * le_nat bs) :: u8) = b"
  proof -
    have "(of_nat (256 * k) :: u8) = 0" for k
    proof -
      have "(256 :: u8) = 0" by simp
      then show ?thesis by (simp only: of_nat_mult of_nat_numeral mult_zero_left)
    qed
    then show ?thesis by (simp only: of_nat_add add_0_right) simp
  qed
  ultimately show ?case using Cons by simp
qed simp

lemma le_nat_inj: "length bs = length cs \<Longrightarrow> le_nat bs = le_nat cs \<longleftrightarrow> bs = cs"
  by (metis le_bytes_le_nat)

subsection \<open>Blocks\<close>

definition write_at :: "nat \<Rightarrow> u8 list \<Rightarrow> mem \<Rightarrow> mem" where
  "write_at p bs m = take p m @ bs @ drop (p + length bs) m"

definition store_elem :: "nat \<Rightarrow> nat \<Rightarrow> nat \<Rightarrow> nat \<Rightarrow> mem \<Rightarrow> mem option" where
  "store_elem w base j v m =
     (if base + Suc j * w \<le> length m then Some (write_at (base + j * w) (le_bytes w v) m) else None)"

definition load_elem :: "nat \<Rightarrow> nat \<Rightarrow> nat \<Rightarrow> mem \<Rightarrow> nat option" where
  "load_elem w base j m =
     (if base + Suc j * w \<le> length m then Some (le_nat (take w (drop (base + j * w) m))) else None)"

declare write_at_def [mem_eval] store_elem_def [mem_eval] load_elem_def [mem_eval]

lemma length_write_at [simp]: "p + length bs \<le> length m \<Longrightarrow> length (write_at p bs m) = length m"
  by (simp add: write_at_def)

lemma write_at_append:
  "p + length bs + length cs \<le> length m \<Longrightarrow>
     write_at (p + length bs) cs (write_at p bs m) = write_at p (bs @ cs) m"
  by (simp add: write_at_def add_ac)

lemma write_at_Nil [simp]: "write_at p [] m = m"
  by (simp add: write_at_def)

lemma take_write_at: "p \<le> length m \<Longrightarrow> take p (write_at p bs m) = take p m"
  by (simp add: write_at_def)

lemma drop_write_at:
  "p \<le> length m \<Longrightarrow> drop (p + length bs) (write_at p bs m) = drop (p + length bs) m"
  by (simp add: write_at_def)

lemma segment_write_at:
  "p \<le> length m \<Longrightarrow> take (length bs) (drop p (write_at p bs m)) = bs"
  by (simp add: write_at_def)

text \<open>The bytes of a sequence of elements.\<close>

definition elems :: "nat \<Rightarrow> (nat \<Rightarrow> nat) \<Rightarrow> nat \<Rightarrow> u8 list" where
  "elems w f n = concat (map (\<lambda>j. le_bytes w (f j)) [0..<n])"

lemma length_elems [simp]: "length (elems w f n) = n * w"
  by (induction n) (simp_all add: elems_def)

lemma elems_Suc: "elems w f (Suc n) = elems w f n @ le_bytes w (f n)"
  by (simp add: elems_def)

lemma elems_0 [simp]: "elems w f 0 = []"
  by (simp add: elems_def)

text \<open>Evaluation on numerals.\<close>

lemma le_bytes_numeral [mem_eval]:
  "le_bytes (numeral k) x = of_nat x # le_bytes (pred_numeral k) (x div 256)"
  "le_bytes 1 x = [of_nat x]"
  by (simp_all add: numeral_eq_Suc [of k])

lemma elems_numeral [mem_eval]:
  "elems w f (numeral k) = elems w f (pred_numeral k) @ le_bytes w (f (pred_numeral k))"
  "elems w f 1 = le_bytes w (f 0)" "elems w f (Suc 0) = le_bytes w (f 0)"
  by (simp_all add: numeral_eq_Suc [of k] elems_Suc)

lemma all_less_numeral [mem_eval]:
  "(\<forall>i < numeral k. P i) \<longleftrightarrow> (\<forall>i < pred_numeral k. P i) \<and> P (pred_numeral k)"
  "(\<forall>i < Suc 0. Q i) \<longleftrightarrow> Q 0"
  by (auto simp: numeral_eq_Suc [of k] less_Suc_eq)

lemma elems_nth: "j < n \<Longrightarrow> take w (drop (j * w) (elems w f n)) = le_bytes w (f j)"
proof (induction n)
  case (Suc n)
  show ?case
  proof (cases "j = n")
    case True
    then show ?thesis by (simp add: elems_Suc)
  next
    case False
    with Suc.prems have j: "j < n" by simp
    then have "Suc j * w \<le> n * w" by (intro mult_le_mono1) simp
    then have "j * w + w \<le> n * w" by simp
    with Suc.IH [OF j] show ?thesis by (simp add: elems_Suc)
  qed
qed simp

lemma load_elem_elems:
  assumes "p + n * w \<le> length m" and "j < n" and "take (n * w) (drop p m) = elems w f n"
  shows "load_elem w p j m = Some (f j mod 256 ^ w)"
proof -
  have le: "Suc j * w \<le> n * w" using assms(2) by (intro mult_le_mono1) simp
  have "take w (drop (p + j * w) m) = take w (drop (j * w) (take (n * w) (drop p m)))"
    using le by (simp add: drop_take add.commute)
  also have "\<dots> = le_bytes w (f j)" using assms(2,3) by (simp add: elems_nth)
  finally show ?thesis using assms(1) le by (simp add: load_elem_def)
qed

subsection \<open>Filling loops\<close>

lemma fill_loop:
  assumes "base + n * w \<le> length m"
  shows "for_range (\<lambda>j. store_elem w base j (f j)) 0 n m = Some (write_at base (elems w f n) m)"
  using assms
proof (induction n)
  case (Suc n)
  then have le: "base + n * w \<le> length m" by simp
  have "for_range (\<lambda>j. store_elem w base j (f j)) 0 (Suc n) m =
      (case for_range (\<lambda>j. store_elem w base j (f j)) 0 n m of None \<Rightarrow> None
       | Some m' \<Rightarrow> store_elem w base n (f n) m')"
    using for_range_add [of "\<lambda>j. store_elem w base j (f j)" 0 n 1 m]
    by (simp split: option.split)
  also have "\<dots> = store_elem w base n (f n) (write_at base (elems w f n) m)"
    using Suc.IH le by simp
  also have "\<dots> = Some (write_at base (elems w f (Suc n)) m)"
    using Suc.prems write_at_append [of base "elems w f n" "le_bytes w (f n)" m]
    by (simp add: store_elem_def elems_Suc algebra_simps)
  finally show ?case .
qed simp

lemma store_elem_length: "store_elem w base j v m = Some m' \<Longrightarrow> length m' = length m"
  by (auto simp: store_elem_def algebra_simps split: if_splits)

lemma fill_loop_out_of_bounds:
  assumes "\<not> base + n * w \<le> length m" and "n \<noteq> 0"
  shows "for_range (\<lambda>j. store_elem w base j (f j)) 0 n m = None"
proof -
  from assms(2) obtain k where n: "n = k + 1" by (cases n) auto
  have split: "for_range (\<lambda>j. store_elem w base j (f j)) 0 n m =
      (case for_range (\<lambda>j. store_elem w base j (f j)) 0 k m of None \<Rightarrow> None
       | Some m' \<Rightarrow> store_elem w base k (f k) m')"
    using for_range_add [of "\<lambda>j. store_elem w base j (f j)" 0 k 1 m]
    by (simp add: n split: option.split)
  have none: "store_elem w base k (f k) m' = None"
    if "for_range (\<lambda>j. store_elem w base j (f j)) 0 k m = Some m'" for m'
  proof -
    have "length m' = length m"
      by (rule for_range_invariant [where P = "\<lambda>i s. length s = length m", OF _ _ that])
        (simp_all add: store_elem_length)
    with assms(1) show ?thesis by (simp add: store_elem_def n)
  qed
  show ?thesis
  proof (cases "for_range (\<lambda>j. store_elem w base j (f j)) 0 k m")
    case None
    show ?thesis by (simp only: split None option.case)
  next
    case (Some m')
    show ?thesis by (simp only: split Some option.case none [OF Some])
  qed
qed

end
