(* ===== verification/Half_Float.thy ===== *)
theory Half_Float
  imports Soft_Float
begin

text \<open>
  The 16-bit float conversions of \<open>common/src/hccl_check_buf_init.h\<close>.  The first half of the
  theory adds the rounding lemmas the proofs need; \<open>fp16_ieee_from_fp32_value\<close> is then shown to
  be IEEE rounding to binary16 for every \<open>float\<close>, and \<open>fp32tobf16\<close> to round to the nearest bfloat16
  number but to return that number instead of its pattern.
\<close>

subsection \<open>Rounding\<close>

lemma nbits_eq: "2 ^ k \<le> n \<Longrightarrow> n < 2 ^ Suc k \<Longrightarrow> nbits n = Suc k"
proof -
  assume lo: "2 ^ k \<le> n" and hi: "n < 2 ^ Suc k"
  have "n \<noteq> 0" using lo by (intro notI) simp
  have "k < nbits n"
  proof (rule ccontr)
    assume "\<not> k < nbits n"
    then have "(2::nat) ^ nbits n \<le> 2 ^ k" by (intro power_increasing) auto
    with nbits_upper [of n] lo show False by linarith
  qed
  moreover have "nbits n - 1 < Suc k"
  proof (rule ccontr)
    assume "\<not> nbits n - 1 < Suc k"
    then have "(2::nat) ^ Suc k \<le> 2 ^ (nbits n - 1)" by (intro power_increasing) auto
    with nbits_lower [OF \<open>n \<noteq> 0\<close>] hi show False by linarith
  qed
  ultimately show ?thesis by simp
qed

lemma nbits_bounds: "n \<noteq> 0 \<Longrightarrow> nbits n = Suc k \<longleftrightarrow> 2 ^ k \<le> n \<and> n < 2 ^ Suc k"
  using nbits_eq nbits_lower [of n] nbits_upper [of n] by (metis diff_Suc_1)

lemma nbits_le: "n < 2 ^ k \<Longrightarrow> nbits n \<le> k"
proof (cases "n = 0")
  case False
  assume lt: "n < 2 ^ k"
  have "nbits n - 1 < k"
  proof (rule ccontr)
    assume "\<not> nbits n - 1 < k"
    then have "(2::nat) ^ k \<le> 2 ^ (nbits n - 1)" by (intro power_increasing) auto
    with nbits_lower [OF False] lt show False by linarith
  qed
  then show ?thesis by simp
qed simp

lemma nbits_mult_pow: "m \<noteq> 0 \<Longrightarrow> nbits (m * 2 ^ j) = nbits m + j"
proof -
  assume m: "m \<noteq> 0"
  then obtain k where k: "nbits m = Suc k" by (cases "nbits m") auto
  with m have "2 ^ k \<le> m" "m < 2 ^ Suc k" using nbits_bounds by blast+
  then have "2 ^ (k + j) \<le> m * 2 ^ j" "m * 2 ^ j < 2 ^ Suc (k + j)"
    by (simp_all add: power_add)
  then show ?thesis using nbits_eq k by force
qed

lemma rne_mult_pow: "rne (m * 2 ^ j) (k + j) = rne m k"
proof (cases "k = 0")
  case True
  show ?thesis
  proof (cases "j = 0")
    case False
    then show ?thesis using True by (simp add: rne_def Let_def)
  qed (simp add: True)
next
  case False
  have p: "(2::nat) ^ (k + j) = 2 ^ k * 2 ^ j" by (simp add: power_add)
  have d: "m * 2 ^ j div 2 ^ (k + j) = m div 2 ^ k" by (simp add: p)
  have r: "m * 2 ^ j mod 2 ^ (k + j) = (m mod 2 ^ k) * 2 ^ j" by (simp add: p)
  have h: "(2::nat) ^ (k + j - 1) = 2 ^ (k - 1) * 2 ^ j"
    using False by (simp flip: power_add)
  show ?thesis using False unfolding rne_def Let_def d r h by simp
qed

lemma rne_exact: "rne (m * 2 ^ j) j = m"
  using rne_mult_pow [of m j 0] by (simp add: rne_def)

lemma rne_add: "even a \<or> k = 0 \<Longrightarrow> rne (a * 2 ^ k + m) k = a + rne m k"
  by (auto simp: rne_def Let_def)

lemma rne_le: "m < n * 2 ^ k \<Longrightarrow> rne m k \<le> n"
proof -
  assume "m < n * 2 ^ k"
  then have "m div 2 ^ k < n" by (rule less_mult_imp_div_less)
  then show ?thesis
    using \<open>m < n * 2 ^ k\<close> by (cases "k = 0") (auto simp: rne_def Let_def)
qed

lemma rne_ge: "n * 2 ^ k \<le> m \<Longrightarrow> n \<le> rne m k"
proof -
  assume "n * 2 ^ k \<le> m"
  then have "n \<le> m div 2 ^ k" by (simp add: less_eq_div_iff_mult_less_eq)
  then show ?thesis using \<open>n * 2 ^ k \<le> m\<close> by (auto simp: rne_def Let_def)
qed

text \<open>Rounding depends on the value \<open>m * 2^e\<close>, not on how it is split.\<close>

lemma fp_round_shift: "fp_round eb mb s (m * 2 ^ j) e = fp_round eb mb s m (e + int j)"
proof (cases "m = 0")
  case False
  define et where "et = max (e + int j + int (nbits m) - int (mb + 1)) (emin eb mb)"
  have et: "max (e + int (nbits (m * 2 ^ j)) - int (mb + 1)) (emin eb mb) = et"
    using False by (simp add: et_def nbits_mult_pow add.commute add.left_commute)
  have q: "(if et \<le> e then m * 2 ^ j * 2 ^ nat (e - et) else rne (m * 2 ^ j) (nat (et - e))) =
      (if et \<le> e + int j then m * 2 ^ nat (e + int j - et) else rne m (nat (et - (e + int j))))"
  proof -
    consider (lo) "et \<le> e" | (mid) "e < et" "et \<le> e + int j" | (hi) "e + int j < et" by linarith
    then show ?thesis
    proof cases
      case lo
      then have "nat (e + int j - et) = j + nat (e - et)" by linarith
      with lo show ?thesis by (simp add: power_add)
    next
      case mid
      then have "j = nat (e + int j - et) + nat (et - e)" by linarith
      then have "m * 2 ^ j = m * 2 ^ nat (e + int j - et) * 2 ^ nat (et - e)"
        by (metis mult.assoc power_add)
      then have "rne (m * 2 ^ j) (nat (et - e)) = m * 2 ^ nat (e + int j - et)"
        by (simp only: rne_exact)
      with mid show ?thesis by simp
    next
      case hi
      then have "nat (et - e) = nat (et - (e + int j)) + j" by linarith
      with hi show ?thesis by (simp add: rne_mult_pow)
    qed
  qed
  from False show ?thesis
    unfolding fp_round_def Let_def et q using et_def by simp
qed (simp add: fp_round_def)

subsection \<open>Fields of a word\<close>

lemma and_high: "(x :: 'a::len word) AND NOT (mask n) = push_bit n (drop_bit n x)"
  by (rule bit_eqI) (auto simp: bit_simps)

lemma and_field: "(x :: 'a::len word) AND push_bit k (mask n) = push_bit k (take_bit n (drop_bit k x))"
  by (rule bit_eqI) (auto simp: bit_simps)

lemma unat_push_bit:
  "unat x * 2 ^ k < 2 ^ LENGTH('a) \<Longrightarrow> unat (push_bit k (x :: 'a::len word)) = unat x * 2 ^ k"
  by (subst unsigned_push_bit_eq) (simp add: push_bit_eq_mult take_bit_nat_eq_self)

lemma unat_take_bit: "unat (take_bit n (x :: 'a::len word)) = unat x mod 2 ^ n"
  by (subst unsigned_take_bit_eq) (simp add: take_bit_eq_mod)

lemma unat_drop: "unat (drop_bit n (x :: 'a::len word)) = unat x div 2 ^ n"
  unfolding unat_drop_bit_eq by (simp only: drop_bit_eq_div)

lemma or_disjoint_add:
  "y < 2 ^ k \<Longrightarrow> (push_bit k x :: nat) OR y = push_bit k x + y"
proof -
  assume "y < 2 ^ k"
  then have "take_bit k y = y" by (simp add: take_bit_nat_eq_self)
  then have "push_bit k x AND y = 0"
    by (metis (no_types, lifting) and.commute bit_eqI bit_and_iff bit_push_bit_iff bit_take_bit_iff
      bit_0_eq bot_apply bot_bool_def linorder_not_less)
  then show ?thesis by (simp add: disjunctive_add_eq_or)
qed

subsection \<open>The conversions\<close>

definition fp16_ieee_from_fp32_value :: "u32 \<Rightarrow> u16" where
  "fp16_ieee_from_fp32_value f =
     (let scale_to_inf = 0x77800000; scale_to_zero = 0x08800000;
          base = f32_mul (f32_mul (f32_abs f) scale_to_inf) scale_to_zero;
          w = f;
          shl1_w = w + w;
          sign = w AND 0x80000000;
          bias = shl1_w AND 0xFF000000;
          bias = (if bias < 0x71000000 then 0x71000000 else bias);
          base = f32_add (drop_bit 1 bias + 0x07800000) base;
          bits = base;
          exp_bits = drop_bit 13 bits AND 0x00007C00;
          mantissa_bits = bits AND 0x00000FFF;
          nonsign = exp_bits + mantissa_bits
      in ucast (drop_bit 16 sign OR (if 0xFF000000 < shl1_w then 0x7E00 else nonsign)))"

definition f32_to_u16 :: "u32 \<Rightarrow> u16 option" where
  "f32_to_u16 x =
     (case v_trunc (f32_decode x) of
        Some i \<Rightarrow> if 0 \<le> i \<and> i < 2 ^ 16 then Some (word_of_int i) else None
      | None \<Rightarrow> None)"

definition fp32tobf16 :: "u32 \<Rightarrow> u16 option" where
  "fp32tobf16 x =
     (let y = x;
          exp = y AND 0x7F800000;
          man = y AND 0x007FFFFF
      in if exp = 0 \<and> man = 0 then f32_to_u16 x
         else if exp = 0x7F800000 then f32_to_u16 x
         else let r = x;
                  r = r AND 0xff800000;
                  r = f32_div r (f32_of_int 256);
                  y = f32_add x r;
                  y = y AND 0xffff0000
              in f32_to_u16 y)"

text \<open>The fields of a \<open>float\<close>'s bit pattern.\<close>

lemma f32_fields:
  fixes x :: u32
  defines "b \<equiv> unat x"
  defines "s \<equiv> b div 2 ^ 31" and "ef \<equiv> b div 2 ^ 23 mod 2 ^ 8" and "m \<equiv> b mod 2 ^ 23"
  shows "b = s * 2 ^ 31 + ef * 2 ^ 23 + m" and "s \<le> 1" and "ef \<le> 255" and "m < 2 ^ 23"
    and "unat (x + x) = ef * 2 ^ 24 + 2 * m"
    and "unat (x AND 0x80000000) = s * 2 ^ 31"
    and "unat ((x + x) AND 0xFF000000) = ef * 2 ^ 24"
proof -
  have b: "b < 2 ^ 32" unfolding b_def using unsigned_less [of x, where ?'a = nat] by simp
  then show s: "s \<le> 1" by (simp add: s_def)
  show ef: "ef \<le> 255" by (simp add: ef_def)
  show m: "m < 2 ^ 23" by (simp add: m_def)
  have "b div 2 ^ 23 = s * 2 ^ 8 + ef"
  proof -
    have "b div 2 ^ 31 = b div 2 ^ 23 div 2 ^ 8" by (simp flip: div_mult2_eq)
    then show ?thesis unfolding s_def ef_def by simp
  qed
  then show fields: "b = s * 2 ^ 31 + ef * 2 ^ 23 + m"
    using div_mult_mod_eq [of b "2 ^ 23"] unfolding m_def by simp
  show dbl: "unat (x + x) = ef * 2 ^ 24 + 2 * m"
  proof -
    have "unat (x + x) = (b + b) mod 2 ^ 32" by (simp add: unat_word_ariths b_def flip: mult_2)
    also have "b + b = s * 2 ^ 32 + (ef * 2 ^ 24 + 2 * m)" using fields by simp
    also have "\<dots> mod 2 ^ 32 = (ef * 2 ^ 24 + 2 * m) mod 2 ^ 32" by simp
    also have "\<dots> = ef * 2 ^ 24 + 2 * m" using ef m by simp
    finally show ?thesis .
  qed
  show "unat (x AND 0x80000000) = s * 2 ^ 31"
  proof -
    have "(0x80000000 :: u32) = NOT (mask 31)" by (simp add: mask_eq_exp_minus_1)
    then have "x AND 0x80000000 = push_bit 31 (drop_bit 31 x)" by (metis and_high)
    then show ?thesis
      using s by (simp add: unat_push_bit unat_drop s_def b_def)
  qed
  show "unat ((x + x) AND 0xFF000000) = ef * 2 ^ 24"
  proof -
    have "(0xFF000000 :: u32) = NOT (mask 24)" by (simp add: mask_eq_exp_minus_1)
    then have "(x + x) AND 0xFF000000 = push_bit 24 (drop_bit 24 (x + x))" by (metis and_high)
    moreover have "unat (drop_bit 24 (x + x)) = ef"
      unfolding unat_drop dbl using m by simp
    ultimately show ?thesis using ef by (simp add: unat_push_bit)
  qed
qed

lemma fp16_nonsign:
  "unat ((drop_bit 13 y AND 0x00007C00) + (y AND 0x00000FFF) :: u32) =
     (unat y div 2 ^ 23 mod 2 ^ 5) * 2 ^ 10 + unat y mod 2 ^ 12"
proof -
  have c: "(0x00007C00 :: u32) = push_bit 10 (mask 5)" "(0x00000FFF :: u32) = mask 12"
    by (simp_all add: mask_eq_exp_minus_1 push_bit_eq_mult)
  have d: "unat y div 2 ^ 13 div 2 ^ 10 = unat y div 2 ^ 23" by (simp flip: div_mult2_eq)
  have e: "unat (drop_bit 13 y AND 0x00007C00) = (unat y div 2 ^ 23 mod 2 ^ 5) * 2 ^ 10"
    unfolding c and_field
    by (subst unat_push_bit) (simp_all add: unat_take_bit unat_drop d [simplified])
  have m: "unat (y AND 0x00000FFF) = unat y mod 2 ^ 12"
    unfolding c by (simp add: unat_take_bit flip: take_bit_eq_mask)
  have "unat y div 2 ^ 23 mod 2 ^ 5 < 2 ^ 5" "unat y mod 2 ^ 12 < 2 ^ 12" by simp_all
  then have "unat (drop_bit 13 y AND 0x00007C00) + unat (y AND 0x00000FFF) < 2 ^ LENGTH(32)"
    unfolding e m by simp
  then show ?thesis by (simp add: unat_add_small e m)
qed

lemma fp16_assemble:
  fixes sign n :: u32
  assumes "unat sign = s * 2 ^ 31" "s \<le> 1" "unat n < 2 ^ 15"
  shows "unat (ucast (drop_bit 16 sign OR n) :: u16) = s * 2 ^ 15 + unat n"
proof -
  have "unat (drop_bit 16 sign OR n) = push_bit 15 s OR unat n"
    by (simp add: unsigned_or_eq unat_drop assms(1) push_bit_eq_mult mult.commute)
  also have "\<dots> = s * 2 ^ 15 + unat n"
    using or_disjoint_add [OF assms(3), of s] by (simp add: push_bit_eq_mult)
  finally have "unat (drop_bit 16 sign OR n) = s * 2 ^ 15 + unat n" .
  with assms(2,3) show ?thesis
    by (subst unsigned_ucast_eq) (simp add: take_bit_nat_eq_self)
qed

subsection \<open>Exact scaling and the rounding addition\<close>

lemma fp_round_bound: "fp_round eb mb s m e \<le> fp_sign eb mb s + fp_inf eb mb"
  by (simp add: fp_round_def Let_def)

lemma f32_decode_round:
  "f32_decode (of_nat (fp_round 8 23 s m e)) = fp_decode 8 23 (fp_round 8 23 s m e)"
proof -
  have "fp_round 8 23 s m e < 2 ^ 32"
    using fp_round_bound [of 8 23 s m e] by (simp add: fp_sign_def fp_inf_def split: if_splits)
  then show ?thesis by (simp add: f32_decode_def unat_of_nat take_bit_eq_mod)
qed

lemma f32_exact:
  assumes "M \<noteq> 0" "M < 2 ^ 24" "- 149 \<le> e" "e + int (nbits M) \<le> 128"
  obtains j where "f32_decode (of_nat (fp_round 8 23 s M e)) = FNum s (M * 2 ^ j) (e - int j)"
proof -
  define et where "et = max (e + int (nbits M) - int (23 + 1)) (emin 8 23)"
  have n: "nbits M \<le> 24" using assms(2) by (rule nbits_le)
  then have "f32_decode (of_nat (fp_round 8 23 s M e)) = FNum s (M * 2 ^ nat (e - et)) et"
    unfolding f32_decode_round et_def using assms
    by (intro fp_round_exact) (simp_all add: emin_def)
  moreover have "et = e - int (nat (e - et))" using n assms(3) by (simp add: et_def emin_def)
  ultimately show thesis using that by metis
qed

lemma f32_scale:
  assumes "M \<noteq> 0" "M < 2 ^ 24" "- 149 \<le> e" "e + int (nbits M) \<le> 128"
    and c: "f32_decode c = FNum False (2 ^ 23) k"
  shows "f32_mul (of_nat (fp_round 8 23 False M e)) c = of_nat (fp_round 8 23 False M (e + k + 23))"
proof -
  obtain j where j: "f32_decode (of_nat (fp_round 8 23 False M e)) = FNum False (M * 2 ^ j) (e - int j)"
    using f32_exact assms by blast
  have "fp_round 8 23 False (M * 2 ^ j * 2 ^ 23) (e - int j + k) =
      fp_round 8 23 False M (e + k + 23)"
    using fp_round_shift [of 8 23 False M "j + 23" "e - int j + k"]
    by (simp add: power_add mult.assoc algebra_simps)
  then show ?thesis unfolding f32_mul_def j c by (simp add: f32_encode_def)
qed

lemma f32_add_big:
  assumes "M \<noteq> 0" "M < 2 ^ 24" "- 149 \<le> e" "e + int (nbits M) \<le> 128"
    and c: "f32_decode c = FNum False (2 ^ 23) (e + int D)" and D: "0 < D" and e: "e + int D \<le> 103"
  shows "unat (f32_add c (of_nat (fp_round 8 23 False M e))) =
     2 ^ 23 + rne M D + nat (e + int D + 149) * 2 ^ 23"
proof -
  obtain j where j: "f32_decode (of_nat (fp_round 8 23 False M e)) = FNum False (M * 2 ^ j) (e - int j)"
    using f32_exact assms by blast
  define S where "S = 2 ^ 23 * 2 ^ D + M"
  have g: "min (e + int D) (e - int j) = e - int j" by simp
  have "v_add (FNum False (2 ^ 23) (e + int D)) (FNum False (M * 2 ^ j) (e - int j)) =
      FNum False (S * 2 ^ j) (e - int j)"
  proof -
    have "nat (e + int D - (e - int j)) = D + j" by simp
    then have "int (align (2 ^ 23) (e + int D) (e - int j)) + int (align (M * 2 ^ j) (e - int j) (e - int j))
        = int (S * 2 ^ j)"
      by (simp add: align_def S_def power_add algebra_simps)
    moreover have "S * 2 ^ j \<noteq> 0" using assms(1) by (simp add: S_def)
    ultimately show ?thesis by (simp add: g signed_def Let_def nat_mult_distrib nat_power_eq)
  qed
  then have add: "f32_add c (of_nat (fp_round 8 23 False M e)) = of_nat (fp_round 8 23 False S e)"
    unfolding f32_add_def j c f32_encode_def by (simp add: fp_round_shift)
  have Sb: "2 ^ (23 + D) \<le> S" "S < 2 ^ Suc (23 + D)"
  proof -
    have "(2::nat) ^ 24 \<le> 2 ^ (23 + D)" using D by (intro power_increasing) auto
    with assms(2) show "S < 2 ^ Suc (23 + D)" by (simp add: S_def power_add)
  qed (simp add: S_def power_add)
  have nb: "nbits S = Suc (23 + D)" using Sb by (rule nbits_eq)
  have et: "max (e + int (nbits S) - int (23 + 1)) (emin 8 23) = e + int D"
    using assms(3) by (simp add: nb emin_def)
  have rS: "rne S D = 2 ^ 23 + rne M D" unfolding S_def by (rule rne_add) simp
  have rM: "rne M D \<le> 2 ^ 23"
  proof (rule rne_le)
    have "(2::nat) ^ 1 \<le> 2 ^ D" using D by (intro power_increasing) auto
    with assms(2) show "M < 2 ^ 23 * 2 ^ D" by simp
  qed
  have "S \<noteq> 0" using assms(1) by (simp add: S_def)
  then have r: "fp_round 8 23 False S e =
      min (2 ^ 23 + rne M D + nat (e + int D + 149) * 2 ^ 23) (fp_inf 8 23)"
    unfolding fp_round_def Let_def et using D by (simp add: fp_sign_def rS emin_def)
  have "nat (e + int D + 149) \<le> 252" using e by simp
  then have "2 ^ 23 + rne M D + nat (e + int D + 149) * 2 ^ 23 \<le> fp_inf 8 23"
    using rM by (simp add: fp_inf_def)
  then have m: "min (2 ^ 23 + rne M D + nat (e + int D + 149) * 2 ^ 23) (fp_inf 8 23) =
      2 ^ 23 + rne M D + nat (e + int D + 149) * 2 ^ 23" (is "_ = ?N") by simp
  have "?N < 2 ^ LENGTH(32)"
    using \<open>?N \<le> fp_inf 8 23\<close> by (simp add: fp_inf_def)
  then show ?thesis unfolding add r m by (rule unat_of_nat_small)
qed

subsection \<open>Correct rounding to binary16\<close>

lemma f32_decode_fields:
  fixes x :: u32
  assumes "unat x = s * 2 ^ 31 + ef * 2 ^ 23 + m" "s \<le> 1" "ef \<le> 255" "m < 2 ^ 23"
  shows "f32_decode x =
     (if ef = 255 then (if m = 0 then FInf (s = 1) else FNaN)
      else FNum (s = 1) (if ef = 0 then m else m + 2 ^ 23) (int (max ef 1) - 150))"
proof -
  have "unat x div 2 ^ 23 = s * 2 ^ 8 + ef" using assms(4) by (simp add: assms(1))
  then have e: "unat x div 2 ^ 23 mod 2 ^ 8 = ef" using assms(3) by simp
  have "unat x div 2 ^ 31 = s" unfolding assms(1) using assms(3,4) by (intro div_nat_eqI) simp_all
  moreover have "odd s = (s = 1)" using assms(2) by (cases s) auto
  ultimately have s: "odd (unat x div 2 ^ (8 + 23)) = (s = 1)" by simp
  have m: "unat x mod 2 ^ 23 = m"
  proof -
    have "unat x = m + (s * 2 ^ 8 + ef) * 2 ^ 23" by (simp add: assms(1))
    then have "unat x mod 2 ^ 23 = m mod 2 ^ 23" by (simp only: mod_mult_self1)
    with assms(4) show ?thesis by simp
  qed
  show ?thesis unfolding f32_decode_def fp_decode_def Let_def e s m by (simp add: emin_def)
qed

lemma f32_bias_decode:
  assumes "k \<le> 269" "k \<noteq> 0"
  shows "f32_decode (of_nat (k * 2 ^ 23)) =
     (if k < 255 then FNum False (2 ^ 23) (int k - 150)
      else if k = 255 then FInf False
      else FNum True (if k = 256 then 0 else 2 ^ 23) (int (max (k - 256) 1) - 150))"
proof (cases "k < 256")
  case True
  then have "unat (of_nat (k * 2 ^ 23) :: u32) = 0 * 2 ^ 31 + k * 2 ^ 23 + 0"
    by (subst unat_of_nat_small) simp_all
  from f32_decode_fields [OF this] True assms show ?thesis by simp
next
  case False
  then have "k * 2 ^ 23 = 1 * 2 ^ 31 + (k - 256) * 2 ^ 23 + 0" by (simp add: algebra_simps)
  then have "unat (of_nat (k * 2 ^ 23) :: u32) = 1 * 2 ^ 31 + (k - 256) * 2 ^ 23 + 0"
    using assms(1) by (subst unat_of_nat_small) simp_all
  from f32_decode_fields [OF this] False assms show ?thesis by auto
qed

text \<open>The base value of the rounding addition is the float with the biased exponent field.\<close>

lemma fp16_bias:
  fixes x :: u32
  assumes "unat ((x + x) AND 0xFF000000) = ef * 2 ^ 24" "ef \<le> 254"
  shows "drop_bit 1 (if (x + x) AND 0xFF000000 < 0x71000000 then 0x71000000 else (x + x) AND 0xFF000000)
     + 0x07800000 = of_nat ((max ef 113 + 15) * 2 ^ 23)"
proof -
  define bias where
    "bias = (if (x + x) AND 0xFF000000 < 0x71000000 then 0x71000000 else (x + x) AND 0xFF000000)"
  have "((x + x) AND 0xFF000000 < 0x71000000) = (ef < 113)"
    unfolding word_less_nat_alt assms(1) by simp
  then have "unat bias = max ef 113 * 2 ^ 24"
    unfolding bias_def using assms(1) by (simp add: max_def)
  then have d: "unat (drop_bit 1 bias) = max ef 113 * 2 ^ 23" by (simp only: unat_drop) simp
  have "unat (drop_bit 1 bias + 0x07800000) = (max ef 113 + 15) * 2 ^ 23"
    using assms(2) by (subst unat_add_small) (simp_all only: d, simp_all)
  moreover have "(max ef 113 + 15) * 2 ^ 23 < 2 ^ LENGTH(32)" using assms(2) by (simp add: max_def)
  then have "unat (of_nat ((max ef 113 + 15) * 2 ^ 23) :: u32) = (max ef 113 + 15) * 2 ^ 23"
    by (rule unat_of_nat_small)
  ultimately show ?thesis unfolding bias_def by (simp only: word_unat_eq_iff)
qed

text \<open>A finite value below \<open>2^16\<close>.\<close>

lemma fp16_small:
  assumes M: "M \<noteq> 0" "M < 2 ^ 24" and e: "e = int (max ef 1) - 150" and ef: "ef \<le> 142"
    and sub: "2 ^ 23 \<le> M \<or> ef = 0"
    and y: "y = f32_add (of_nat ((max ef 113 + 15) * 2 ^ 23)) (of_nat (fp_round 8 23 False M (e + 2)))"
  shows "(unat y div 2 ^ 23 mod 2 ^ 5) * 2 ^ 10 + unat y mod 2 ^ 12 = fp_round 5 10 False M e"
proof -
  define B where "B = max ef 113"
  define D where "D = nat (int B - int (max ef 1) + 13)"
  have B: "113 \<le> B" "B \<le> 142" using ef by (auto simp: B_def)
  have D: "int D = int B - int (max ef 1) + 13" and D13: "13 \<le> D"
    by (auto simp: D_def B_def)
  have n: "nbits M \<le> 24" using M(2) by (rule nbits_le)
  have k: "e + 2 + int D = int (B + 15) - 150" using D e by simp
  have "unat y = 2 ^ 23 + rne M D + nat (e + 2 + int D + 149) * 2 ^ 23"
    unfolding y using M n ef B D13 f32_bias_decode [of "B + 15"] k e
    by (intro f32_add_big) (auto simp: B_def [symmetric])
  then have y: "unat y = rne M D + (B + 15) * 2 ^ 23" using B by (simp add: k nat_diff_distrib)
  have "(2::nat) ^ 13 \<le> 2 ^ D" using D13 by (intro power_increasing) auto
  then have "(2::nat) ^ 24 \<le> 2 ^ 11 * 2 ^ D" by simp
  with M(2) have "M < 2 ^ 11 * 2 ^ D" by (rule less_le_trans)
  then have r: "rne M D \<le> 2 ^ 11" by (rule rne_le)
  have "unat y div 2 ^ 23 = B + 15" and m: "unat y mod 2 ^ 12 = rne M D"
  proof -
    show "unat y div 2 ^ 23 = B + 15" using r unfolding y by simp
    have "(B + 15) * 2 ^ 23 = (B + 15) * 2 ^ 11 * 2 ^ 12" by simp
    then show "unat y mod 2 ^ 12 = rne M D" using r unfolding y by (simp only: mod_mult_self1) simp
  qed
  then have f: "unat y div 2 ^ 23 mod 2 ^ 5 = B - 113" using B by (auto simp: mod_if)
  have et: "max (e + int (nbits M) - int (10 + 1)) (emin 5 10) = e + int D"
  proof (cases "ef < 113")
    case True
    with n e D show ?thesis by (simp add: emin_def B_def)
  next
    case False
    with sub M have "nbits M = 24" using nbits_eq [of 23 M] by simp
    with False e D show ?thesis by (simp add: emin_def B_def)
  qed
  have q: "nat (e + int D - emin 5 10) = B - 113" using D e B by (simp add: emin_def)
  have "fp_round 5 10 False M e = min (rne M D + (B - 113) * 2 ^ 10) (fp_inf 5 10)"
    unfolding fp_round_def Let_def et q using M(1) D13 by (simp add: fp_sign_def)
  then show ?thesis unfolding f m using r B by (simp add: fp_inf_def)
qed

text \<open>A finite value of at least \<open>2^16\<close> becomes an infinity.\<close>

lemma fp16_large_reference:
  assumes "2 ^ 23 \<le> M" "M < 2 ^ 24" "143 \<le> ef"
  shows "fp_round 5 10 False M (int ef - 150) = fp_inf 5 10"
proof -
  have n: "nbits M = 24" using nbits_eq [of 23 M] assms by simp
  have et: "max (int ef - 150 + int (nbits M) - int (10 + 1)) (emin 5 10) = int ef - 137"
    using assms(3) by (simp add: n emin_def)
  have q: "2 ^ 10 \<le> rne M 13" using assms(1) by (intro rne_ge) simp
  have d: "nat (int ef - 137 - (int ef - 150)) = 13" "nat (int ef - 137 - emin 5 10) = ef - 113"
    using assms(3) by (simp_all add: emin_def nat_diff_distrib)
  show ?thesis
    unfolding fp_round_def Let_def et d using assms q by (simp add: fp_sign_def fp_inf_def)
qed

lemma fp16_large:
  assumes "2 ^ 23 \<le> M" "M < 2 ^ 24" "143 \<le> ef" "ef \<le> 254"
  shows "f32_add (of_nat ((max ef 113 + 15) * 2 ^ 23))
      (f32_mul (f32_mul (of_nat (fp_round 8 23 False M (int ef - 150))) 0x77800000) 0x08800000)
     = 0x7F800000"
proof -
  have n: "nbits M = 24" using nbits_eq [of 23 M] assms by simp
  have c: "f32_decode 0x77800000 = FNum False (2 ^ 23) 89" by (simp add: fp_eval)
  have "f32_mul (of_nat (fp_round 8 23 False M (int ef - 150))) 0x77800000 =
      of_nat (fp_round 8 23 False M (int ef - 150 + 89 + 23))"
    using assms n by (intro f32_scale [OF _ _ _ _ c]) auto
  also have "fp_round 8 23 False M (int ef - 150 + 89 + 23) = fp_inf 8 23"
  proof -
    have et: "max (int ef - 150 + 89 + 23 + int (nbits M) - int (23 + 1)) (emin 8 23) = int ef - 38"
      using assms(3) by (simp add: n emin_def)
    show ?thesis
      unfolding fp_round_def Let_def et using assms
      by (simp add: fp_sign_def fp_inf_def emin_def nat_add_distrib)
  qed
  also have "f32_mul (of_nat (fp_inf 8 23)) 0x08800000 = 0x7F800000" by (simp add: fp_eval)
  finally have b: "f32_mul (f32_mul (of_nat (fp_round 8 23 False M (int ef - 150))) 0x77800000)
      0x08800000 = 0x7F800000" by simp
  have i: "f32_decode 0x7F800000 = FInf False" by (simp add: fp_eval)
  have k: "max ef 113 + 15 \<le> 269" "max ef 113 + 15 \<noteq> 0" using assms by auto
  show ?thesis
    unfolding b f32_add_def i f32_bias_decode [OF k]
    by (simp add: f32_encode_def fp_sign_def fp_inf_def)
qed

lemma f32_abs_finite:
  "f32_decode x = FNum s M e \<Longrightarrow> f32_abs x = of_nat (fp_round 8 23 False M e)"
  by (simp add: f32_abs_def f32_encode_def)

lemma f32_scaled_up_down:
  assumes M: "M \<noteq> 0" "M < 2 ^ 24" and e: "e = int (max ef 1) - 150" and ef: "ef \<le> 142"
  shows "f32_mul (f32_mul (of_nat (fp_round 8 23 False M e)) 0x77800000) 0x08800000
     = of_nat (fp_round 8 23 False M (e + 2))"
proof -
  have c: "f32_decode 0x77800000 = FNum False (2 ^ 23) 89" "f32_decode 0x08800000 = FNum False (2 ^ 23) (-133)"
    by (simp_all add: fp_eval)
  have n: "nbits M \<le> 24" using M(2) by (rule nbits_le)
  have "f32_mul (of_nat (fp_round 8 23 False M e)) 0x77800000 = of_nat (fp_round 8 23 False M (e + 89 + 23))"
    using M e ef n by (intro f32_scale [OF _ _ _ _ c(1)]) auto
  moreover have "f32_mul (of_nat (fp_round 8 23 False M (e + 89 + 23))) 0x08800000 =
      of_nat (fp_round 8 23 False M (e + 89 + 23 + - 133 + 23))"
    using M e ef n by (intro f32_scale [OF _ _ _ _ c(2)]) auto
  moreover have "e + 89 + 23 + - 133 + 23 = e + 2" by simp
  ultimately show ?thesis by (simp only:)
qed

lemma fp16_special_steps:
  "f32_mul (f32_mul (f32_abs 0) 0x77800000) 0x08800000 = 0"
  "f32_mul (f32_mul (f32_abs 0x80000000) 0x77800000) 0x08800000 = 0"
  "f32_mul (f32_mul (f32_abs 0x7F800000) 0x77800000) 0x08800000 = 0x7F800000"
  "f32_mul (f32_mul (f32_abs 0xFF800000) 0x77800000) 0x08800000 = 0x7F800000"
  "f32_add 0x40000000 0 = 0x40000000" "f32_add 0x87000000 0x7F800000 = 0x7F800000"
  "f32_decode 0 = FNum False 0 (- 149)" "f32_decode 0x80000000 = FNum True 0 (- 149)"
  "f32_decode 0x7F800000 = FInf False" "f32_decode 0xFF800000 = FInf True"
  by (simp_all add: fp_eval)

lemma fp16_special:
  "unat (fp16_ieee_from_fp32_value 0) = 0"
  "unat (fp16_ieee_from_fp32_value 0x80000000) = 0x8000"
  "unat (fp16_ieee_from_fp32_value 0x7F800000) = 0x7C00"
  "unat (fp16_ieee_from_fp32_value 0xFF800000) = 0xFC00"
  by (simp_all add: fp16_ieee_from_fp32_value_def fp16_special_steps)

definition fp16_reference :: "bool \<Rightarrow> fpv \<Rightarrow> nat" where
  "fp16_reference s v = (if v = FNaN then fp_sign 5 10 s + 0x7E00 else fp_encode 5 10 v)"

text \<open>What the scaled sum holds where the mantissa and the exponent of the half are read.\<close>

lemma fp16_sum_rounds:
  assumes M: "M \<noteq> 0" "M < 2 ^ 24" and e: "e = int (max ef 1) - 150" and ef: "ef \<le> 254" and sub: "2 ^ 23 \<le> M \<or> ef = 0"
    and base: "base = f32_add (of_nat ((max ef 113 + 15) * 2 ^ 23))
        (f32_mul (f32_mul (of_nat (fp_round 8 23 False M e)) 0x77800000) 0x08800000)"
  shows "(unat base div 2 ^ 23 mod 2 ^ 5) * 2 ^ 10 + unat base mod 2 ^ 12 = fp_round 5 10 False M e"
proof (cases "ef \<le> 142")
  case True
  show ?thesis
    using base [unfolded f32_scaled_up_down [OF M e True]] by (rule fp16_small [OF M e True sub])
next
  case False
  then have "2 ^ 23 \<le> M" "143 \<le> ef" "e = int ef - 150" using sub by (auto simp: e)
  then have "base = 0x7F800000" "fp_round 5 10 False M e = fp_inf 5 10"
    using fp16_large [of M ef] fp16_large_reference [of M ef] M(2) ef by (simp_all add: base)
  then show ?thesis by (simp add: fp_inf_def)
qed

lemma fp16_special_reference:
  assumes "unat x = s * 2 ^ 31 + ef * 2 ^ 23" "s < 2" "ef = 0 \<or> ef = 255"
    and "f32_decode x = (if ef = 255 then FInf (s = 1) else FNum (s = 1) 0 (- 149))"
  shows "unat (fp16_ieee_from_fp32_value x) = fp16_reference (s = 1) (f32_decode x)"
proof -
  have "s = 0 \<or> s = 1" using assms(2) by auto
  then have "s = 0 \<and> ef = 0 \<and> unat x = unat (0 :: u32) \<or> s = 1 \<and> ef = 0 \<and> unat x = unat (0x80000000 :: u32) \<or>
      s = 0 \<and> ef = 255 \<and> unat x = unat (0x7F800000 :: u32) \<or> s = 1 \<and> ef = 255 \<and> unat x = unat (0xFF800000 :: u32)"
    using assms(1,3) by auto
  then show ?thesis using assms(4) unfolding word_unat_eq_iff [symmetric]
    by (elim disjE conjE) (simp_all add: fp16_special fp16_reference_def fp_round_def fp_sign_def fp_inf_def)
qed

text \<open>
  C17.  \<open>fp16_ieee_from_fp32_value\<close>, which scales the value up to infinity and back, adds a bias
  and picks bit fields out of the sum, is the IEEE conversion: for every \<open>float\<close> bit pattern
  the result is the value rounded to nearest-even in binary16 (subnormals, overflow to infinity
  and signed zeros included), and a NaN becomes the quiet NaN with the same sign.
\<close>
theorem fp16_ieee_from_fp32_value_rounds:
  "unat (fp16_ieee_from_fp32_value x) = fp16_reference (2 ^ 31 \<le> unat x) (f32_decode x)"
proof -
  define s ef m where "s = unat x div 2 ^ 31" and "ef = unat x div 2 ^ 23 mod 2 ^ 8"
    and "m = unat x mod 2 ^ 23"
  note F = f32_fields [of x, folded s_def ef_def m_def]
  note dec = f32_decode_fields [OF F(1,2,3,4)]
  define M e where "M = (if ef = 0 then m else m + 2 ^ 23)" and "e = int (max ef 1) - 150"
  define base where "base = f32_add
      (drop_bit 1 (if (x + x) AND 0xFF000000 < 0x71000000 then 0x71000000 else (x + x) AND 0xFF000000)
        + 0x07800000)
      (f32_mul (f32_mul (f32_abs x) 0x77800000) 0x08800000)"
  define n :: u32 where "n = (if 0xFF000000 < x + x then 0x7E00
      else (drop_bit 13 base AND 0x00007C00) + (base AND 0x00000FFF))"
  have fp16: "fp16_ieee_from_fp32_value x = ucast (drop_bit 16 (x AND 0x80000000) OR n)"
    by (simp only: fp16_ieee_from_fp32_value_def Let_def base_def n_def)
  have sgn: "2 ^ 31 \<le> unat x \<longleftrightarrow> s = 1"
    using F(2,3,4) unfolding F(1) by auto
  have nan: "0xFF000000 < x + x \<longleftrightarrow> ef = 255 \<and> m \<noteq> 0"
    unfolding word_less_nat_alt F(5) using F(3,4) by auto
  have main: "unat n < 2 ^ 15 \<Longrightarrow> unat n + fp_sign 5 10 (s = 1) = fp16_reference (s = 1) (f32_decode x)
      \<Longrightarrow> ?thesis"
    using fp16_assemble [OF F(6,2), of n] F(2) unfolding sgn fp16
    by (cases "s = 1") (simp_all add: fp_sign_def)
  consider (quiet) "ef = 255" "m \<noteq> 0" | (special) "m = 0" "ef = 0 \<or> ef = 255" | (fin) "ef \<noteq> 255" "M \<noteq> 0"
    using M_def by (cases "ef = 0"; cases "m = 0") auto
  then show ?thesis
  proof cases
    case quiet
    then have "n = 0x7E00" unfolding n_def nan by simp
    with quiet show ?thesis by (intro main) (simp_all add: dec fp16_reference_def)
  next
    case special
    then show ?thesis unfolding sgn using F(1,2) by (intro fp16_special_reference [of _ s ef]) (auto simp: dec)
  next
    case fin
    have ef: "ef \<le> 254" using fin F(3) by simp
    have d: "f32_decode x = FNum (s = 1) M e" using fin by (simp add: dec M_def e_def)
    have base: "base = f32_add (of_nat ((max ef 113 + 15) * 2 ^ 23))
        (f32_mul (f32_mul (of_nat (fp_round 8 23 False M e)) 0x77800000) 0x08800000)"
      unfolding base_def fp16_bias [OF F(7) ef] f32_abs_finite [OF d] by simp
    have "n = (drop_bit 13 base AND 0x00007C00) + (base AND 0x00000FFF)"
      unfolding n_def nan using fin(1) by (simp only: if_False simp_thms)
    then have "unat n = (unat base div 2 ^ 23 mod 2 ^ 5) * 2 ^ 10 + unat base mod 2 ^ 12"
      by (simp only: fp16_nonsign)
    also have "\<dots> = fp_round 5 10 False M e"
      using F(4) by (intro fp16_sum_rounds [OF fin(2) _ e_def ef _ base]) (auto simp: M_def)
    finally have n: "unat n = fp_round 5 10 False M e" .
    have "fp_round 5 10 False M e < 2 ^ 15"
      using fp_round_bound [of 5 10 False M e] by (simp add: fp_sign_def fp_inf_def)
    moreover have "fp16_reference (s = 1) (f32_decode x) = fp_sign 5 10 (s = 1) + fp_round 5 10 False M e"
      using fin(2) by (simp add: d fp16_reference_def fp_round_def fp_sign_def Let_def)
    ultimately show ?thesis by (intro main) (simp_all only: n add.commute)
  qed
qed

subsection \<open>The bfloat16 routine\<close>

lemma fp32tobf16_normal:
  "x AND 0x7F800000 \<noteq> 0 \<Longrightarrow> x AND 0x7F800000 \<noteq> 0x7F800000 \<Longrightarrow>
     fp32tobf16 x =
       f32_to_u16 (f32_add x (f32_div (x AND 0xff800000) 0x43800000) AND 0xffff0000)"
proof -
  have "f32_of_int 256 = 0x43800000" by (simp add: fp_eval)
  then show "x AND 0x7F800000 \<noteq> 0 \<Longrightarrow> x AND 0x7F800000 \<noteq> 0x7F800000 \<Longrightarrow> ?thesis"
    by (simp add: fp32tobf16_def Let_def)
qed

text \<open>The quotient by 256 of a power of two is exact.\<close>

lemma bf16_step:
  fixes x :: u32
  assumes x: "unat x = s * 2 ^ 31 + ef * 2 ^ 23 + m" "s \<le> 1" "m < 2 ^ 23" and ef: "1 \<le> ef" "ef \<le> 254"
  shows "f32_div (x AND 0xff800000) 0x43800000 = of_nat (fp_round 8 23 (s = 1) 1 (int ef - 135))"
proof -
  have c: "f32_decode 0x43800000 = FNum False (2 ^ 23) (- 15)" by (simp add: fp_eval)
  have "(0xff800000 :: u32) = NOT (mask 23)" by (simp add: mask_eq_exp_minus_1)
  then have "x AND 0xff800000 = push_bit 23 (drop_bit 23 x)" by (metis and_high)
  moreover have "unat (drop_bit 23 x) = s * 2 ^ 8 + ef" unfolding unat_drop using x(3) by (simp add: x(1))
  ultimately have "unat (x AND 0xff800000) = s * 2 ^ 31 + ef * 2 ^ 23 + 0"
    using x(2) ef by (simp add: unat_push_bit add_mult_distrib)
  from f32_decode_fields [OF this x(2)] ef
  have d: "f32_decode (x AND 0xff800000) = FNum (s = 1) (2 ^ 23) (int ef - 150)" by simp
  have "nbits (2 ^ 23) = 24" by (intro nbits_eq [of 23, simplified]) simp_all
  then have "v_div 23 (FNum (s = 1) (2 ^ 23) (int ef - 150)) (FNum False (2 ^ 23) (- 15)) =
      FNum (s = 1) (1 * 2 ^ 27) (int ef - 162)"
    by (simp add: v_ratio_def Let_def)
  then show ?thesis
    unfolding f32_div_def d c f32_encode_def by (simp only: fp_encode.simps fp_round_shift) simp
qed

lemma v_add_same:
  assumes "align a e g + align b f g = n" "g = min e f" "0 < n"
  shows "v_add (FNum t a e) (FNum t b f) = FNum t n g"
proof -
  have "signed t (align a e g) + signed t (align b f g) = signed t n" using assms(1) by (auto simp: signed_def)
  then show ?thesis using assms(3) unfolding v_add.simps assms(2) [symmetric] Let_def by (auto simp: signed_def)
qed

text \<open>So the addition rounds the sum with half a unit of the upper half.\<close>

lemma bf16_sum_round:
  fixes x :: u32
  assumes x: "unat x = s * 2 ^ 31 + ef * 2 ^ 23 + m" "s \<le> 1" "m < 2 ^ 23" and ef: "1 \<le> ef" "ef \<le> 254"
  shows "f32_add x (of_nat (fp_round 8 23 (s = 1) 1 (int ef - 135))) =
    of_nat (fp_round 8 23 (s = 1) (2 ^ 23 + m + 2 ^ 15) (int ef - 150))"
proof -
  have nb: "nbits 1 = 1" by (simp add: nbits_one)
  obtain j where j: "f32_decode (of_nat (fp_round 8 23 (s = 1) 1 (int ef - 135))) = FNum (s = 1) (2 ^ j) (int ef - 135 - int j)"
    using f32_exact [of 1 "int ef - 135" "s = 1"] ef nb by auto
  have d: "f32_decode x = FNum (s = 1) (m + 2 ^ 23) (int ef - 150)"
    using f32_decode_fields [OF x(1,2) _ x(3)] ef by simp
  define g where "g = min (int ef - 150) (int ef - 135 - int j)"
  define k where "k = j - 15"
  have g: "g = int ef - 150 - int k" by (simp add: g_def k_def)
  have "nat (int ef - 150 - g) = k" "nat (int ef - 135 - int j - g) = 15 - j" by (simp_all add: g k_def)
  moreover have "j + (15 - j) = 15 + k" by (simp add: k_def)
  then have "(2::nat) ^ j * 2 ^ (15 - j) = 2 ^ 15 * 2 ^ k" by (metis power_add)
  ultimately have "align (m + 2 ^ 23) (int ef - 150) g + align (2 ^ j) (int ef - 135 - int j) g
      = (2 ^ 23 + m + 2 ^ 15) * 2 ^ k"
    by (simp add: align_def algebra_simps)
  then have "v_add (FNum (s = 1) (m + 2 ^ 23) (int ef - 150)) (FNum (s = 1) (2 ^ j) (int ef - 135 - int j))
      = FNum (s = 1) ((2 ^ 23 + m + 2 ^ 15) * 2 ^ k) g"
    by (rule v_add_same) (simp_all add: g_def)
  then show ?thesis
    unfolding f32_add_def d j f32_encode_def by (simp only: fp_encode.simps fp_round_shift) (simp add: g)
qed

lemma bf16_upper_half:
  assumes "s \<le> 1" "m < 2 ^ 23" "1 \<le> ef" "ef \<le> 254"
  shows "fp_round 8 23 (s = 1) (2 ^ 23 + m + 2 ^ 15) (int ef - 150) < 2 ^ 32"
    and "fp_round 8 23 (s = 1) (2 ^ 23 + m + 2 ^ 15) (int ef - 150) div 2 ^ 16 =
      (s * 2 ^ 31 + ef * 2 ^ 23 + m + 2 ^ 15) div 2 ^ 16"
proof -
  let ?N = "2 ^ 23 + m + 2 ^ 15 :: nat" and ?S = "s * 2 ^ 31"
  have sg: "fp_sign 8 23 (s = 1) = ?S" using assms(1) by (cases s) (auto simp: fp_sign_def)
  have bound: "fp_round 8 23 (s = 1) ?N (int ef - 150) \<le> ?S + fp_inf 8 23" using fp_round_bound sg by metis
  then show "fp_round 8 23 (s = 1) ?N (int ef - 150) < 2 ^ 32" using assms(1) by (simp add: fp_inf_def)
  show "fp_round 8 23 (s = 1) ?N (int ef - 150) div 2 ^ 16 = (?S + ef * 2 ^ 23 + m + 2 ^ 15) div 2 ^ 16"
  proof (cases "?N < 2 ^ 24")
    case True
    have nb: "nbits ?N = 24" using True by (intro nbits_eq [of 23, simplified]) simp_all
    have "fp_round 8 23 (s = 1) ?N (int ef - 150) = ?S + min (?N + (ef - 1) * 2 ^ 23) (fp_inf 8 23)"
      unfolding fp_round_def Let_def nb sg using assms(3) by (simp add: emin_def nat_diff_distrib)
    also have "min (?N + (ef - 1) * 2 ^ 23) (fp_inf 8 23) = ef * 2 ^ 23 + m + 2 ^ 15"
      using assms(3,4) True by (cases ef) (auto simp: fp_inf_def)
    finally show ?thesis by simp
  next
    case False
    then obtain d where d: "?N = 2 ^ 24 + d" by (metis le_Suc_ex not_less)
    then have dl: "d < 2 ^ 15" using assms(2) by simp
    have nb: "nbits ?N = 25" unfolding d using dl by (intro nbits_eq [of 24, simplified]) simp_all
    have q: "2 ^ 23 \<le> rne ?N 1" "rne ?N 1 \<le> 2 ^ 23 + 2 ^ 14"
      unfolding d using dl by (intro rne_ge rne_le; simp)+
    have r: "fp_round 8 23 (s = 1) ?N (int ef - 150) = ?S + min (rne ?N 1 + ef * 2 ^ 23) (fp_inf 8 23)"
      unfolding fp_round_def Let_def nb sg using assms(3) by (simp add: emin_def)
    define low where "low = min (rne ?N 1 + ef * 2 ^ 23) (fp_inf 8 23) - (2 ^ 23 + ef * 2 ^ 23)"
    have "min (rne ?N 1 + ef * 2 ^ 23) (fp_inf 8 23) = 2 ^ 23 + ef * 2 ^ 23 + low" "low < 2 ^ 16"
      using q assms(4) by (auto simp: low_def fp_inf_def)
    then have "fp_round 8 23 (s = 1) ?N (int ef - 150) = (s * 2 ^ 15 + (ef + 1) * 2 ^ 7) * 2 ^ 16 + low" "low < 2 ^ 16"
      using r by (simp_all add: algebra_simps)
    moreover have "?S + ef * 2 ^ 23 + m + 2 ^ 15 = (s * 2 ^ 15 + (ef + 1) * 2 ^ 7) * 2 ^ 16 + d" "d < 2 ^ 16"
      using d dl by simp_all
    moreover have "(a * 2 ^ 16 + b) div 2 ^ 16 = a" if "b < 2 ^ 16" for a b :: nat using that by simp
    ultimately show ?thesis by metis
  qed
qed

lemma high_half_eq:
  fixes x y :: u32
  assumes "unat x div 2 ^ 16 = unat y div 2 ^ 16"
  shows "x AND 0xffff0000 = y AND 0xffff0000"
proof -
  have "(0xffff0000 :: u32) = NOT (mask 16)" by (simp add: mask_eq_exp_minus_1)
  moreover have "drop_bit 16 x = drop_bit 16 y" by (simp only: word_unat_eq_iff unat_drop assms)
  ultimately show ?thesis by (simp only: and_high)
qed

lemma exponent_field: "unat (x AND 0x7F800000 :: u32) = unat x div 2 ^ 23 mod 2 ^ 8 * 2 ^ 23"
proof -
  have "(0x7F800000 :: u32) = push_bit 23 (mask 8)" by (simp add: mask_eq_exp_minus_1 push_bit_eq_mult)
  then have "x AND 0x7F800000 = push_bit 23 (take_bit 8 (drop_bit 23 x))" by (simp only: and_field)
  moreover have e: "unat (take_bit 8 (drop_bit 23 x)) = unat x div 2 ^ 23 mod 2 ^ 8" by (simp only: unat_take_bit unat_drop)
  have "unat x div 2 ^ 23 mod 2 ^ 8 < 2 ^ 8" by simp
  then have "unat (push_bit 23 (take_bit 8 (drop_bit 23 x))) = unat (take_bit 8 (drop_bit 23 x)) * 2 ^ 23"
    by (intro unat_push_bit) (simp only: e, simp)
  ultimately show ?thesis by (simp only: e)
qed

lemma bf16_normal_sum:
  fixes x :: u32
  assumes "x AND 0x7F800000 \<noteq> 0" "x AND 0x7F800000 \<noteq> 0x7F800000"
  shows "f32_add x (f32_div (x AND 0xff800000) 0x43800000) AND 0xffff0000 = (x + 0x8000) AND 0xffff0000"
proof -
  define s ef m where "s = unat x div 2 ^ 31" "ef = unat x div 2 ^ 23 mod 2 ^ 8" "m = unat x mod 2 ^ 23"
  note F = f32_fields [of x, folded s_ef_m_def]
  have e: "unat (x AND 0x7F800000) = ef * 2 ^ 23" by (simp only: exponent_field s_ef_m_def)
  have "ef \<noteq> 0" using assms(1) e by (metis mult_0 unat_eq_zero)
  moreover have "ef \<noteq> 255"
  proof
    assume "ef = 255"
    then have "unat (x AND 0x7F800000) = unat (0x7F800000 :: u32)" using e by simp
    with assms(2) show False by (simp only: word_unat_eq_iff)
  qed
  ultimately have ef: "1 \<le> ef" "ef \<le> 254" using F(3) by simp_all
  note up = bf16_upper_half [OF F(2,4) ef]
  have "unat (f32_add x (f32_div (x AND 0xff800000) 0x43800000)) = fp_round 8 23 (s = 1) (2 ^ 23 + m + 2 ^ 15) (int ef - 150)"
    unfolding bf16_step [OF F(1,2,4) ef] bf16_sum_round [OF F(1,2,4) ef] using up(1) by (simp add: unat_of_nat_small)
  moreover have "unat (x + 0x8000) = s * 2 ^ 31 + ef * 2 ^ 23 + m + 2 ^ 15"
    using F(1,2,4) ef by (subst unat_add_small) simp_all
  ultimately show ?thesis using up(2) by (intro high_half_eq) simp
qed

text \<open>Values below one.\<close>

lemma f32_to_u16_small:
  assumes "unat z div 2 ^ 23 mod 2 ^ 8 \<le> 126"
  shows "f32_to_u16 z = Some 0"
proof -
  define s ef m where "s = unat z div 2 ^ 31" "ef = unat z div 2 ^ 23 mod 2 ^ 8" "m = unat z mod 2 ^ 23"
  note F = f32_fields [of z, folded s_ef_m_def]
  have ef: "ef \<le> 126" using assms by (simp add: s_ef_m_def)
  define M where "M = (if ef = 0 then m else m + 2 ^ 23)"
  have d: "f32_decode z = FNum (s = 1) M (int (max ef 1) - 150)"
    using f32_decode_fields [OF F(1-4)] ef by (simp add: M_def)
  have "(2::nat) ^ 24 \<le> 2 ^ (150 - max ef 1)" using ef by (intro power_increasing) auto
  moreover have "M < 2 ^ 24" using F(4) by (simp add: M_def)
  ultimately have "M div 2 ^ (150 - max ef 1) = 0" by simp
  moreover have "nat (- (int (max ef 1) - 150)) = 150 - max ef 1" by simp
  moreover have "\<not> 0 \<le> int (max ef 1) - 150" using ef by simp
  ultimately show ?thesis unfolding f32_to_u16_def d v_trunc.simps by (simp add: signed_def)
qed

lemma high_half: "unat (z AND 0xffff0000 :: u32) = unat z div 2 ^ 16 * 2 ^ 16"
proof -
  have "(0xffff0000 :: u32) = NOT (mask 16)" by (simp add: mask_eq_exp_minus_1)
  then have "z AND 0xffff0000 = push_bit 16 (drop_bit 16 z)" by (simp only: and_high)
  moreover have "unat z div 2 ^ 16 * 2 ^ 16 \<le> unat z" by simp
  then have "unat (drop_bit 16 z) * 2 ^ 16 < 2 ^ LENGTH(32)"
    using unsigned_less [of z, where ?'a = nat] unfolding unat_drop by (rule le_less_trans)
  ultimately show ?thesis by (simp only: unat_push_bit unat_drop)
qed

lemma high_half_exponent: "unat (z AND 0xffff0000 :: u32) div 2 ^ 23 = unat z div 2 ^ 23"
proof -
  have "(2::nat) ^ 23 = 2 ^ 16 * 2 ^ 7" by simp
  moreover have "a * 2 ^ 16 div (2 ^ 16) = a" for a :: nat by simp
  ultimately show ?thesis unfolding high_half by (simp only: div_mult2_eq)
qed

text \<open>A number below the least normal one, and zero.\<close>

lemma fp32tobf16_tiny:
  assumes "x AND 0x7F800000 = (0 :: u32)"
  shows "fp32tobf16 x = Some 0" "f32_to_u16 ((x + 0x8000) AND 0xffff0000) = Some 0"
proof -
  define s ef m where "s = unat x div 2 ^ 31" "ef = unat x div 2 ^ 23 mod 2 ^ 8" "m = unat x mod 2 ^ 23"
  note F = f32_fields [of x, folded s_ef_m_def]
  have ef: "ef = 0" using exponent_field [of x] assms by (simp add: s_ef_m_def)
  have x: "unat x = s * 2 ^ 31 + m" using F(1) ef by simp
  have "unat (x + 0x8000) = s * 2 ^ 31 + m + 2 ^ 15"
    using x F(2,4) by (subst unat_add_small) simp_all
  then have "unat (x + 0x8000) div 2 ^ 23 = s * 2 ^ 8 + (m + 2 ^ 15) div 2 ^ 23" by simp
  moreover have "(m + 2 ^ 15) div 2 ^ 23 \<le> 1" using F(4) by simp
  ultimately have "unat (x + 0x8000) div 2 ^ 23 mod 2 ^ 8 \<le> 1" by simp
  then have "unat ((x + 0x8000) AND 0xffff0000) div 2 ^ 23 mod 2 ^ 8 \<le> 126" unfolding high_half_exponent by simp
  then show "f32_to_u16 ((x + 0x8000) AND 0xffff0000) = Some 0" by (rule f32_to_u16_small)
  have small: "f32_to_u16 x = Some 0" using ef by (intro f32_to_u16_small) (simp add: s_ef_m_def)
  show "fp32tobf16 x = Some 0"
  proof (cases "x AND 0x007FFFFF = 0")
    case True
    with small assms show ?thesis by (simp add: fp32tobf16_def Let_def)
  next
    case False
    have "f32_of_int 256 = 0x43800000" by (simp add: fp_eval)
    then have step: "fp32tobf16 x = f32_to_u16 (f32_add x (f32_div (x AND 0xff800000) 0x43800000) AND 0xffff0000)"
      using False assms by (simp add: fp32tobf16_def Let_def)
    have c: "f32_decode 0x43800000 = FNum False (2 ^ 23) (- 15)" by (simp add: fp_eval)
    have "(0xff800000 :: u32) = NOT (mask 23)" by (simp add: mask_eq_exp_minus_1)
    then have "x AND 0xff800000 = push_bit 23 (drop_bit 23 x)" by (metis and_high)
    moreover have "unat (drop_bit 23 x) = s * 2 ^ 8" unfolding unat_drop using F(4) by (simp add: x)
    ultimately have sgn: "unat (x AND 0xff800000) = s * 2 ^ 31 + 0 * 2 ^ 23 + 0"
      using F(2) by (simp add: unat_push_bit)
    have "f32_div (x AND 0xff800000) 0x43800000 = of_nat (fp_sign 8 23 (s = 1))"
      unfolding f32_div_def c f32_decode_fields [OF sgn F(2), simplified] by (simp add: f32_encode_def fp_round_def)
    also have "\<dots> = x AND 0xff800000"
      using sgn F(2) by (cases s) (simp_all add: fp_sign_def word_unat_eq_iff)
    finally have zero: "f32_div (x AND 0xff800000) 0x43800000 = x AND 0xff800000" .
    have "m \<noteq> 0"
    proof
      assume "m = 0"
      have "(0x007FFFFF :: u32) = mask 23" by (simp add: mask_eq_exp_minus_1)
      then have "x AND 0x007FFFFF = take_bit 23 x" by (simp only: take_bit_eq_mask)
      then have "unat (x AND 0x007FFFFF) = m" by (simp only: unat_take_bit s_ef_m_def)
      with \<open>m = 0\<close> False show False by (simp add: unat_eq_zero)
    qed
    have "f32_decode x = FNum (s = 1) m (- 149)" using f32_decode_fields [OF F(1-4)] ef by simp
    moreover have "f32_decode (x AND 0xff800000) = FNum (s = 1) 0 (- 149)"
      using f32_decode_fields [OF sgn F(2)] by simp
    ultimately have "f32_add x (x AND 0xff800000) = of_nat (fp_round 8 23 (s = 1) m (- 149))"
      using \<open>m \<noteq> 0\<close> by (simp add: f32_add_def v_add_same [of m "- 149" "- 149" 0 "- 149" m] align_def f32_encode_def del: v_add.simps)
    moreover have "fp_round 8 23 (s = 1) m (- 149) = s * 2 ^ 31 + m"
    proof -
      have "nbits m \<le> 23" using F(4) by (rule nbits_le)
      then show ?thesis
        using \<open>m \<noteq> 0\<close> F(2,4) by (cases s) (simp_all add: fp_round_def Let_def emin_def fp_sign_def fp_inf_def max_def)
    qed
    ultimately have "f32_add x (x AND 0xff800000) = of_nat (unat x)" by (simp only: x)
    then have "f32_add x (x AND 0xff800000) = x" by simp
    then have "fp32tobf16 x = f32_to_u16 (x AND 0xffff0000)" by (simp add: step zero)
    also have "\<dots> = Some 0"
    proof (rule f32_to_u16_small)
      show "unat (x AND 0xffff0000) div 2 ^ 23 mod 2 ^ 8 \<le> 126"
        unfolding high_half_exponent s_ef_m_def(2) [symmetric] ef by simp
    qed
    finally show ?thesis .
  qed
qed

text \<open>
  The bfloat16 pattern nearest to a number (ties away from zero): the upper half of its pattern after
  half a unit of the last place has been added; and the number that a pattern stands for, truncated.
\<close>

definition bf16_nearest :: "u32 \<Rightarrow> u16" where
  "bf16_nearest x = ucast (drop_bit 16 (x + 0x8000))"

definition bf16_number :: "u16 \<Rightarrow> int option" where
  "bf16_number p = v_trunc (f32_decode (push_bit 16 (ucast p)))"

lemma bf16_nearest_high: "push_bit 16 (ucast (bf16_nearest x)) = (x + 0x8000) AND 0xffff0000"
proof -
  have c: "(0xffff0000 :: u32) = NOT (mask 16)" by (simp add: mask_eq_exp_minus_1)
  show ?thesis unfolding bf16_nearest_def c and_high
    by (rule bit_eqI) (auto simp: bit_simps)
qed

lemma fp32tobf16_finite:
  assumes "x AND 0x7F800000 \<noteq> 0x7F800000"
  shows "fp32tobf16 x = f32_to_u16 (push_bit 16 (ucast (bf16_nearest x)))"
proof (cases "x AND 0x7F800000 = 0")
  case True
  from fp32tobf16_tiny [OF this] show ?thesis by (simp add: bf16_nearest_high)
next
  case False
  with assms show ?thesis by (simp add: fp32tobf16_normal bf16_normal_sum bf16_nearest_high)
qed

lemma fp32tobf16_special:
  assumes "x AND 0x7F800000 = 0x7F800000"
  shows "fp32tobf16 x = None"
proof -
  define s ef m where "s = unat x div 2 ^ 31" "ef = unat x div 2 ^ 23 mod 2 ^ 8" "m = unat x mod 2 ^ 23"
  note F = f32_fields [of x, folded s_ef_m_def]
  have "ef * 2 ^ 23 = 0x7F800000" using exponent_field [of x] assms by (simp add: s_ef_m_def)
  then have "ef = 255" by simp
  with f32_decode_fields [OF F(1-4)] assms show ?thesis by (simp add: fp32tobf16_def f32_to_u16_def)
qed

text \<open>The number of a pattern is never the number that the pattern is, but for zero.\<close>

lemma bf16_number_differs:
  fixes p :: u16
  shows "f32_to_u16 (push_bit 16 (ucast p)) = Some p \<longleftrightarrow> p = 0"
proof
  assume "p = 0"
  then show "f32_to_u16 (push_bit 16 (ucast p)) = Some p" by (simp add: f32_to_u16_small)
next
  define z :: u32 where "z = push_bit 16 (ucast p)"
  define s e k where "s = unat p div 2 ^ 15" "e = unat p div 2 ^ 7 mod 2 ^ 8" "k = unat p mod 2 ^ 7"
  assume "f32_to_u16 (push_bit 16 (ucast p)) = Some p"
  then obtain i where i: "v_trunc (f32_decode z) = Some i" "0 \<le> i" "i < 2 ^ 16" "p = word_of_int i"
    by (auto simp: f32_to_u16_def z_def split: option.splits if_splits)
  have p: "unat p < 2 ^ 16" using unsigned_less [of p, where ?'a = nat] by simp
  have "unat p div 2 ^ 15 = unat p div 2 ^ 7 div 2 ^ 8" by (simp flip: div_mult2_eq)
  then have "unat p div 2 ^ 7 = s * 2 ^ 8 + e"
    using div_mult_mod_eq [of "unat p div 2 ^ 7" "2 ^ 8"] by (simp only: s_e_k_def)
  moreover have "unat p = unat p div 2 ^ 7 * 2 ^ 7 + k" unfolding s_e_k_def by (rule div_mult_mod_eq [symmetric])
  ultimately have f: "unat p = s * 2 ^ 15 + e * 2 ^ 7 + k" by simp
  have f2: "s \<le> 1" "e \<le> 255" "k < 2 ^ 7" using p by (simp_all add: s_e_k_def)
  have "unat z = unat p * 2 ^ 16"
    unfolding z_def using p by (subst unat_push_bit) (simp_all add: unsigned_ucast_eq take_bit_nat_eq_self)
  then have z: "unat z = s * 2 ^ 31 + e * 2 ^ 23 + k * 2 ^ 16" using f by simp
  have "k * 2 ^ 16 < 2 ^ 23" using f2(3) by simp
  note d = f32_decode_fields [OF z f2(1,2) this]
  have ni: "unat p = nat i" using i(2-4) by (simp add: unsigned_of_int take_bit_int_eq_self)
  have e: "e \<noteq> 255" using i(1) d by (auto split: if_splits)
  show "p = 0"
  proof (cases "e \<le> 126")
    case True
    have "unat z div 2 ^ 23 = s * 2 ^ 8 + e" unfolding z using f2(3) by (intro div_nat_eqI) simp_all
    then have "unat z div 2 ^ 23 mod 2 ^ 8 = e" using f2(2) by simp
    with True have "f32_to_u16 z = Some 0" by (intro f32_to_u16_small) simp
    with \<open>f32_to_u16 (push_bit 16 (ucast p)) = Some p\<close> show ?thesis by (simp add: z_def)
  next
    case False
    define M where "M = (k + 2 ^ 7) * 2 ^ 16"
    have "f32_decode z = FNum (s = 1) M (int e - 150)" using d e False by (simp add: M_def)
    then have ii: "i = signed (s = 1) (if 150 \<le> e then M * 2 ^ (e - 150) else M div 2 ^ (150 - e))"
      using i(1) False by (auto simp: nat_diff_distrib)
    show ?thesis
    proof (cases "s = 1")
      case True
      then have "i = 0" using i(2) ii by (auto simp: signed_def split: if_splits)
      with i(4) show ?thesis by simp
    next
      case s: False
      have low: "e < 143"
      proof (rule ccontr)
        assume h: "\<not> e < 143"
        have "2 ^ 16 \<le> (if 150 \<le> e then M * 2 ^ (e - 150) else M div 2 ^ (150 - e))"
        proof (cases "150 \<le> e")
          case True
          have "2 ^ 16 * 1 \<le> M * 2 ^ (e - 150)" by (intro mult_le_mono) (simp_all add: M_def)
          with True show ?thesis by simp
        next
          case b: False
          have "2 ^ 16 = (2 ^ 23 :: nat) div 2 ^ 7" by simp
          also have "\<dots> \<le> M div 2 ^ 7" by (intro div_le_mono) (simp add: M_def)
          also have "\<dots> \<le> M div 2 ^ (150 - e)" using h b by (intro div_le_mono2 power_increasing) auto
          finally show ?thesis using b by simp
        qed
        then have "2 ^ 16 \<le> i" using ii s by (simp add: signed_def)
        with i(3) show False by simp
      qed
      have "nat i = M div 2 ^ (150 - e)" using ii s low by (simp add: signed_def)
      then have eq: "e * 2 ^ 7 + k = (k + 2 ^ 7) * 2 ^ 16 div 2 ^ (150 - e)"
        using ni f f2(1) s by (simp add: M_def)
      have "\<not> e * 2 ^ 7 + k = (k + 2 ^ 7) * 2 ^ 16 div 2 ^ (150 - e)"
      proof -
        have "e \<in> {127, 128, 129, 130, 131, 132, 133, 134, 135, 136, 137, 138, 139, 140, 141, 142}"
          using False low by (simp only: insert_iff empty_iff) presburger
        then show ?thesis using f2(3) by (elim insertE emptyE) (simp_all, presburger+)
      qed
      with eq show ?thesis by blast
    qed
  qed
qed

text \<open>
  C39.  \<open>fp32tobf16\<close> rounds to the nearest bfloat16 number (ties away from zero), but returns the
  \<^emph>\<open>number\<close>, converted to an unsigned 16-bit integer, and not its bit pattern.  For every \<open>float\<close> \<open>x\<close>:
  for an infinity or NaN the conversion is undefined; else the result is the truncated number of the
  nearest bfloat16 pattern when that is from 0 to 65535, and undefined when it is not.  The result is the
  pattern itself only for a number whose pattern is zero.
\<close>
theorem fp32tobf16_returns_the_value:
  "fp32tobf16 x =
     (if x AND 0x7F800000 = 0x7F800000 then None
      else case bf16_number (bf16_nearest x) of
          Some i \<Rightarrow> if 0 \<le> i \<and> i < 2 ^ 16 then Some (word_of_int i) else None
        | None \<Rightarrow> None)
   \<and> (fp32tobf16 x = Some (bf16_nearest x) \<longleftrightarrow> x AND 0x7F800000 \<noteq> 0x7F800000 \<and> bf16_nearest x = 0)"
proof (cases "x AND 0x7F800000 = 0x7F800000")
  case True
  with fp32tobf16_special [OF this] show ?thesis by simp
next
  case False
  note v = fp32tobf16_finite [OF this]
  from False show ?thesis
    by (simp add: v bf16_number_differs) (simp add: f32_to_u16_def bf16_number_def)
qed

end
