(* ===== verification/Buf_Init.thy ===== *)
theory Buf_Init
  imports Hccl_Types Byte_Memory Half_Float
begin

text \<open>
  \<open>common/src/hccl_check_buf_init.cc\<close>, first part: the routines that fill the host buffer a
  rank sends from.  Every routine is one loop that stores the same converted value \<open>count\<close>
  times.  What they have in common is the locale \<open>filler\<close>; each routine is an interpretation.
\<close>

text \<open>The bytes of a value stored into a \<open>w\<close>-byte integer object (two's complement).\<close>

definition s_enc :: "nat \<Rightarrow> int \<Rightarrow> nat" where
  "s_enc w v = nat (v mod 256 ^ w)"

subsection \<open>The routines\<close>

definition host_buf_init_fp32 :: "mem \<Rightarrow> nat \<Rightarrow> u64 \<Rightarrow> int \<Rightarrow> mem option" where
  "host_buf_init_fp32 m dst_buf count val =
     for_range (\<lambda>j. store_elem 4 dst_buf j (unat (f32_of_int val))) 0 (unat count) m"

definition host_buf_init_int8 :: "mem \<Rightarrow> nat \<Rightarrow> u64 \<Rightarrow> int \<Rightarrow> mem option" where
  "host_buf_init_int8 m dst_buf count val =
     (let modulus = 128
      in for_range (\<lambda>j. store_elem 1 dst_buf j (s_enc 1 (c_mod val modulus))) 0 (unat count) m)"

definition host_buf_init_int32 :: "mem \<Rightarrow> nat \<Rightarrow> u64 \<Rightarrow> int \<Rightarrow> mem option" where
  "host_buf_init_int32 m dst_buf count val =
     for_range (\<lambda>j. store_elem 4 dst_buf j (s_enc 4 val)) 0 (unat count) m"

definition host_buf_init_fp16 :: "mem \<Rightarrow> nat \<Rightarrow> u64 \<Rightarrow> int \<Rightarrow> mem option" where
  "host_buf_init_fp16 m dst_buf count val =
     for_range (\<lambda>j. store_elem 2 dst_buf j (unat (fp16_ieee_from_fp32_value (f32_of_int val))))
       0 (unat count) m"

definition host_buf_init_int16 :: "mem \<Rightarrow> nat \<Rightarrow> u64 \<Rightarrow> int \<Rightarrow> mem option" where
  "host_buf_init_int16 m dst_buf count val =
     for_range (\<lambda>j. store_elem 2 dst_buf j (s_enc 2 val)) 0 (unat count) m"

definition host_buf_init_int64 :: "mem \<Rightarrow> nat \<Rightarrow> u64 \<Rightarrow> int \<Rightarrow> mem option" where
  "host_buf_init_int64 m dst_buf count val =
     for_range (\<lambda>j. store_elem 8 dst_buf j (s_enc 8 val)) 0 (unat count) m"

definition host_buf_init_bfp16 :: "mem \<Rightarrow> nat \<Rightarrow> u64 \<Rightarrow> int \<Rightarrow> mem option" where
  "host_buf_init_bfp16 m dst_buf count val =
     for_range
       (\<lambda>j m. case fp32tobf16 (f32_of_int val) of
                None \<Rightarrow> None | Some v \<Rightarrow> store_elem 2 dst_buf j (unat v) m)
       0 (unat count) m"

text \<open>\<open>functionMap\<close>: the data types without an entry leave the buffer alone.\<close>

fun functionMap :: "HcclDataType \<Rightarrow> (mem \<Rightarrow> nat \<Rightarrow> u64 \<Rightarrow> int \<Rightarrow> mem option) option" where
  "functionMap HCCL_DATA_TYPE_FP32 = Some host_buf_init_fp32"
| "functionMap HCCL_DATA_TYPE_INT8 = Some host_buf_init_int8"
| "functionMap HCCL_DATA_TYPE_UINT8 = Some host_buf_init_int8"
| "functionMap HCCL_DATA_TYPE_INT32 = Some host_buf_init_int32"
| "functionMap HCCL_DATA_TYPE_UINT32 = Some host_buf_init_int32"
| "functionMap HCCL_DATA_TYPE_FP16 = Some host_buf_init_fp16"
| "functionMap HCCL_DATA_TYPE_INT16 = Some host_buf_init_int16"
| "functionMap HCCL_DATA_TYPE_UINT16 = Some host_buf_init_int16"
| "functionMap HCCL_DATA_TYPE_INT64 = Some host_buf_init_int64"
| "functionMap HCCL_DATA_TYPE_FP64 = Some host_buf_init_int64"
| "functionMap HCCL_DATA_TYPE_UINT64 = Some host_buf_init_int64"
| "functionMap HCCL_DATA_TYPE_BFP16 = Some host_buf_init_bfp16"
| "functionMap HCCL_DATA_TYPE_HIF8 = Some host_buf_init_int8"
| "functionMap HCCL_DATA_TYPE_FP8E4M3 = Some host_buf_init_int8"
| "functionMap HCCL_DATA_TYPE_FP8E5M2 = Some host_buf_init_int8"
| "functionMap HCCL_DATA_TYPE_FP8E8M0 = Some host_buf_init_int8"
| "functionMap HCCL_DATA_TYPE_INT128 = None"

definition hccl_host_buf_init :: "mem \<Rightarrow> nat \<Rightarrow> u64 \<Rightarrow> int \<Rightarrow> int \<Rightarrow> mem option" where
  "hccl_host_buf_init m dst_buf count dtype val =
     (case Option.bind (dtype_of dtype) functionMap of
        Some f \<Rightarrow> f m dst_buf count val
      | None \<Rightarrow> Some m)"

subsection \<open>What a filling routine promises\<close>

text \<open>
  A routine may leave the buffer alone, may compute a value that is undefined behaviour to
  convert, or fills it with one value.
\<close>

datatype fill = Leave | Undefined | Fill nat

definition filled :: "nat \<Rightarrow> fill \<Rightarrow> mem \<Rightarrow> nat \<Rightarrow> nat \<Rightarrow> mem option" where
  "filled w c m base n =
     (if c = Leave \<or> n = 0 then Some m
      else case c of
        Fill v \<Rightarrow> if base + n * w \<le> length m then Some (write_at base (elems w (\<lambda>_. v) n) m) else None
      | _ \<Rightarrow> None)"

lemma filled_simps [simp]:
  "filled w Leave m base n = Some m"
  "filled w c m base 0 = Some m"
  by (simp_all add: filled_def)

locale filler =
  fixes fill_buf :: "mem \<Rightarrow> nat \<Rightarrow> u64 \<Rightarrow> 'a \<Rightarrow> mem option"
    and width :: nat and content :: "'a \<Rightarrow> fill"
  assumes fills: "fill_buf m base count v = filled width (content v) m base (unat count)"
begin

lemma reads_back:
  assumes "fill_buf m base count v = Some m'" "content v = Fill x" "j < unat count"
  shows "load_elem width base j m' = Some (x mod 256 ^ width)"
proof -
  from assms have fit: "base + unat count * width \<le> length m"
    and m': "m' = write_at base (elems width (\<lambda>_. x) (unat count)) m"
    by (auto simp: fills filled_def split: if_splits)
  have "length m' = length m" using fit by (simp add: m')
  moreover have "take (unat count * width) (drop base m') = elems width (\<lambda>_. x) (unat count)"
    using segment_write_at [of base m "elems width (\<lambda>_. x) (unat count)"] fit by (simp add: m')
  ultimately show ?thesis using load_elem_elems assms(3) fit by metis
qed

lemma frame:
  assumes "fill_buf m base count v = Some m'"
  shows "length m' = length m" and "base \<le> length m \<Longrightarrow> take base m' = take base m"
    and "drop (base + unat count * width) m' = drop (base + unat count * width) m"
proof -
  show "length m' = length m"
    using assms by (auto simp: fills filled_def split: if_splits fill.splits)
  show "base \<le> length m \<Longrightarrow> take base m' = take base m"
    using assms by (auto simp: fills filled_def take_write_at split: if_splits fill.splits)
  show "drop (base + unat count * width) m' = drop (base + unat count * width) m"
    using assms drop_write_at [of base m "elems width _ (unat count)"]
    by (auto simp: fills filled_def split: if_splits fill.splits)
qed

lemma in_bounds:
  "content v = Fill x \<Longrightarrow>
     (\<exists>m'. fill_buf m base count v = Some m') \<longleftrightarrow> count = 0 \<or> base + unat count * width \<le> length m"
  by (auto simp: fills filled_def unat_eq_0)

end

lemma fill_loop_filled:
  "for_range (\<lambda>j. store_elem w base j v) 0 n m = filled w (Fill v) m base n"
proof (cases "n = 0")
  case False
  then show ?thesis
    using fill_loop [of base n w m "\<lambda>_. v"] fill_loop_out_of_bounds [of base n w m "\<lambda>_. v"]
    by (simp add: filled_def)
qed simp

lemma undefined_loop: "n \<noteq> 0 \<Longrightarrow> for_range (\<lambda>j m. None) i n m = None"
  by (cases n) simp_all

lemma undefined_loop_filled: "for_range (\<lambda>j m. None) 0 n m = filled w Undefined m base n"
  by (cases "n = 0") (simp_all add: filled_def undefined_loop)

definition of_option :: "'a option \<Rightarrow> ('a \<Rightarrow> nat) \<Rightarrow> fill" where
  "of_option x f = (case x of None \<Rightarrow> Undefined | Some v \<Rightarrow> Fill (f v))"

lemma of_option_simps [simp]: "of_option None f = Undefined" "of_option (Some v) f = Fill (f v)"
  by (simp_all add: of_option_def)

lemma option_loop_filled:
  "for_range (\<lambda>j m. case x of None \<Rightarrow> None | Some v \<Rightarrow> store_elem w base j (f v) m) 0 n m =
     filled w (of_option x f) m base n"
  by (cases x) (simp_all add: fill_loop_filled undefined_loop_filled)

interpretation fp32: filler host_buf_init_fp32 4 "\<lambda>val. Fill (unat (f32_of_int val))"
  by unfold_locales (simp add: host_buf_init_fp32_def fill_loop_filled)

interpretation int8: filler host_buf_init_int8 1 "\<lambda>val. Fill (s_enc 1 (c_mod val 128))"
  by unfold_locales (simp add: host_buf_init_int8_def fill_loop_filled)

interpretation int32: filler host_buf_init_int32 4 "\<lambda>val. Fill (s_enc 4 val)"
  by unfold_locales (simp add: host_buf_init_int32_def fill_loop_filled)

interpretation fp16: filler host_buf_init_fp16 2
    "\<lambda>val. Fill (unat (fp16_ieee_from_fp32_value (f32_of_int val)))"
  by unfold_locales (simp add: host_buf_init_fp16_def fill_loop_filled)

interpretation int16: filler host_buf_init_int16 2 "\<lambda>val. Fill (s_enc 2 val)"
  by unfold_locales (simp add: host_buf_init_int16_def fill_loop_filled)

interpretation int64: filler host_buf_init_int64 8 "\<lambda>val. Fill (s_enc 8 val)"
  by unfold_locales (simp add: host_buf_init_int64_def fill_loop_filled)

interpretation bfp16: filler host_buf_init_bfp16 2
    "\<lambda>val. of_option (fp32tobf16 (f32_of_int val)) unat"
  by unfold_locales (simp add: host_buf_init_bfp16_def option_loop_filled)

subsection \<open>The dispatcher\<close>

text \<open>
  The size \<open>init_data_count\<close> gives an element, which is that of its type except for \<open>int128\<close>, and the
  content the dispatcher gives it.
\<close>

definition elem_width :: "HcclDataType \<Rightarrow> nat" where
  "elem_width t =
     (case t of
        HCCL_DATA_TYPE_INT8 \<Rightarrow> 1 | HCCL_DATA_TYPE_UINT8 \<Rightarrow> 1 | HCCL_DATA_TYPE_HIF8 \<Rightarrow> 1
      | HCCL_DATA_TYPE_FP8E4M3 \<Rightarrow> 1 | HCCL_DATA_TYPE_FP8E5M2 \<Rightarrow> 1 | HCCL_DATA_TYPE_FP8E8M0 \<Rightarrow> 1
      | HCCL_DATA_TYPE_INT16 \<Rightarrow> 2 | HCCL_DATA_TYPE_UINT16 \<Rightarrow> 2 | HCCL_DATA_TYPE_FP16 \<Rightarrow> 2
      | HCCL_DATA_TYPE_BFP16 \<Rightarrow> 2
      | HCCL_DATA_TYPE_INT64 \<Rightarrow> 8 | HCCL_DATA_TYPE_UINT64 \<Rightarrow> 8 | HCCL_DATA_TYPE_FP64 \<Rightarrow> 8
      | _ \<Rightarrow> 4)"

lemma elem_width_bytes: "elem_width t = (if t = HCCL_DATA_TYPE_INT128 then 4 else type_bytes t)"
  by (cases t) (simp_all add: elem_width_def)

definition host_content :: "HcclDataType \<Rightarrow> int \<Rightarrow> fill" where
  "host_content t val =
     (case t of
        HCCL_DATA_TYPE_FP32 \<Rightarrow> Fill (unat (f32_of_int val))
      | HCCL_DATA_TYPE_FP16 \<Rightarrow> Fill (unat (fp16_ieee_from_fp32_value (f32_of_int val)))
      | HCCL_DATA_TYPE_BFP16 \<Rightarrow> of_option (fp32tobf16 (f32_of_int val)) unat
      | HCCL_DATA_TYPE_INT128 \<Rightarrow> Leave
      | _ \<Rightarrow> if elem_width t = 1 then Fill (s_enc 1 (c_mod val 128)) else Fill (s_enc (elem_width t) val))"

lemma hccl_host_buf_init_dispatch:
  "hccl_host_buf_init m base count (dtype_value t) v =
     (case functionMap t of Some f \<Rightarrow> f m base count v | None \<Rightarrow> Some m)"
  by (simp only: hccl_host_buf_init_def dtype_of_value bind.bind_lunit)

interpretation host: filler
    "\<lambda>m base count v. hccl_host_buf_init m base count (dtype_value t) v" "elem_width t" "host_content t"
  for t
  by unfold_locales
    (unfold hccl_host_buf_init_dispatch, cases t, simp_all add: host_content_def elem_width_def
       fp32.fills int8.fills [simplified] int32.fills fp16.fills int16.fills int64.fills bfp16.fills)

lemma s_enc_value: "0 < w \<Longrightarrow> in_s (8 * w) v \<Longrightarrow> wrap_s (8 * w) (int (s_enc w v mod 256 ^ w)) = v"
proof -
  assume w: "0 < w" and v: "in_s (8 * w) v"
  have p: "(2::int) ^ (8 * w) = 256 ^ w" by (simp add: power_mult)
  have e: "int (s_enc w v mod 256 ^ w) = v mod 2 ^ (8 * w)"
    by (simp add: s_enc_def p zmod_int)
  have "wrap_s (8 * w) (v mod 2 ^ (8 * w)) = wrap_s (8 * w) v"
    by (simp add: wrap_s_def mod_add_left_eq)
  with v w show ?thesis unfolding e by (simp add: wrap_s_id)
qed

text \<open>
  C37.  \<open>hccl_host_buf_init\<close> either leaves the buffer as it is (the data type \<open>int128\<close>, which has
  no routine) or writes exactly \<open>count\<close> elements of the type's width: each of them reads back as
  the converted value, and no byte before the start or after the last element changes.
\<close>
theorem hccl_host_buf_init_fills:
  assumes "hccl_host_buf_init m base count (dtype_value t) val = Some m'" and "base \<le> length m"
  shows "length m' = length m \<and> take base m' = take base m
    \<and> drop (base + unat count * elem_width t) m' = drop (base + unat count * elem_width t) m
    \<and> (\<forall>x j. host_content t val = Fill x \<longrightarrow> j < unat count \<longrightarrow>
         load_elem (elem_width t) base j m' = Some (x mod 256 ^ elem_width t))"
  using host.frame [OF assms(1)] assms(2) host.reads_back [OF assms(1)] by blast

lemma hccl_host_buf_init_fills_witness:
  "load_elem (elem_width HCCL_DATA_TYPE_INT16) 1 1 [7, 5, 0, 5, 0, 7] = Some 5"
proof -
  have "hccl_host_buf_init [7, 7, 7, 7, 7, 7] 1 2 (dtype_value HCCL_DATA_TYPE_INT16) 5 =
      Some [7, 5, 0, 5, 0, 7]"
    unfolding host.fills by (simp add: filled_def host_content_def elem_width_def s_enc_def mem_eval)
  from hccl_host_buf_init_fills [OF this] show ?thesis
    by (simp add: host_content_def elem_width_def s_enc_def)
qed

end
