(* ===== verification/Reduce_Init.thy ===== *)
theory Reduce_Init
  imports Buf_Init
begin

text \<open>
  \<open>common/src/hccl_check_buf_init.cc\<close>, second part: the routines that compute the result a
  reduction must give, from the value every rank contributes and the number of ranks.  The C++
  library's \<open>pow\<close> is the exact power rounded to \<open>double\<close>; a product of \<open>int\<close>s that overflows
  and a \<open>double\<close> that does not fit the integer type it is converted to are undefined.
\<close>

definition c_pow :: "int \<Rightarrow> int \<Rightarrow> u64" where
  "c_pow a n =
     (let v = FNum (a < 0 \<and> odd n) (nat \<bar>a\<bar> ^ nat \<bar>n\<bar>) 0
      in if 0 \<le> n then f64_encode v else f64_encode (v_div 52 (FNum False 1 0) v))"

subsection \<open>The routines\<close>

text \<open>The store of a value whose computation may be undefined.\<close>

definition store_opt :: "nat \<Rightarrow> nat \<Rightarrow> nat \<Rightarrow> 'a option \<Rightarrow> ('a \<Rightarrow> nat) \<Rightarrow> mem \<Rightarrow> mem option" where
  "store_opt w base j x f m = (case x of None \<Rightarrow> None | Some v \<Rightarrow> store_elem w base j (f v) m)"

definition reduce_check_buf_init_fp32 ::
    "mem \<Rightarrow> nat \<Rightarrow> u64 \<Rightarrow> int \<Rightarrow> int \<Rightarrow> int \<Rightarrow> mem option" where
  "reduce_check_buf_init_fp32 m dst_buf count val op rank_size =
     (if op = op_value HCCL_REDUCE_SUM then
        for_range (\<lambda>j. store_opt 4 dst_buf j (s32_mul val rank_size) (\<lambda>n. unat (f32_of_int n))) 0 (unat count) m
      else if op = op_value HCCL_REDUCE_PROD then
        for_range (\<lambda>j. store_opt 4 dst_buf j (Some (c_pow val rank_size)) (\<lambda>n. unat (f32_of_f64 n))) 0 (unat count) m
      else if op = op_value HCCL_REDUCE_MIN \<or> op = op_value HCCL_REDUCE_MAX then
        for_range (\<lambda>j. store_elem 4 dst_buf j (unat (f32_of_int val))) 0 (unat count) m
      else Some m)"

definition clamp_int8 :: "int \<Rightarrow> int" where
  "clamp_int8 n = (let maxAllowValue = 127 in if n > maxAllowValue then maxAllowValue else n)"

definition reduce_check_buf_init_int8 ::
    "mem \<Rightarrow> nat \<Rightarrow> u64 \<Rightarrow> int \<Rightarrow> int \<Rightarrow> int \<Rightarrow> mem option" where
  "reduce_check_buf_init_int8 m dst_buf count val op rank_size =
     (let modulus = 128 in
      if op = op_value HCCL_REDUCE_SUM then
        for_range (\<lambda>j. store_opt 1 dst_buf j (s32_mul (c_mod val modulus) rank_size) (\<lambda>n. s_enc 1 (clamp_int8 n)))
          0 (unat count) m
      else if op = op_value HCCL_REDUCE_PROD then
        for_range (\<lambda>j. store_opt 1 dst_buf j (f64_to_s 32 (c_pow (c_mod val modulus) rank_size)) (\<lambda>n. s_enc 1 (clamp_int8 n)))
          0 (unat count) m
      else if op = op_value HCCL_REDUCE_MIN \<or> op = op_value HCCL_REDUCE_MAX then
        map_option snd
          (for_range
            (\<lambda>j (val, m). let val = clamp_int8 val
                         in map_option (Pair val) (store_elem 1 dst_buf j (s_enc 1 (c_mod val modulus)) m))
            0 (unat count) (val, m))
      else Some m)"

definition reduce_check_buf_init_int32 ::
    "mem \<Rightarrow> nat \<Rightarrow> u64 \<Rightarrow> int \<Rightarrow> int \<Rightarrow> int \<Rightarrow> mem option" where
  "reduce_check_buf_init_int32 m dst_buf count val op rank_size =
     (if op = op_value HCCL_REDUCE_SUM then
        for_range (\<lambda>j. store_opt 4 dst_buf j (s32_mul val rank_size) (s_enc 4)) 0 (unat count) m
      else if op = op_value HCCL_REDUCE_PROD then
        for_range (\<lambda>j. store_opt 4 dst_buf j (f64_to_s 32 (c_pow val rank_size)) (s_enc 4)) 0 (unat count) m
      else if op = op_value HCCL_REDUCE_MIN \<or> op = op_value HCCL_REDUCE_MAX then
        for_range (\<lambda>j. store_elem 4 dst_buf j (s_enc 4 val)) 0 (unat count) m
      else Some m)"

definition reduce_check_buf_init_fp16 ::
    "mem \<Rightarrow> nat \<Rightarrow> u64 \<Rightarrow> int \<Rightarrow> int \<Rightarrow> int \<Rightarrow> mem option" where
  "reduce_check_buf_init_fp16 m dst_buf count val op rank_size =
     (if op = op_value HCCL_REDUCE_SUM then
        for_range (\<lambda>j. store_opt 2 dst_buf j (s32_mul val rank_size) (\<lambda>n. unat (fp16_ieee_from_fp32_value (f32_of_int n)))) 0 (unat count) m
      else if op = op_value HCCL_REDUCE_PROD then
        for_range (\<lambda>j. store_opt 2 dst_buf j (Some (c_pow val rank_size)) (\<lambda>n. unat (fp16_ieee_from_fp32_value (f32_of_f64 n)))) 0 (unat count) m
      else if op = op_value HCCL_REDUCE_MIN \<or> op = op_value HCCL_REDUCE_MAX then
        for_range (\<lambda>j. store_elem 2 dst_buf j (unat (fp16_ieee_from_fp32_value (f32_of_int val)))) 0 (unat count) m
      else Some m)"

definition reduce_check_buf_init_int16 ::
    "mem \<Rightarrow> nat \<Rightarrow> u64 \<Rightarrow> int \<Rightarrow> int \<Rightarrow> int \<Rightarrow> mem option" where
  "reduce_check_buf_init_int16 m dst_buf count val op rank_size =
     (if op = op_value HCCL_REDUCE_SUM then
        for_range (\<lambda>j. store_opt 2 dst_buf j (s32_mul val rank_size) (s_enc 2)) 0 (unat count) m
      else if op = op_value HCCL_REDUCE_PROD then
        for_range (\<lambda>j. store_opt 2 dst_buf j (f64_to_s 16 (c_pow val rank_size)) (s_enc 2)) 0 (unat count) m
      else if op = op_value HCCL_REDUCE_MIN \<or> op = op_value HCCL_REDUCE_MAX then
        for_range (\<lambda>j. store_elem 2 dst_buf j (s_enc 2 val)) 0 (unat count) m
      else Some m)"

definition reduce_check_buf_init_int64 ::
    "mem \<Rightarrow> nat \<Rightarrow> u64 \<Rightarrow> int \<Rightarrow> int \<Rightarrow> int \<Rightarrow> mem option" where
  "reduce_check_buf_init_int64 m dst_buf count val op rank_size =
     (if op = op_value HCCL_REDUCE_SUM then
        for_range (\<lambda>j. store_opt 8 dst_buf j (s32_mul val rank_size) (s_enc 8)) 0 (unat count) m
      else if op = op_value HCCL_REDUCE_PROD then
        for_range (\<lambda>j. store_opt 8 dst_buf j (f64_to_s 64 (c_pow val rank_size)) (s_enc 8)) 0 (unat count) m
      else if op = op_value HCCL_REDUCE_MIN \<or> op = op_value HCCL_REDUCE_MAX then
        for_range (\<lambda>j. store_elem 8 dst_buf j (s_enc 8 val)) 0 (unat count) m
      else Some m)"

definition reduce_check_buf_init_bfp16 ::
    "mem \<Rightarrow> nat \<Rightarrow> u64 \<Rightarrow> int \<Rightarrow> int \<Rightarrow> int \<Rightarrow> mem option" where
  "reduce_check_buf_init_bfp16 m dst_buf count val op rank_size =
     (if op = op_value HCCL_REDUCE_SUM then
        for_range (\<lambda>j. store_opt 2 dst_buf j (Option.bind (s32_mul val rank_size) (\<lambda>n. fp32tobf16 (f32_of_int n))) unat) 0 (unat count) m
      else if op = op_value HCCL_REDUCE_PROD then
        for_range (\<lambda>j. store_opt 2 dst_buf j (fp32tobf16 (f32_of_f64 (c_pow val rank_size))) unat) 0 (unat count) m
      else if op = op_value HCCL_REDUCE_MIN \<or> op = op_value HCCL_REDUCE_MAX then
        for_range (\<lambda>j. store_opt 2 dst_buf j (fp32tobf16 (f32_of_int val)) unat) 0 (unat count) m
      else Some m)"

text \<open>\<open>functionReduceMap\<close>.\<close>

fun functionReduceMap ::
    "HcclDataType \<Rightarrow> (mem \<Rightarrow> nat \<Rightarrow> u64 \<Rightarrow> int \<Rightarrow> int \<Rightarrow> int \<Rightarrow> mem option) option" where
  "functionReduceMap HCCL_DATA_TYPE_FP32 = Some reduce_check_buf_init_fp32"
| "functionReduceMap HCCL_DATA_TYPE_INT8 = Some reduce_check_buf_init_int8"
| "functionReduceMap HCCL_DATA_TYPE_UINT8 = Some reduce_check_buf_init_int8"
| "functionReduceMap HCCL_DATA_TYPE_INT32 = Some reduce_check_buf_init_int32"
| "functionReduceMap HCCL_DATA_TYPE_FP16 = Some reduce_check_buf_init_fp16"
| "functionReduceMap HCCL_DATA_TYPE_INT16 = Some reduce_check_buf_init_int16"
| "functionReduceMap HCCL_DATA_TYPE_INT64 = Some reduce_check_buf_init_int64"
| "functionReduceMap HCCL_DATA_TYPE_UINT64 = Some reduce_check_buf_init_int64"
| "functionReduceMap HCCL_DATA_TYPE_FP64 = Some reduce_check_buf_init_int64"
| "functionReduceMap HCCL_DATA_TYPE_BFP16 = Some reduce_check_buf_init_bfp16"
| "functionReduceMap _ = None"

definition hccl_reduce_check_buf_init ::
    "mem \<Rightarrow> nat \<Rightarrow> u64 \<Rightarrow> int \<Rightarrow> int \<Rightarrow> int \<Rightarrow> int \<Rightarrow> mem option" where
  "hccl_reduce_check_buf_init m dst_buf count dtype op val rank_size =
     (case Option.bind (dtype_of dtype) functionReduceMap of
        Some f \<Rightarrow> f m dst_buf count val op rank_size
      | None \<Rightarrow> Some m)"

subsection \<open>Their contents\<close>

definition reduce_content :: "HcclDataType \<Rightarrow> int \<Rightarrow> int \<Rightarrow> int \<Rightarrow> fill" where
  "reduce_content t val op rank_size =
     (let sum = s32_mul val rank_size; prod = c_pow val rank_size; same = (2 \<le> op \<and> op \<le> 3)
      in if functionReduceMap t = None \<or> op < 0 \<or> 3 < op then Leave
      else case t of
        HCCL_DATA_TYPE_FP32 \<Rightarrow>
          (if same then Fill (unat (f32_of_int val))
           else if op = 0 then of_option sum (\<lambda>n. unat (f32_of_int n))
           else Fill (unat (f32_of_f64 prod)))
      | HCCL_DATA_TYPE_FP16 \<Rightarrow>
          (if same then Fill (unat (fp16_ieee_from_fp32_value (f32_of_int val)))
           else if op = 0 then of_option sum (\<lambda>n. unat (fp16_ieee_from_fp32_value (f32_of_int n)))
           else Fill (unat (fp16_ieee_from_fp32_value (f32_of_f64 prod))))
      | HCCL_DATA_TYPE_BFP16 \<Rightarrow>
          of_option
            (if same then fp32tobf16 (f32_of_int val)
             else if op = 0 then Option.bind sum (\<lambda>n. fp32tobf16 (f32_of_int n))
             else fp32tobf16 (f32_of_f64 prod)) unat
      | _ \<Rightarrow>
          (if elem_width t = 1 then
             (if same then Fill (s_enc 1 (c_mod (clamp_int8 val) 128))
              else of_option
                (if op = 0 then s32_mul (c_mod val 128) rank_size
                 else f64_to_s 32 (c_pow (c_mod val 128) rank_size)) (\<lambda>n. s_enc 1 (clamp_int8 n)))
           else if same then Fill (s_enc (elem_width t) val)
           else of_option (if op = 0 then sum else f64_to_s (8 * elem_width t) prod)
                  (s_enc (elem_width t))))"

lemma clamp_int8_idem [simp]: "clamp_int8 (clamp_int8 v) = clamp_int8 v"
  by (simp add: clamp_int8_def)

text \<open>The loop of the 8-bit minimum and maximum also clamps its own parameter.\<close>

lemma int8_same_loop:
  "map_option snd
     (for_range
       (\<lambda>j (val, m). let val = clamp_int8 val in map_option (Pair val) (store_elem 1 base j (g val) m))
       i n (val, m))
   = for_range (\<lambda>j. store_elem 1 base j (g (clamp_int8 val))) i n m"
proof (induction n arbitrary: i m val)
  case (Suc n)
  then show ?case by (cases "store_elem 1 base i (g (clamp_int8 val)) m") (simp_all add: Let_def)
qed simp

lemma int8_same_loop':
  "map_option snd
     (for_range
       (\<lambda>j (val, m). map_option (Pair (clamp_int8 val))
          (store_elem (Suc 0) base j (s_enc (Suc 0) (c_mod (clamp_int8 val) 128)) m))
       i n (val, m))
   = for_range (\<lambda>j. store_elem (Suc 0) base j (s_enc (Suc 0) (c_mod (clamp_int8 val) 128))) i n m"
  using int8_same_loop [where g = "\<lambda>v. s_enc 1 (c_mod v 128)"] by (simp add: Let_def)

lemma store_opt_loop:
  "for_range (\<lambda>j. store_opt w base j x f) 0 n m = filled w (of_option x f) m base n"
  unfolding store_opt_def by (rule option_loop_filled)

lemmas reduce_loops = fill_loop_filled store_opt_loop int8_same_loop' filled_simps

lemma op_cases: "(op < 0 \<or> (3::int) < op) \<or> op = 0 \<or> op = 1 \<or> op = 2 \<or> op = 3"
  by linarith

interpretation reduce: filler
    "\<lambda>m base count (val, op, rank_size).
       hccl_reduce_check_buf_init m base count (dtype_value t) op val rank_size"
    "elem_width t" "\<lambda>(val, op, rank_size). reduce_content t val op rank_size"
  for t
proof (unfold_locales, clarify)
  fix m base and count :: u64 and val op rank_size
  have d: "hccl_reduce_check_buf_init m base count (dtype_value t) op val rank_size =
      (case functionReduceMap t of Some f \<Rightarrow> f m base count val op rank_size | None \<Rightarrow> Some m)"
    by (simp only: hccl_reduce_check_buf_init_def dtype_of_value bind.bind_lunit)
  note routines = reduce_check_buf_init_fp32_def reduce_check_buf_init_int8_def
    reduce_check_buf_init_int32_def reduce_check_buf_init_fp16_def reduce_check_buf_init_int16_def
    reduce_check_buf_init_int64_def reduce_check_buf_init_bfp16_def
  show "hccl_reduce_check_buf_init m base count (dtype_value t) op val rank_size =
      filled (elem_width t) (reduce_content t val op rank_size) m base (unat count)"
    unfolding d using op_cases [of op]
    by (elim disjE; cases t)
      (simp_all add: routines reduce_content_def elem_width_def reduce_loops Let_def)
qed

text \<open>
  C36.  \<open>hccl_reduce_check_buf_init\<close> either leaves the check buffer alone, which happens exactly for the
  data types without an entry in \<open>functionReduceMap\<close> and for operations other than the four, or
  writes exactly \<open>count\<close> elements of the type's width, all equal to the expected value, and
  changes no byte around them.
\<close>
theorem hccl_reduce_check_buf_init_fills:
  assumes "hccl_reduce_check_buf_init m base count (dtype_value t) op val rank_size = Some m'"
    and "base \<le> length m"
  shows "length m' = length m \<and> take base m' = take base m
    \<and> drop (base + unat count * elem_width t) m' = drop (base + unat count * elem_width t) m
    \<and> (\<forall>x j. reduce_content t val op rank_size = Fill x \<longrightarrow> j < unat count \<longrightarrow>
         load_elem (elem_width t) base j m' = Some (x mod 256 ^ elem_width t))
    \<and> (functionReduceMap t = None \<or> op_of op = None \<longrightarrow> m' = m)"
proof -
  let ?v = "(val, op, rank_size)"
  from assms(1) have eq: "(case ?v of (val, op, rank_size) \<Rightarrow>
      hccl_reduce_check_buf_init m base count (dtype_value t) op val rank_size) = Some m'" by simp
  have "reduce_content t val op rank_size = Leave" if "functionReduceMap t = None \<or> op_of op = None"
  proof -
    have "op_of op = None \<Longrightarrow> op < 0 \<or> 3 < op"
      using op_cases [of op] by (auto simp: op_of_def test_ops_def)
    with that show ?thesis by (auto simp: reduce_content_def Let_def)
  qed
  then have "functionReduceMap t = None \<or> op_of op = None \<longrightarrow> m' = m"
    using eq by (auto simp: reduce.fills)
  with reduce.frame [OF eq] assms(2) reduce.reads_back [OF eq] show ?thesis by simp
qed

lemma hccl_reduce_check_buf_init_fills_witness:
  "load_elem (elem_width HCCL_DATA_TYPE_INT32) 0 1 [6, 0, 0, 0, 6, 0, 0, 0] = Some 6"
proof -
  have c: "reduce_content HCCL_DATA_TYPE_INT32 2 0 3 = Fill 6"
    by (simp add: reduce_content_def Let_def s32_mul_def in_s_def s_enc_def elem_width_def)
  have "(case (2, 0, 3) of (val, op, rank_size) \<Rightarrow>
      hccl_reduce_check_buf_init [0, 0, 0, 0, 0, 0, 0, 0] 0 2 (dtype_value HCCL_DATA_TYPE_INT32) op val rank_size)
      = Some [6, 0, 0, 0, 6, 0, 0, 0]"
    unfolding reduce.fills by (simp add: c filled_def elem_width_def mem_eval)
  then have "hccl_reduce_check_buf_init [0, 0, 0, 0, 0, 0, 0, 0] 0 2 (dtype_value HCCL_DATA_TYPE_INT32) 0 2 3
      = Some [6, 0, 0, 0, 6, 0, 0, 0]" by (simp only: prod.case)
  from hccl_reduce_check_buf_init_fills [OF this] c show ?thesis by (simp add: elem_width_def)
qed

subsection \<open>The expected value is the reduction\<close>

text \<open>What the operation computes when each of the ranks contributes its value.\<close>

fun reduction :: "HcclReduceOp \<Rightarrow> int list \<Rightarrow> int" where
  "reduction HCCL_REDUCE_SUM xs = sum_list xs"
| "reduction HCCL_REDUCE_PROD xs = prod_list xs"
| "reduction HCCL_REDUCE_MAX xs = Max (set xs)"
| "reduction HCCL_REDUCE_MIN xs = Min (set xs)"

lemma f64_decode_encode_int:
  assumes "m < 2 ^ 53"
  shows "v_trunc (f64_decode (f64_encode (FNum s m 0))) = Some (signed s m)"
proof (cases "m = 0")
  case True
  then show ?thesis by (cases s) (simp_all add: fp_eval)
next
  case False
  have n: "nbits m \<le> 53" using assms by (rule nbits_le)
  define et where "et = max (0 + int (nbits m) - int (52 + 1)) (emin 11 52)"
  have et: "et = int (nbits m) - 53" "et \<le> 0" using n by (simp_all add: et_def emin_def)
  have d: "fp_decode 11 52 (fp_round 11 52 s m 0) = FNum s (m * 2 ^ nat (0 - et)) et"
    unfolding et_def using False n by (intro fp_round_exact) (simp_all add: emin_def)
  have "fp_round 11 52 s m 0 < 2 ^ 64"
    using fp_round_bound [of 11 52 s m 0] by (simp add: fp_sign_def fp_inf_def split: if_splits)
  then have "f64_decode (f64_encode (FNum s m 0)) = fp_decode 11 52 (fp_round 11 52 s m 0)"
    by (simp add: f64_decode_def f64_encode_def unat_of_nat take_bit_eq_mod)
  then show ?thesis using et(2) unfolding d by (cases "et = 0") simp_all
qed

lemma c_pow_exact:
  assumes "0 \<le> n" "\<bar>a ^ nat n\<bar> < 2 ^ 53"
  shows "v_trunc (f64_decode (c_pow a n)) = Some (a ^ nat n)"
proof -
  have "nat \<bar>a\<bar> ^ nat n < 2 ^ 53"
  proof -
    have "int (nat \<bar>a\<bar> ^ nat n) < 2 ^ 53" using assms(2) by (simp add: power_abs)
    then have "int (nat \<bar>a\<bar> ^ nat n) < int (2 ^ 53)" by simp
    then show ?thesis by (simp only: of_nat_less_iff)
  qed
  moreover have "signed (a < 0 \<and> odd n) (nat \<bar>a\<bar> ^ nat n) = a ^ nat n"
  proof -
    have o: "odd (nat n) = odd n" using assms(1) by (simp add: even_nat_iff)
    show ?thesis
    proof (cases "a < 0")
      case True
      then obtain b where b: "a = - int b" by (metis neg_int_cases)
      have "(- int b) ^ nat n = (if even (nat n) then int b ^ nat n else - (int b ^ nat n))"
        by (cases "even (nat n)") simp_all
      with True o show ?thesis by (simp add: signed_def b)
    qed (simp add: signed_def)
  qed
  ultimately show ?thesis
    using assms(1) f64_decode_encode_int by (simp add: c_pow_def Let_def)
qed

text \<open>Powers of two stay exact beyond the significand.\<close>

lemma nbits_pow2 [simp]: "nbits (2 ^ n) = Suc n"
  by (induction n) (simp_all add: nbits.simps [of "Suc 0"] nbits.simps [of "2 * _"])

lemma rne_pow2: "k \<le> n \<Longrightarrow> rne (2 ^ n) k = 2 ^ (n - k)"
proof -
  assume k: "k \<le> n"
  then have "(2::nat) ^ n mod 2 ^ k = 0" "(2::nat) ^ n div 2 ^ k = 2 ^ (n - k)"
    by (simp_all add: mod_eq_0_iff_dvd le_imp_power_dvd power_diff)
  then show ?thesis using k by (auto simp: rne_def Let_def)
qed

lemma fp_round_pow2: "emin eb mb \<le> 0 \<Longrightarrow> fp_round eb mb s (2 ^ n) 0 = fp_round eb mb s 1 (int n)"
proof -
  assume em: "emin eb mb \<le> 0"
  define et where "et = max (int n - int mb) (emin eb mb)"
  have le: "et \<le> int n" using em by (auto simp: et_def)
  have "(if et \<le> 0 then 2 ^ n * 2 ^ nat (0 - et) else rne (2 ^ n) (nat (et - 0))) = 2 ^ nat (int n - et)"
  proof (cases "et \<le> 0")
    case True
    then have "nat (int n - et) = n + nat (- et)" by simp
    with True show ?thesis by (simp add: power_add)
  next
    case False
    then have "nat (int n - et) = n - nat et" "nat et \<le> n" using le by simp_all
    with False show ?thesis by (simp add: rne_pow2)
  qed
  then show ?thesis using le
    by (simp add: fp_round_def Let_def et_def nbits.simps [of "Suc 0"] cong: if_cong)
qed

lemma c_pow_two:
  assumes "0 \<le> n" "n < 1024"
  shows "v_trunc (f64_decode (c_pow 2 n)) = Some (2 ^ nat n)"
proof -
  have em: "emin 11 52 \<le> 0" by (simp add: emin_def)
  define et where "et = max (int (nat n) + int (nbits 1) - int (52 + 1)) (emin 11 52)"
  have le: "et \<le> n" using assms(1) by (simp add: et_def emin_def nbits.simps [of "Suc 0"])
  have d: "fp_decode 11 52 (fp_round 11 52 False 1 (int (nat n))) = FNum False (1 * 2 ^ nat (int (nat n) - et)) et"
    unfolding et_def using assms by (intro fp_round_exact) (simp_all add: emin_def nbits.simps [of "Suc 0"])
  have "fp_round 11 52 False 1 (int (nat n)) < 2 ^ 64"
    using fp_round_bound [of 11 52 False 1 "int (nat n)"] by (simp add: fp_sign_def fp_inf_def)
  then have "f64_decode (c_pow 2 n) = FNum False (2 ^ nat (n - et)) et"
    using assms d fp_round_pow2 [OF em, of False "nat n"]
    by (simp add: c_pow_def Let_def f64_decode_def f64_encode_def unat_of_nat take_bit_eq_mod)
  moreover have "2 ^ nat (n - et) * 2 ^ nat et = (2::nat) ^ nat n" if "0 \<le> et"
    using that le by (simp add: power_add [symmetric] nat_add_distrib [symmetric])
  moreover have "2 ^ nat (n - et) div 2 ^ nat (- et) = (2::nat) ^ nat n" if "\<not> 0 \<le> et"
  proof -
    have "nat (n - et) = nat n + nat (- et)" using that assms(1) by simp
    then show ?thesis by (simp add: power_add)
  qed
  ultimately show ?thesis by (simp add: signed_def)
qed

lemma reduce_expected:
  assumes "t \<in> {HCCL_DATA_TYPE_INT16, HCCL_DATA_TYPE_INT32, HCCL_DATA_TYPE_INT64}"
    and "1 \<le> rank_size" and r: "r = reduction p (replicate (nat rank_size) val)"
    and "in_s (8 * elem_width t) r" and "p = HCCL_REDUCE_SUM \<Longrightarrow> in_s 32 r"
    and "p = HCCL_REDUCE_PROD \<Longrightarrow> v_trunc (f64_decode (c_pow val rank_size)) = Some r"
  shows "reduce_content t val (op_value p) rank_size = Fill (s_enc (elem_width t) r)"
proof (cases p)
  case HCCL_REDUCE_SUM
  have "r = val * rank_size"
    using assms(2) HCCL_REDUCE_SUM by (simp add: r sum_list_replicate mult.commute)
  with assms(1,5) HCCL_REDUCE_SUM show ?thesis
    by (auto simp: reduce_content_def Let_def s32_mul_def elem_width_def)
next
  case HCCL_REDUCE_PROD
  with assms(1,4,6) show ?thesis
    by (auto simp: reduce_content_def Let_def elem_width_def f64_to_s_def)
next
  case HCCL_REDUCE_MAX
  with assms(1,2) r show ?thesis by (auto simp: reduce_content_def Let_def elem_width_def)
next
  case HCCL_REDUCE_MIN
  with assms(1,2) r show ?thesis by (auto simp: reduce_content_def Let_def elem_width_def)
qed

text \<open>The check buffer after a routine that fills it with the encoding of a number.\<close>

lemma expected_buffer:
  assumes c: "reduce_content t val op rank_size = Fill (s_enc (elem_width t) r)" and v: "in_s (8 * elem_width t) r"
    and fit: "base + unat count * elem_width t \<le> length m"
  shows "\<exists>m'. hccl_reduce_check_buf_init m base count (dtype_value t) op val rank_size = Some m' \<and> length m' = length m
    \<and> (\<forall>j < unat count. \<exists>x. load_elem (elem_width t) base j m' = Some x \<and> wrap_s (8 * elem_width t) (int x) = r)"
proof -
  let ?v = "(val, op, rank_size)"
  have w: "0 < elem_width t" by (cases t) (simp_all add: elem_width_def)
  have c': "(case ?v of (val, op, rank_size) \<Rightarrow> reduce_content t val op rank_size) = Fill (s_enc (elem_width t) r)"
    using c by simp
  from reduce.in_bounds [OF c', of m base count] fit obtain m' where m':
    "(case ?v of (val, op, rank_size) \<Rightarrow> hccl_reduce_check_buf_init m base count (dtype_value t) op val rank_size) = Some m'"
    by blast
  from reduce.reads_back [OF m' c'] reduce.frame(1) [OF m'] s_enc_value [OF w v] m' show ?thesis by auto
qed

text \<open>
  C18.  For the 16-, 32- and 64-bit signed integers \<open>hccl_reduce_check_buf_init\<close> fills a check buffer
  that is large enough with elements that, read as signed integers, are the reduction of one copy
  of the value per rank, as long as that value fits 32 bits (the sum is computed in \<open>int\<close>) and the
  type, and stays below \<open>2^53\<close> in a product (which is computed in \<open>double\<close>).
\<close>
theorem reduce_expected_is_reduction:
  assumes "t \<in> {HCCL_DATA_TYPE_INT16, HCCL_DATA_TYPE_INT32, HCCL_DATA_TYPE_INT64}"
    and "1 \<le> rank_size" and r: "r = reduction p (replicate (nat rank_size) val)"
    and "in_s (8 * type_bytes t) r" and "p = HCCL_REDUCE_SUM \<Longrightarrow> in_s 32 r"
    and "p = HCCL_REDUCE_PROD \<Longrightarrow> \<bar>r\<bar> < 2 ^ 53"
    and "base + unat count * type_bytes t \<le> length m"
  shows "\<exists>m'. hccl_reduce_check_buf_init m base count (dtype_value t) (op_value p) val rank_size = Some m'
    \<and> length m' = length m
    \<and> (\<forall>j < unat count. \<exists>x. load_elem (type_bytes t) base j m' = Some x \<and> wrap_s (8 * type_bytes t) (int x) = r)"
proof -
  have w: "type_bytes t = elem_width t" using assms(1) by (auto simp: elem_width_bytes)
  have "reduce_content t val (op_value p) rank_size = Fill (s_enc (elem_width t) r)"
  proof (rule reduce_expected [OF assms(1-3) assms(4) [unfolded w] assms(5)])
    assume "p = HCCL_REDUCE_PROD"
    then show "v_trunc (f64_decode (c_pow val rank_size)) = Some r"
      using assms(2,6) r c_pow_exact [of rank_size val] by (simp add: prod_list_replicate)
  qed
  then show ?thesis unfolding w by (rule expected_buffer [OF _ assms(4,7) [unfolded w]])
qed

lemma reduce_expected_is_reduction_witness:
  "\<exists>m' x. hccl_reduce_check_buf_init [0, 0] 0 1 (dtype_value HCCL_DATA_TYPE_INT16) (op_value HCCL_REDUCE_PROD) 2 14 = Some m'
    \<and> load_elem 2 0 0 m' = Some x \<and> wrap_s 16 (int x) = 16384"
  using reduce_expected_is_reduction [of HCCL_DATA_TYPE_INT16 14 16384 HCCL_REDUCE_PROD 2 0 1 "[0, 0]"]
  by (auto simp: in_s_def prod_list_replicate)

end
