(* ===== verification/Check_Common.thy ===== *)
theory Check_Common
  imports Byte_Memory Soft_Float
begin

text \<open>
  \<open>common/src/hccl_check_common.cc\<close>: element-wise comparison of a received buffer with the
  expected one.  Each routine counts the elements that differ and remembers the first; the count
  is an \<open>int\<close>, so more than \<open>2^31 - 1\<close> differences are undefined behaviour.  The result is the
  count that is returned together with the line that is printed when it is positive: the
  position, the expected and the actual value.
\<close>

type_synonym report = "(u64 \<times> int \<times> int) option"

abbreviation ULLONG_MAX :: u64 where
  "ULLONG_MAX \<equiv> - 1"

subsection \<open>The routines\<close>

text \<open>
  The loop of every routine; \<open>differs\<close> compares the element of the check buffer with that of the
  result.  The state is \<open>err\<close> and \<open>first_err_pos\<close>.
\<close>

definition count_err :: "nat \<Rightarrow> int \<times> u64 \<Rightarrow> (int \<times> u64) option" where
  "count_err i = (\<lambda>(err, first_err_pos).
     (case s32_inc err of
        Some err' \<Rightarrow> Some (err', if first_err_pos = ULLONG_MAX then of_nat i else first_err_pos)
      | None \<Rightarrow> None))"

definition check_loop ::
    "nat \<Rightarrow> (nat \<Rightarrow> nat \<Rightarrow> bool) \<Rightarrow> mem \<Rightarrow> mem \<Rightarrow> u64 \<Rightarrow> (int \<times> u64) option" where
  "check_loop w differs result c_buf count =
     for_range
       (\<lambda>i s. case (load_elem w 0 i c_buf, load_elem w 0 i result) of
          (Some c, Some r) \<Rightarrow> if differs c r then count_err i s else Some s
        | _ \<Rightarrow> None)
       0 (unat count) (0, ULLONG_MAX)"

text \<open>The printed line reads both buffers at \<open>first_err_pos\<close>.\<close>

definition check_report ::
    "nat \<Rightarrow> (nat \<Rightarrow> int) \<Rightarrow> mem \<Rightarrow> mem \<Rightarrow> int \<times> u64 \<Rightarrow> (int \<times> report) option" where
  "check_report w shown result c_buf = (\<lambda>(err, first_err_pos).
     if err > 0 then
       (case (load_elem w 0 (unat first_err_pos) c_buf, load_elem w 0 (unat first_err_pos) result) of
          (Some c, Some r) \<Rightarrow> Some (err, Some (first_err_pos, shown c, shown r))
        | _ \<Rightarrow> None)
     else Some (err, None))"

abbreviation as_s :: "nat \<Rightarrow> nat \<Rightarrow> int" where
  "as_s w x \<equiv> wrap_s w (int x)"

definition HCCL_EPSION_FLOAT :: u64 where "HCCL_EPSION_FLOAT = 0x3EB0C6F7A0B5ED8D"
definition zero_result_bound :: u64 where "zero_result_bound = 0x3F50624DD2F1A9FC"

text \<open>
  The two constants are the \<open>double\<close> patterns of \<open>0.000001\<close> and \<open>0.001\<close>; the comparisons promote
  the \<open>float\<close> differences to \<open>double\<close>.
\<close>

definition float_differs :: "u32 \<Rightarrow> u32 \<Rightarrow> bool" where
  "float_differs c r =
     (let d = f32_abs (f32_sub c r) in
      if f64_gt (f64_of_f32 d) HCCL_EPSION_FLOAT then
        (if f32_gt (f32_abs r) 0 then
           f64_gt (f64_of_f32 (f32_abs (f32_div d r))) (f64_mul HCCL_EPSION_FLOAT (f64_of_int 100))
         else f64_gt (f64_of_f32 d) zero_result_bound)
      else False)"

definition check_buf_result_float :: "mem \<Rightarrow> mem \<Rightarrow> u64 \<Rightarrow> (int \<times> report) option" where
  "check_buf_result_float result c_buf count =
     Option.bind (check_loop 4 (\<lambda>c r. float_differs (of_nat c) (of_nat r)) result c_buf count)
       (check_report 4 int result c_buf)"

definition check_buf_result_int8 :: "mem \<Rightarrow> mem \<Rightarrow> u64 \<Rightarrow> (int \<times> report) option" where
  "check_buf_result_int8 result c_buf count =
     Option.bind (check_loop 1 (\<lambda>c r. as_s 8 c \<noteq> as_s 8 r) result c_buf count)
       (check_report 1 (as_s 8) result c_buf)"

definition check_buf_result_half :: "mem \<Rightarrow> mem \<Rightarrow> u64 \<Rightarrow> (int \<times> report) option" where
  "check_buf_result_half result s count =
     Option.bind (check_loop 2 (\<lambda>c r. c \<noteq> r) result s count) (check_report 2 int result s)"

definition check_buf_result_int32 :: "mem \<Rightarrow> mem \<Rightarrow> u64 \<Rightarrow> (int \<times> report) option" where
  "check_buf_result_int32 result c_buf count =
     Option.bind (check_loop 4 (\<lambda>c r. as_s 32 c \<noteq> as_s 32 r) result c_buf count)
       (check_report 4 (as_s 32) result c_buf)"

definition check_buf_result_int64 :: "mem \<Rightarrow> mem \<Rightarrow> u64 \<Rightarrow> (int \<times> report) option" where
  "check_buf_result_int64 result c_buf count =
     Option.bind (check_loop 8 (\<lambda>c r. as_s 64 c \<noteq> as_s 64 r) result c_buf count)
       (check_report 8 (as_s 64) result c_buf)"

definition check_buf_result_u64 :: "mem \<Rightarrow> mem \<Rightarrow> u64 \<Rightarrow> (int \<times> report) option" where
  "check_buf_result_u64 result c_buf count =
     Option.bind (check_loop 8 (\<lambda>c r. c \<noteq> r) result c_buf count) (check_report 8 int result c_buf)"

subsection \<open>Specification\<close>

text \<open>The element at a position of a buffer that is large enough.\<close>

definition elem :: "nat \<Rightarrow> mem \<Rightarrow> nat \<Rightarrow> nat" where
  "elem w m i = le_nat (take w (drop (i * w) m))"

definition errors_at :: "nat \<Rightarrow> (nat \<Rightarrow> nat \<Rightarrow> bool) \<Rightarrow> mem \<Rightarrow> mem \<Rightarrow> nat \<Rightarrow> nat list" where
  "errors_at w differs result c_buf n =
     filter (\<lambda>i. differs (elem w c_buf i) (elem w result i)) [0..<n]"

lemma errors_at_Suc:
  "errors_at w differs r c (Suc n) =
     errors_at w differs r c n @ (if differs (elem w c n) (elem w r n) then [n] else [])"
  by (simp add: errors_at_def)

lemma load_elem_fits: "n * w \<le> length m \<Longrightarrow> i < n \<Longrightarrow> load_elem w 0 i m = Some (elem w m i)"
proof -
  assume n: "n * w \<le> length m" "i < n"
  then have "Suc i * w \<le> n * w" by (intro mult_le_mono1) simp
  with n show ?thesis by (simp add: load_elem_def elem_def)
qed

definition err_state :: "nat list \<Rightarrow> int \<times> u64" where
  "err_state es = (int (length es), if es = [] then ULLONG_MAX else of_nat (hd es))"

lemma count_err_state:
  assumes "length es < 2147483647" and "i < 2 ^ 64 - 1" and "\<forall>e \<in> set es. e < i"
  shows "count_err i (err_state es) = Some (err_state (es @ [i]))"
proof -
  have ne: "(of_nat (hd es) :: u64) \<noteq> ULLONG_MAX" if "es \<noteq> []"
  proof
    have "hd es < i" using that assms(3) by simp
    with assms(2) have h: "hd es < 2 ^ 64 - 1" by linarith
    assume "(of_nat (hd es) :: u64) = ULLONG_MAX"
    then have "unat (of_nat (hd es) :: u64) = unat (ULLONG_MAX :: u64)" by simp
    moreover have "unat (ULLONG_MAX :: u64) = 2 ^ 64 - 1" by (simp add: unsigned_minus_1_eq_mask mask_eq_exp_minus_1)
    ultimately show False using h by (simp add: unat_of_nat take_bit_eq_mod)
  qed
  show ?thesis
    using assms(1) ne by (cases "es = []") (simp_all add: count_err_def err_state_def s32_inc_def)
qed

lemma check_loop_spec:
  assumes "unat count * w \<le> length result" "unat count * w \<le> length c_buf"
    and "length (errors_at w differs result c_buf (unat count)) < 2147483648"
  shows "check_loop w differs result c_buf count =
     Some (err_state (errors_at w differs result c_buf (unat count)))"
proof -
  let ?E = "errors_at w differs result c_buf"
  let ?body = "\<lambda>i s. case (load_elem w 0 i c_buf, load_elem w 0 i result) of
          (Some c, Some r) \<Rightarrow> if differs c r then count_err i s else Some s
        | _ \<Rightarrow> None"
  have mono: "length (?E k) \<le> length (?E n)" if "k \<le> n" for k n
    using that by (induction n) (auto simp: errors_at_Suc le_Suc_eq)
  have "\<exists>t. for_range ?body 0 (unat count) (0, ULLONG_MAX) = Some t \<and>
      t = err_state (?E (0 + unat count))"
  proof (rule for_range_total [where P = "\<lambda>k s. s = err_state (?E k)"])
    show "(0, ULLONG_MAX) = err_state (?E 0)" by (simp add: err_state_def errors_at_def)
  next
    fix k s assume s: "s = err_state (?E k)" and k: "0 \<le> k" "k < 0 + unat count"
    have "Suc k \<le> unat count" using k by simp
    from mono [OF this] assms(3) have len: "length (?E (Suc k)) < 2147483648" by linarith
    have "k < 2 ^ 64 - 1" using k unat_lt_64 [of count] by simp
    moreover have "\<forall>e \<in> set (?E k). e < k" by (auto simp: errors_at_def)
    ultimately have "?body k s = Some (err_state (?E (Suc k)))"
      using len k assms(1,2) s count_err_state [of "?E k" k]
      by (cases "differs (elem w c_buf k) (elem w result k)")
        (simp_all add: load_elem_fits [where n = "unat count"] errors_at_Suc)
    then show "\<exists>s'. ?body k s = Some s' \<and> s' = err_state (?E (Suc k))" by blast
  qed
  then show ?thesis by (auto simp: check_loop_def)
qed

text \<open>What a comparison routine promises.\<close>

definition report_of :: "nat \<Rightarrow> (nat \<Rightarrow> int) \<Rightarrow> mem \<Rightarrow> mem \<Rightarrow> nat list \<Rightarrow> int \<times> report" where
  "report_of w shown result c_buf es =
     (int (length es),
      if es = [] then None
      else Some (of_nat (hd es), shown (elem w c_buf (hd es)), shown (elem w result (hd es))))"

locale comparison =
  fixes check :: "mem \<Rightarrow> mem \<Rightarrow> u64 \<Rightarrow> (int \<times> report) option"
    and width :: nat and differs :: "nat \<Rightarrow> nat \<Rightarrow> bool" and shown :: "nat \<Rightarrow> int"
  assumes checks:
    "unat count * width \<le> length result \<Longrightarrow> unat count * width \<le> length c_buf \<Longrightarrow>
     length (errors_at width differs result c_buf (unat count)) < 2147483648 \<Longrightarrow>
     check result c_buf count =
       Some (report_of width shown result c_buf (errors_at width differs result c_buf (unat count)))"
begin

lemma zero_iff:
  assumes "unat count * width \<le> length result" "unat count * width \<le> length c_buf"
    and "length (errors_at width differs result c_buf (unat count)) < 2147483648"
  shows "(\<exists>rep. check result c_buf count = Some (0, rep)) \<longleftrightarrow>
     (\<forall>i < unat count. \<not> differs (elem width c_buf i) (elem width result i))"
  using checks [OF assms] by (auto simp: report_of_def errors_at_def filter_empty_conv)

lemma agree:
  assumes "unat count * width \<le> length result" "unat count * width \<le> length c_buf"
    and "\<And>i. i < unat count \<Longrightarrow> \<not> differs (elem width c_buf i) (elem width result i)"
  shows "check result c_buf count = Some (0, None)"
proof -
  have "errors_at width differs result c_buf (unat count) = []"
    using assms(3) by (simp add: errors_at_def filter_empty_conv)
  with checks [OF assms(1,2)] show ?thesis by (simp add: report_of_def)
qed

end

lemma check_spec:
  assumes "unat count * w \<le> length result" "unat count * w \<le> length c_buf"
    and "length (errors_at w differs result c_buf (unat count)) < 2147483648"
  shows "Option.bind (check_loop w differs result c_buf count) (check_report w shown result c_buf) =
     Some (report_of w shown result c_buf (errors_at w differs result c_buf (unat count)))"
proof (cases "errors_at w differs result c_buf (unat count) = []")
  case True
  then show ?thesis
    using check_loop_spec [OF assms] by (simp add: check_report_def err_state_def report_of_def)
next
  case False
  let ?es = "errors_at w differs result c_buf (unat count)"
  have h: "hd ?es < unat count" using False hd_in_set [OF False] by (auto simp: errors_at_def)
  then have "unat (of_nat (hd ?es) :: u64) = hd ?es"
    using unat_lt_64 [of count] by (simp add: unat_of_nat take_bit_eq_mod)
  then show ?thesis
    using check_loop_spec [OF assms] False h assms(1,2)
    by (simp add: check_report_def err_state_def report_of_def load_elem_fits [where n = "unat count"])
qed

interpretation cmp_float: comparison check_buf_result_float 4
    "\<lambda>c r. float_differs (of_nat c) (of_nat r)" int
  by unfold_locales (simp add: check_buf_result_float_def check_spec)

interpretation cmp_int8: comparison check_buf_result_int8 1 "\<lambda>c r. as_s 8 c \<noteq> as_s 8 r" "as_s 8"
  by unfold_locales (simp add: check_buf_result_int8_def check_spec)

interpretation cmp_half: comparison check_buf_result_half 2 "\<lambda>c r. c \<noteq> r" int
  by unfold_locales (simp add: check_buf_result_half_def check_spec)

interpretation cmp_int32: comparison check_buf_result_int32 4 "\<lambda>c r. as_s 32 c \<noteq> as_s 32 r" "as_s 32"
  by unfold_locales (simp add: check_buf_result_int32_def check_spec)

interpretation cmp_int64: comparison check_buf_result_int64 8 "\<lambda>c r. as_s 64 c \<noteq> as_s 64 r" "as_s 64"
  by unfold_locales (simp add: check_buf_result_int64_def check_spec)

interpretation cmp_u64: comparison check_buf_result_u64 8 "\<lambda>c r. c \<noteq> r" int
  by unfold_locales (simp add: check_buf_result_u64_def check_spec)

subsection \<open>Integer comparisons decide equality\<close>

lemma elem_bound: "elem w m i < 256 ^ w"
proof -
  have "elem w m i < 256 ^ length (take w (drop (i * w) m))" unfolding elem_def by (rule le_nat_bound)
  also have "(256::nat) ^ length (take w (drop (i * w) m)) \<le> 256 ^ w"
    by (intro power_increasing) simp_all
  finally show ?thesis .
qed

lemma as_s_inj:
  assumes "a < 2 ^ w" "b < 2 ^ w" "0 < w"
  shows "as_s w a = as_s w b \<longleftrightarrow> a = b"
proof
  assume "as_s w a = as_s w b"
  then have "(int a + 2 ^ (w - 1)) mod 2 ^ w = (int b + 2 ^ (w - 1)) mod 2 ^ w"
    by (simp add: wrap_s_def)
  then have "(int a + 2 ^ (w - 1) - 2 ^ (w - 1)) mod 2 ^ w = (int b + 2 ^ (w - 1) - 2 ^ (w - 1)) mod 2 ^ w"
    by (rule mod_diff_cong) simp
  then have "int (a mod 2 ^ w) = int (b mod 2 ^ w)" by (simp add: zmod_int)
  with assms show "a = b" by simp
qed simp

lemma as_s_elem_inj:
  "0 < w \<Longrightarrow> as_s (8 * w) (elem w m i) = as_s (8 * w) (elem w m' i) \<longleftrightarrow> elem w m i = elem w m' i"
  using elem_bound [of w m i] elem_bound [of w m' i] by (intro as_s_inj) (simp_all add: power_mult)

lemma elem_eq_iff:
  assumes "n * w \<le> length m" "n * w \<le> length m'"
  shows "(\<forall>i < n. elem w m i = elem w m' i) \<longleftrightarrow> take (n * w) m = take (n * w) m'"
  using assms
proof (induction n)
  case (Suc n)
  have nw: "n * w \<le> length m" "n * w \<le> length m'" using Suc.prems by simp_all
  have split: "take (Suc n * w) x = take (n * w) x @ take w (drop (n * w) x)" for x :: mem
  proof -
    have "Suc n * w = n * w + w" by simp
    then show ?thesis by (simp only: take_add)
  qed
  have "elem w m n = elem w m' n \<longleftrightarrow> take w (drop (n * w) m) = take w (drop (n * w) m')"
    unfolding elem_def using Suc.prems by (intro le_nat_inj) simp
  moreover have "take (Suc n * w) m = take (Suc n * w) m' \<longleftrightarrow>
      take (n * w) m = take (n * w) m' \<and> take w (drop (n * w) m) = take w (drop (n * w) m')"
    unfolding split using nw by (intro append_eq_append_conv) simp
  ultimately show ?case using Suc.IH nw by (auto simp: less_Suc_eq)
qed simp

lemma as_s_conv:
  "as_s 8 (elem 1 m i) = as_s 8 (elem 1 m' i) \<longleftrightarrow> elem 1 m i = elem 1 m' i"
  "as_s 32 (elem 4 m i) = as_s 32 (elem 4 m' i) \<longleftrightarrow> elem 4 m i = elem 4 m' i"
  "as_s 64 (elem 8 m i) = as_s 64 (elem 8 m' i) \<longleftrightarrow> elem 8 m i = elem 8 m' i"
  using as_s_elem_inj [of 1] as_s_elem_inj [of 4] as_s_elem_inj [of 8] by simp_all

text \<open>The integer routine for each element width, as the tests choose it.\<close>

definition integer_check :: "nat \<Rightarrow> mem \<Rightarrow> mem \<Rightarrow> u64 \<Rightarrow> (int \<times> report) option" where
  "integer_check w =
     (if w = 1 then check_buf_result_int8 else if w = 2 then check_buf_result_half
      else if w = 4 then check_buf_result_int32 else check_buf_result_int64)"

lemma integer_check_spec:
  assumes "w \<in> {1, 2, 4, 8}"
    and fit: "unat count * w \<le> length result" "unat count * w \<le> length c_buf"
    and few: "length (filter (\<lambda>i. elem w c_buf i \<noteq> elem w result i) [0..<unat count]) < 2147483648"
  shows "\<exists>err rep. integer_check w result c_buf count = Some (err, rep)
     \<and> (err = 0 \<longleftrightarrow> take (unat count * w) result = take (unat count * w) c_buf)
     \<and> err = int (length (filter (\<lambda>i. elem w c_buf i \<noteq> elem w result i) [0..<unat count]))
     \<and> (err \<noteq> 0 \<longrightarrow> map_option fst rep =
          Some (of_nat (hd (filter (\<lambda>i. elem w c_buf i \<noteq> elem w result i) [0..<unat count]))))"
proof -
  let ?es = "filter (\<lambda>i. elem w c_buf i \<noteq> elem w result i) [0..<unat count]"
  have "\<exists>sh. integer_check w result c_buf count = Some (report_of w sh result c_buf ?es)"
    using assms(1)
  proof (elim insertE emptyE)
    assume w: "w = 1"
    then show ?thesis
      using cmp_int8.checks [of count result c_buf] fit few
      by (auto simp: integer_check_def errors_at_def as_s_conv simp del: One_nat_def)
  next
    assume w: "w = 2"
    then show ?thesis
      using cmp_half.checks [of count result c_buf] fit few
      by (auto simp: integer_check_def errors_at_def)
  next
    assume w: "w = 4"
    then show ?thesis
      using cmp_int32.checks [of count result c_buf] fit few
      by (auto simp: integer_check_def errors_at_def as_s_conv)
  next
    assume w: "w = 8"
    then show ?thesis
      using cmp_int64.checks [of count result c_buf] fit few
      by (auto simp: integer_check_def errors_at_def as_s_conv)
  qed
  then obtain sh where r: "integer_check w result c_buf count = Some (report_of w sh result c_buf ?es)" ..
  have "?es = [] \<longleftrightarrow> take (unat count * w) result = take (unat count * w) c_buf"
    using elem_eq_iff [OF fit] by (auto simp: filter_empty_conv)
  then show ?thesis unfolding r by (auto simp: report_of_def)
qed

text \<open>
  C20.  The integer comparisons decide byte equality: over two buffers that hold \<open>count\<close> elements,
  and with fewer than \<open>2^31\<close> of them different, the returned count is zero exactly when the two
  buffers agree on the bytes of those elements, and otherwise it is the number of elements that
  differ and the printed line names the first of them.
\<close>
theorem integer_check_decides_equality:
  assumes "w \<in> {1, 2, 4, 8}"
    and fit: "unat count * w \<le> length result" "unat count * w \<le> length c_buf"
    and few: "length (filter (\<lambda>i. elem w c_buf i \<noteq> elem w result i) [0..<unat count]) < 2147483648"
  shows "\<exists>err rep. integer_check w result c_buf count = Some (err, rep)
     \<and> (err = 0 \<longleftrightarrow> take (unat count * w) result = take (unat count * w) c_buf)
     \<and> err = int (length (filter (\<lambda>i. elem w c_buf i \<noteq> elem w result i) [0..<unat count]))
     \<and> (err \<noteq> 0 \<longrightarrow> map_option fst rep =
          Some (of_nat (hd (filter (\<lambda>i. elem w c_buf i \<noteq> elem w result i) [0..<unat count]))))"
  using assms by (rule integer_check_spec)

lemma integer_check_decides_equality_witness:
  "\<exists>err rep. integer_check 2 [1, 0, 3, 0] [1, 0, 2, 0] 2 = Some (err, rep) \<and> err \<noteq> 0"
  using integer_check_decides_equality [of 2 2 "[1, 0, 3, 0]" "[1, 0, 2, 0]"]
  by (auto simp: elem_def upt_rec)

subsection \<open>The tolerance of the float comparison\<close>

lemma v_gt_NaN [simp]: "\<not> v_gt FNaN v" "\<not> v_gt v FNaN"
  by (cases v; simp)+

lemma f32_decode_NaN: "f32_decode (f32_encode FNaN) = FNaN"
  by (simp add: fp_eval)

lemma f64_decode_NaN: "f64_decode (f64_encode FNaN) = FNaN"
  by (simp add: fp_eval)

lemma v_add_NaN [simp]: "v_add v FNaN = FNaN"
  by (cases v) simp_all

lemma NaN_never_differs: "f32_decode r = FNaN \<Longrightarrow> \<not> float_differs c r"
  by (simp add: float_differs_def f32_sub_def f32_abs_def f64_gt_def f64_of_f32_def
      f32_decode_NaN f64_decode_NaN Let_def)

text \<open>
  C38.  \<open>check_buf_result_float\<close> never counts a NaN: a result buffer full of NaNs passes against
  any expected buffer, because every comparison with a NaN is false.
\<close>
theorem check_buf_result_float_accepts_NaN:
  assumes "unat count * 4 \<le> length result" "unat count * 4 \<le> length c_buf"
    and "\<forall>i < unat count. f32_decode (of_nat (elem 4 result i)) = FNaN"
  shows "check_buf_result_float result c_buf count = Some (0, None)"
  using assms by (intro cmp_float.agree) (simp_all add: NaN_never_differs)

lemma check_buf_result_float_accepts_NaN_witness:
  "check_buf_result_float [0, 0, 0xC0, 0x7F] [0, 0, 0x80, 0x3F] 1 = Some (0, None)"
  by (rule check_buf_result_float_accepts_NaN) (simp_all add: elem_def fp_eval)

end
