(* ===== verification/Alltoall_Check.thy ===== *)
theory Alltoall_Check
  imports Buf_Init
begin

text \<open>
  \<open>common/src/hccl_check_buf_init.cc\<close>, third part: the checks of the all-to-all tests.  One
  routine per element type walks the blocks received from the ranks and counts the blocks that
  hold a wrong element; \<open>hccl_alltoall_check_result\<close> compares a whole buffer with a periodic
  pattern.  What the element routines share is the locale \<open>block_check\<close>.
\<close>

subsection \<open>The element routines\<close>

text \<open>\<open>for (j ...; j < n; ++j) if (bad(j)) { ...; break; }\<close>: was there a bad element?\<close>

primrec scan_block :: "(nat \<Rightarrow> bool option) \<Rightarrow> nat \<Rightarrow> nat \<Rightarrow> bool option" where
  "scan_block bad j 0 = Some False"
| "scan_block bad j (Suc n) =
     (case bad j of
        None \<Rightarrow> None
      | Some b \<Rightarrow> if b then Some True else scan_block bad (Suc j) n)"

text \<open>
  The two loops of a routine: \<open>recv_counts\<close> and \<open>recv_disp\<close> are arrays of \<open>rank_size\<close> elements,
  \<open>wrong i x\<close> compares the raw element \<open>x\<close> with the value expected from rank \<open>i\<close> (\<open>None\<close> when
  that value is undefined).
\<close>

definition check_blocks ::
    "nat \<Rightarrow> (int \<Rightarrow> (nat \<Rightarrow> bool) option) \<Rightarrow> mem \<Rightarrow> u64 list \<Rightarrow> u64 list \<Rightarrow> int \<Rightarrow> int option" where
  "check_blocks w wrong check_buf recv_counts recv_disp rank_size =
     for_range
       (\<lambda>i ret.
          if i < length recv_counts \<and> i < length recv_disp then
            (case wrong (int i) of
               None \<Rightarrow> None
             | Some f \<Rightarrow>
                 (case scan_block
                         (\<lambda>j. map_option f (load_elem w (unat (recv_disp ! i) * w) j check_buf))
                         0 (unat (recv_counts ! i)) of
                    None \<Rightarrow> None
                  | Some b \<Rightarrow> if b then s32_inc ret else Some ret))
          else None)
       0 (nat rank_size) 0"

definition alltoall_check_result_uint64 :: "mem \<Rightarrow> u64 list \<Rightarrow> u64 list \<Rightarrow> int \<Rightarrow> int option" where
  "alltoall_check_result_uint64 =
     check_blocks 8 (\<lambda>i. let check_val = s_enc 8 (i + 1) in Some (\<lambda>x. x \<noteq> check_val))"

definition alltoall_check_result_fp32 :: "mem \<Rightarrow> u64 list \<Rightarrow> u64 list \<Rightarrow> int \<Rightarrow> int option" where
  "alltoall_check_result_fp32 =
     check_blocks 4 (\<lambda>i. let check_val = f32_of_int (i + 1) in Some (\<lambda>x. \<not> f32_eq (of_nat x) check_val))"

definition alltoall_check_result_int8 :: "mem \<Rightarrow> u64 list \<Rightarrow> u64 list \<Rightarrow> int \<Rightarrow> int option" where
  "alltoall_check_result_int8 =
     check_blocks 1 (\<lambda>i. let check_val = s_enc 1 (i + 1) in Some (\<lambda>x. x \<noteq> check_val))"

definition alltoall_check_result_int32 :: "mem \<Rightarrow> u64 list \<Rightarrow> u64 list \<Rightarrow> int \<Rightarrow> int option" where
  "alltoall_check_result_int32 =
     check_blocks 4 (\<lambda>i. let check_val = i + 1 in Some (\<lambda>x. wrap_s 32 (int x) \<noteq> check_val))"

definition alltoall_check_result_int64 :: "mem \<Rightarrow> u64 list \<Rightarrow> u64 list \<Rightarrow> int \<Rightarrow> int option" where
  "alltoall_check_result_int64 =
     check_blocks 8 (\<lambda>i. let check_val = i + 1 in Some (\<lambda>x. wrap_s 64 (int x) \<noteq> check_val))"

definition alltoall_check_result_int16 :: "mem \<Rightarrow> u64 list \<Rightarrow> u64 list \<Rightarrow> int \<Rightarrow> int option" where
  "alltoall_check_result_int16 =
     check_blocks 2 (\<lambda>i. let check_val = wrap_s 16 (i + 1) in Some (\<lambda>x. wrap_s 16 (int x) \<noteq> check_val))"

definition alltoall_check_result_fp16 :: "mem \<Rightarrow> u64 list \<Rightarrow> u64 list \<Rightarrow> int \<Rightarrow> int option" where
  "alltoall_check_result_fp16 =
     check_blocks 2 (\<lambda>i. let val = f32_of_int (i + 1); check_val = fp16_ieee_from_fp32_value val
               in Some (\<lambda>x. x \<noteq> unat check_val))"

definition alltoall_check_result_uint8 :: "mem \<Rightarrow> u64 list \<Rightarrow> u64 list \<Rightarrow> int \<Rightarrow> int option" where
  "alltoall_check_result_uint8 =
     check_blocks 1 (\<lambda>i. let check_val = s_enc 1 (i + 1) in Some (\<lambda>x. x \<noteq> check_val))"

definition alltoall_check_result_uint16 :: "mem \<Rightarrow> u64 list \<Rightarrow> u64 list \<Rightarrow> int \<Rightarrow> int option" where
  "alltoall_check_result_uint16 =
     check_blocks 2 (\<lambda>i. let check_val = s_enc 2 (i + 1) in Some (\<lambda>x. x \<noteq> check_val))"

definition alltoall_check_result_uint32 :: "mem \<Rightarrow> u64 list \<Rightarrow> u64 list \<Rightarrow> int \<Rightarrow> int option" where
  "alltoall_check_result_uint32 =
     check_blocks 4 (\<lambda>i. let check_val = s_enc 4 (i + 1) in Some (\<lambda>x. x \<noteq> check_val))"

text \<open>The \<open>double\<close> pattern of \<open>0.001\<close>.\<close>

definition relativeError :: u64 where "relativeError = 0x3F50624DD2F1A9FC"

definition bf16_wrong :: "u16 \<Rightarrow> nat \<Rightarrow> bool" where
  "bf16_wrong check_val x =
     f64_gt (f64_div (f64_of_int \<bar>int x - int (unat check_val)\<bar>) (f64_of_int \<bar>int x\<bar>)) relativeError"

definition alltoall_check_result_bfp16 :: "mem \<Rightarrow> u64 list \<Rightarrow> u64 list \<Rightarrow> int \<Rightarrow> int option" where
  "alltoall_check_result_bfp16 =
     check_blocks 2 (\<lambda>i. map_option bf16_wrong (fp32tobf16 (f32_of_int (i + 1))))"

text \<open>\<open>functionAllToAllMap\<close>.\<close>

fun functionAllToAllMap ::
    "HcclDataType \<Rightarrow> (mem \<Rightarrow> u64 list \<Rightarrow> u64 list \<Rightarrow> int \<Rightarrow> int option) option" where
  "functionAllToAllMap HCCL_DATA_TYPE_UINT64 = Some alltoall_check_result_uint64"
| "functionAllToAllMap HCCL_DATA_TYPE_FP32 = Some alltoall_check_result_fp32"
| "functionAllToAllMap HCCL_DATA_TYPE_INT8 = Some alltoall_check_result_int8"
| "functionAllToAllMap HCCL_DATA_TYPE_INT32 = Some alltoall_check_result_int32"
| "functionAllToAllMap HCCL_DATA_TYPE_INT64 = Some alltoall_check_result_int64"
| "functionAllToAllMap HCCL_DATA_TYPE_INT16 = Some alltoall_check_result_int16"
| "functionAllToAllMap HCCL_DATA_TYPE_FP16 = Some alltoall_check_result_fp16"
| "functionAllToAllMap HCCL_DATA_TYPE_UINT8 = Some alltoall_check_result_uint8"
| "functionAllToAllMap HCCL_DATA_TYPE_UINT16 = Some alltoall_check_result_uint16"
| "functionAllToAllMap HCCL_DATA_TYPE_UINT32 = Some alltoall_check_result_uint32"
| "functionAllToAllMap HCCL_DATA_TYPE_FP64 = Some alltoall_check_result_int64"
| "functionAllToAllMap HCCL_DATA_TYPE_BFP16 = Some alltoall_check_result_bfp16"
| "functionAllToAllMap HCCL_DATA_TYPE_HIF8 = Some alltoall_check_result_uint8"
| "functionAllToAllMap HCCL_DATA_TYPE_FP8E4M3 = Some alltoall_check_result_uint8"
| "functionAllToAllMap HCCL_DATA_TYPE_FP8E5M2 = Some alltoall_check_result_uint8"
| "functionAllToAllMap HCCL_DATA_TYPE_FP8E8M0 = Some alltoall_check_result_uint8"
| "functionAllToAllMap HCCL_DATA_TYPE_INT128 = None"

definition hccl_alltoallv_check_result ::
    "mem \<Rightarrow> u64 list \<Rightarrow> u64 list \<Rightarrow> int \<Rightarrow> int \<Rightarrow> int option" where
  "hccl_alltoallv_check_result check_buf recv_counts recv_disp rank_size dtype =
     (let ret = 0 in
      if rank_size < 1 then Some ret
      else (case Option.bind (dtype_of dtype) functionAllToAllMap of
              Some f \<Rightarrow> f check_buf recv_counts recv_disp rank_size
            | None \<Rightarrow> Some ret))"

subsection \<open>The pattern check\<close>

text \<open>
  Offsets are \<open>size_t\<close> and wrap.  A null buffer, an access outside the buffer, an empty pattern
  and \<open>nRanks = 0\<close> with data to check are the branches \<open>None\<close> of the parameter or the result.
\<close>

definition hccl_alltoall_check_result ::
    "mem option \<Rightarrow> u64 \<Rightarrow> int \<Rightarrow> int \<Rightarrow> u8 list \<Rightarrow> bool option" where
  "hccl_alltoall_check_result recv_buff count nRanks rank pattern =
     (case recv_buff of
        None \<Rightarrow> Some False
      | Some dst_buf \<Rightarrow>
          if count = 0 then Some True
          else if (word_of_int nRanks :: u64) = 0 then None
          else
            (let recv_count_by_every_rank = count div word_of_int nRanks;
                 start_offset = recv_count_by_every_rank * word_of_int rank
             in for_range
                  (\<lambda>i isMatch.
                     case scan_block
                       (\<lambda>j. let pattern_offset = start_offset + of_nat j;
                                at = of_nat i * recv_count_by_every_rank + of_nat j
                            in if pattern = [] then None
                               else map_option
                                      (\<lambda>x. x \<noteq> unat (pattern ! (unat pattern_offset mod length pattern)))
                                      (load_elem 1 0 (unat at) dst_buf))
                       0 (unat recv_count_by_every_rank)
                     of None \<Rightarrow> None | Some b \<Rightarrow> Some (if b then False else isMatch))
                  0 (nat nRanks) True))"

subsection \<open>Specification of the element routines\<close>

lemma scan_block_spec:
  assumes "\<And>k. j \<le> k \<Longrightarrow> k < j + n \<Longrightarrow> bad k = Some (g k)"
  shows "scan_block bad j n = Some (\<exists>k. j \<le> k \<and> k < j + n \<and> g k)"
  using assms
proof (induction n arbitrary: j)
  case (Suc n)
  have "bad j = Some (g j)" using Suc.prems by simp
  moreover have "scan_block bad (Suc j) n = Some (\<exists>k. Suc j \<le> k \<and> k < Suc j + n \<and> g k)"
    using Suc.prems by (intro Suc.IH) simp
  moreover have "(\<exists>k. j \<le> k \<and> k < j + Suc n \<and> g k) \<longleftrightarrow>
      g j \<or> (\<exists>k. Suc j \<le> k \<and> k < Suc j + n \<and> g k)"
    by (metis (no_types, opaque_lifting) Suc_le_eq add_Suc add_Suc_right le_eq_less_or_eq
        less_add_Suc1)
  ultimately show ?case by simp
qed simp

text \<open>The blocks a routine may read.\<close>

definition blocks_fit :: "nat \<Rightarrow> mem \<Rightarrow> u64 list \<Rightarrow> u64 list \<Rightarrow> int \<Rightarrow> bool" where
  "blocks_fit w m cs ds rank_size \<longleftrightarrow>
     nat rank_size \<le> length cs \<and> nat rank_size \<le> length ds \<and> rank_size < 2147483648 \<and>
     (\<forall>i < nat rank_size. (unat (ds ! i) + unat (cs ! i)) * w \<le> length m)"

definition block_elem :: "nat \<Rightarrow> mem \<Rightarrow> u64 list \<Rightarrow> nat \<Rightarrow> nat \<Rightarrow> nat" where
  "block_elem w m ds i j = le_nat (take w (drop ((unat (ds ! i) + j) * w) m))"

lemma load_block_elem:
  assumes "blocks_fit w m cs ds rank_size" "i < nat rank_size" "j < unat (cs ! i)"
  shows "load_elem w (unat (ds ! i) * w) j m = Some (block_elem w m ds i j)"
proof -
  have "(unat (ds ! i) + Suc j) * w \<le> (unat (ds ! i) + unat (cs ! i)) * w"
    using assms(3) by (intro mult_le_mono1) simp
  also have "\<dots> \<le> length m" using assms(1,2) by (simp add: blocks_fit_def)
  finally show ?thesis by (simp add: load_elem_def block_elem_def algebra_simps)
qed

definition bad_blocks ::
    "nat \<Rightarrow> (nat \<Rightarrow> nat \<Rightarrow> bool) \<Rightarrow> mem \<Rightarrow> u64 list \<Rightarrow> u64 list \<Rightarrow> nat \<Rightarrow> nat list" where
  "bad_blocks w wrong m cs ds n =
     filter (\<lambda>i. \<exists>j < unat (cs ! i). wrong i (block_elem w m ds i j)) [0..<n]"

lemma check_blocks_spec:
  assumes fit: "blocks_fit w m cs ds rank_size"
    and wrong: "\<And>i. i < nat rank_size \<Longrightarrow> wrong (int i) = Some (g i)"
  shows "check_blocks w wrong m cs ds rank_size = Some (int (length (bad_blocks w g m cs ds (nat rank_size))))"
proof -
  let ?B = "bad_blocks w g m cs ds"
  have "\<exists>t. check_blocks w wrong m cs ds rank_size = Some t \<and> t = int (length (?B (0 + nat rank_size)))"
    unfolding check_blocks_def
  proof (rule for_range_total [where P = "\<lambda>k t. t = int (length (?B k))"])
    show "0 = int (length (?B 0))" by (simp add: bad_blocks_def)
  next
    fix k and t :: int assume t: "t = int (length (?B k))" and k: "0 \<le> k" "k < 0 + nat rank_size"
    then have k: "k < nat rank_size" by simp
    have len: "k < length cs" "k < length ds" using fit k by (simp_all add: blocks_fit_def)
    have scan: "scan_block (\<lambda>j. map_option (g k) (load_elem w (unat (ds ! k) * w) j m)) 0 (unat (cs ! k)) =
        Some (\<exists>j. 0 \<le> j \<and> j < 0 + unat (cs ! k) \<and> g k (block_elem w m ds k j))"
      using load_block_elem [OF fit k] by (intro scan_block_spec) simp
    have "length (?B k) \<le> length [0..<k]" unfolding bad_blocks_def by (rule length_filter_le)
    moreover have "rank_size < 2147483648" using fit by (simp add: blocks_fit_def)
    then have "nat rank_size \<le> 2147483647" by linarith
    ultimately have "s32_inc t = Some (t + 1)" using t k by (simp add: s32_inc_def)
    moreover have "?B (Suc k) = ?B k @
        (if \<exists>j < unat (cs ! k). g k (block_elem w m ds k j) then [k] else [])"
      by (simp add: bad_blocks_def)
    ultimately show "\<exists>s'. (if k < length cs \<and> k < length ds then
        (case wrong (int k) of None \<Rightarrow> None
         | Some f \<Rightarrow> (case scan_block (\<lambda>j. map_option f (load_elem w (unat (ds ! k) * w) j m)) 0 (unat (cs ! k)) of
              None \<Rightarrow> None | Some b \<Rightarrow> if b then s32_inc t else Some t)) else None) = Some s' \<and>
        s' = int (length (?B (Suc k)))"
      using len t by (simp add: wrong [OF k] scan)
  qed
  then show ?thesis by simp
qed

locale block_check =
  fixes check :: "mem \<Rightarrow> u64 list \<Rightarrow> u64 list \<Rightarrow> int \<Rightarrow> int option"
    and width :: nat and wrong :: "nat \<Rightarrow> nat \<Rightarrow> bool" and defined :: "nat \<Rightarrow> bool"
  assumes counts_bad_blocks:
    "blocks_fit width m cs ds rank_size \<Longrightarrow> (\<And>i. i < nat rank_size \<Longrightarrow> defined i) \<Longrightarrow>
     check m cs ds rank_size = Some (int (length (bad_blocks width wrong m cs ds (nat rank_size))))"
begin

lemma passes_iff:
  assumes "blocks_fit width m cs ds rank_size" "\<And>i. i < nat rank_size \<Longrightarrow> defined i"
  shows "check m cs ds rank_size = Some 0 \<longleftrightarrow>
     (\<forall>i < nat rank_size. \<forall>j < unat (cs ! i). \<not> wrong i (block_elem width m ds i j))"
  using counts_bad_blocks [OF assms] by (auto simp: bad_blocks_def filter_empty_conv)

lemma count_bounded:
  assumes "blocks_fit width m cs ds rank_size" "\<And>i. i < nat rank_size \<Longrightarrow> defined i"
    and "check m cs ds rank_size = Some n"
  shows "0 \<le> n \<and> n \<le> int (nat rank_size)"
proof -
  have "length (bad_blocks width wrong m cs ds (nat rank_size)) \<le> length [0..<nat rank_size]"
    unfolding bad_blocks_def by (rule length_filter_le)
  then have "int (length (bad_blocks width wrong m cs ds (nat rank_size))) \<le> int (nat rank_size)"
    by (simp only: of_nat_le_iff length_upt diff_zero)
  moreover have "n = int (length (bad_blocks width wrong m cs ds (nat rank_size)))"
    using counts_bad_blocks [OF assms(1,2)] assms(3) by simp
  ultimately show ?thesis by linarith
qed

text \<open>The content a rank fills its buffer with is the one its receivers expect.\<close>

lemma accepts:
  assumes w: "elem_width t = width" and fit: "blocks_fit (elem_width t) m cs ds rank_size"
    and def: "\<And>i. i < nat rank_size \<Longrightarrow> defined i"
    and ok: "\<And>i x. i < nat rank_size \<Longrightarrow> host_content t (int i + 1) = Fill x \<Longrightarrow> \<not> wrong i (x mod 256 ^ width)"
    and blocks: "\<forall>i < nat rank_size. \<exists>x. host_content t (int i + 1) = Fill x \<and>
      (\<forall>j < unat (cs ! i). block_elem (elem_width t) m ds i j = x mod 256 ^ elem_width t)"
  shows "check m cs ds rank_size = Some 0"
proof -
  have "\<not> wrong i (block_elem width m ds i j)" if "i < nat rank_size" "j < unat (cs ! i)" for i j
    using blocks ok that unfolding w by metis
  with passes_iff [OF fit [unfolded w] def] show ?thesis by blast
qed

end

interpretation a2a_uint64: block_check alltoall_check_result_uint64 8
    "\<lambda>i x. x \<noteq> s_enc 8 (int i + 1)" "\<lambda>i. True"
  by unfold_locales (simp add: alltoall_check_result_uint64_def check_blocks_spec Let_def)

interpretation a2a_fp32: block_check alltoall_check_result_fp32 4
    "\<lambda>i x. \<not> f32_eq (of_nat x) (f32_of_int (int i + 1))" "\<lambda>i. True"
  by unfold_locales (simp add: alltoall_check_result_fp32_def check_blocks_spec Let_def)

interpretation a2a_int8: block_check alltoall_check_result_int8 1
    "\<lambda>i x. x \<noteq> s_enc 1 (int i + 1)" "\<lambda>i. True"
  by unfold_locales (simp add: alltoall_check_result_int8_def check_blocks_spec Let_def)

interpretation a2a_int32: block_check alltoall_check_result_int32 4
    "\<lambda>i x. wrap_s 32 (int x) \<noteq> int i + 1" "\<lambda>i. True"
  by unfold_locales (simp add: alltoall_check_result_int32_def check_blocks_spec Let_def)

interpretation a2a_int64: block_check alltoall_check_result_int64 8
    "\<lambda>i x. wrap_s 64 (int x) \<noteq> int i + 1" "\<lambda>i. True"
  by unfold_locales (simp add: alltoall_check_result_int64_def check_blocks_spec Let_def)

interpretation a2a_int16: block_check alltoall_check_result_int16 2
    "\<lambda>i x. wrap_s 16 (int x) \<noteq> wrap_s 16 (int i + 1)" "\<lambda>i. True"
  by unfold_locales (simp add: alltoall_check_result_int16_def check_blocks_spec Let_def)

interpretation a2a_fp16: block_check alltoall_check_result_fp16 2
    "\<lambda>i x. x \<noteq> unat (fp16_ieee_from_fp32_value (f32_of_int (int i + 1)))" "\<lambda>i. True"
  by unfold_locales (simp add: alltoall_check_result_fp16_def check_blocks_spec Let_def)

interpretation a2a_uint8: block_check alltoall_check_result_uint8 1
    "\<lambda>i x. x \<noteq> s_enc 1 (int i + 1)" "\<lambda>i. True"
  by unfold_locales (simp add: alltoall_check_result_uint8_def check_blocks_spec Let_def)

interpretation a2a_uint16: block_check alltoall_check_result_uint16 2
    "\<lambda>i x. x \<noteq> s_enc 2 (int i + 1)" "\<lambda>i. True"
  by unfold_locales (simp add: alltoall_check_result_uint16_def check_blocks_spec Let_def)

interpretation a2a_uint32: block_check alltoall_check_result_uint32 4
    "\<lambda>i x. x \<noteq> s_enc 4 (int i + 1)" "\<lambda>i. True"
  by unfold_locales (simp add: alltoall_check_result_uint32_def check_blocks_spec Let_def)

interpretation a2a_bfp16: block_check alltoall_check_result_bfp16 2
    "\<lambda>i x. bf16_wrong (the (fp32tobf16 (f32_of_int (int i + 1)))) x" "\<lambda>i. fp32tobf16 (f32_of_int (int i + 1)) \<noteq> None"
  proof
  fix m cs ds and rank_size :: int
  assume "blocks_fit 2 m cs ds rank_size"
    and d: "\<And>i. i < nat rank_size \<Longrightarrow> fp32tobf16 (f32_of_int (int i + 1)) \<noteq> None"
  then show "alltoall_check_result_bfp16 m cs ds rank_size = Some (int (length (bad_blocks 2
      (\<lambda>i x. bf16_wrong (the (fp32tobf16 (f32_of_int (int i + 1)))) x) m cs ds (nat rank_size))))"
    unfolding alltoall_check_result_bfp16_def
    by (intro check_blocks_spec) (force dest: d)+
qed

subsection \<open>A correct exchange is accepted\<close>

lemma f32_of_int_not_NaN: "f32_decode (f32_of_int i) \<noteq> FNaN"
proof -
  define p where "p = fp_round 8 23 (i < 0) (nat \<bar>i\<bar>) 0"
  define q where "q = p - fp_sign 8 23 (i < 0)"
  have "p \<ge> fp_sign 8 23 (i < 0)" by (simp add: p_def fp_round_def Let_def)
  moreover have "p \<le> fp_sign 8 23 (i < 0) + fp_inf 8 23" unfolding p_def by (rule fp_round_bound)
  ultimately have p: "p = (if i < 0 then 1 else 0) * 2 ^ 31 + (q div 2 ^ 23) * 2 ^ 23 + q mod 2 ^ 23"
    and q: "q \<le> 255 * 2 ^ 23"
    by (simp_all add: q_def fp_sign_def fp_inf_def)
  from q have "q div 2 ^ 23 \<le> 255" by (metis div_le_mono nonzero_mult_div_cancel_right power_not_zero zero_neq_numeral)
  have "p < 2 ^ LENGTH(32)" using p q by (simp split: if_splits)
  then have u: "unat (f32_of_int i) = p"
    unfolding f32_of_int_def f32_encode_def v_of_int_def fp_encode.simps p_def [symmetric]
    by (rule unat_of_nat_small)
  have "q div 2 ^ 23 = 255 \<Longrightarrow> q mod 2 ^ 23 = 0"   proof -
    assume "q div 2 ^ 23 = 255"
    then have "q = 255 * 2 ^ 23 + q mod 2 ^ 23" using div_mult_mod_eq [of q "2 ^ 23"] by simp
    with q show ?thesis by linarith
  qed
  moreover have "f32_decode (f32_of_int i) =
      (if q div 2 ^ 23 = 255 then (if q mod 2 ^ 23 = 0 then FInf ((if i < 0 then 1 else 0) = (1::nat)) else FNaN)
       else FNum ((if i < 0 then 1 else 0) = (1::nat)) (if q div 2 ^ 23 = 0 then q mod 2 ^ 23 else q mod 2 ^ 23 + 2 ^ 23)
         (int (max (q div 2 ^ 23) 1) - 150))"
    using u p \<open>q div 2 ^ 23 \<le> 255\<close> by (intro f32_decode_fields) simp_all
  ultimately show ?thesis by (simp split: if_splits)
qed

lemma f32_eq_refl: "f32_decode x \<noteq> FNaN \<Longrightarrow> f32_eq x x"
  by (cases "f32_decode x") (simp_all add: f32_eq_def)

lemma f64_zero_quotient: "\<not> f64_gt (f64_div (f64_of_int 0) y) relativeError"
proof -
  have z: "f64_decode (f64_of_int 0) = FNum False 0 (- 1074)" by (simp add: fp_eval)
  have n: "f64_decode (f64_encode (FNum s 0 0)) = FNum s 0 (- 1074)" for s
    by (cases s) (simp_all add: fp_eval)
  have nan: "f64_decode (f64_encode FNaN) = FNaN" by (simp add: fp_eval)
  have "v_div 52 (FNum False 0 (- 1074)) v = FNaN \<or> (\<exists>s. v_div 52 (FNum False 0 (- 1074)) v = FNum s 0 0)" for v
    by (cases v) auto
  then have "f64_decode (f64_div (f64_of_int 0) y) = FNaN \<or>
      (\<exists>s. f64_decode (f64_div (f64_of_int 0) y) = FNum s 0 (- 1074))"
    unfolding f64_div_def z by (metis n nan)
  then show ?thesis
    by (auto simp: f64_gt_def relativeError_def f64_decode_def fp_decode_def emin_def signed_def align_def Let_def)
qed

lemma bf16_right: "\<not> bf16_wrong c (unat c)"
  by (simp add: bf16_wrong_def f64_zero_quotient)

lemma of_option_FillE: "of_option x f = Fill y \<Longrightarrow> (\<And>v. x = Some v \<Longrightarrow> y = f v \<Longrightarrow> P) \<Longrightarrow> P"
  by (cases x) auto

lemma unat_mod_self: "unat (x :: 'a::len word) mod 2 ^ LENGTH('a) = unat x"
  by (simp add: unsigned_less)

lemmas unat_mods = unat_mod_self [where 'a = 32, simplified] unat_mod_self [where 'a = 16, simplified]

lemma s_enc_less: "s_enc w v < 256 ^ w"
proof -
  have "v mod 256 ^ w < 256 ^ w" by simp
  then have "nat (v mod 256 ^ w) < nat (256 ^ w)" by simp
  then show ?thesis by (simp add: s_enc_def nat_power_eq)
qed

lemma s_enc_mod [simp]: "s_enc w v mod 256 ^ w = s_enc w v"
  by (simp add: s_enc_less)

lemmas s_enc_mods =
  s_enc_mod [of 1, simplified] s_enc_mod [of 2, simplified] s_enc_mod [of 4, simplified]
  s_enc_mod [of 8, simplified]

lemma s_enc_exact:
  "i < 2147483647 \<Longrightarrow> wrap_s 32 (int (s_enc 4 (int i + 1))) = int i + 1"
  "i < 2147483647 \<Longrightarrow> wrap_s 64 (int (s_enc 8 (int i + 1))) = int i + 1"
  "wrap_s 16 (int (s_enc 2 v)) = wrap_s 16 v"
  using s_enc_value [of 4 "int i + 1"] s_enc_value [of 8 "int i + 1"]
  by (simp_all add: in_s_def s_enc_mods) (simp add: s_enc_def wrap_s_def mod_add_left_eq)

lemma int8_fill: "i < 127 \<Longrightarrow> s_enc (Suc 0) (c_mod (int i + 1) 128) = s_enc (Suc 0) (int i + 1)"
  by (simp add: c_mod_nonneg)

lemmas right_content = host_content_def elem_width_def s_enc_mods unat_mods s_enc_exact int8_fill
  f32_eq_refl f32_of_int_not_NaN bf16_right

text \<open>
  C10.  A correct all-to-all exchange is accepted: when every block holds what the sending rank
  put there (\<open>hccl_host_buf_init\<close> with the rank's number plus one), \<open>hccl_alltoallv_check_result\<close>
  reports no error, for every data type; for the one-byte types with fewer than 128 ranks, which
  is the limit of \<open>is_initdata_overflow\<close>.
\<close>
theorem alltoallv_exchange_accepted:
  assumes "t \<noteq> HCCL_DATA_TYPE_INT128" and "elem_width t = 1 \<Longrightarrow> rank_size < 128"
    and fit: "blocks_fit (elem_width t) m cs ds rank_size"
    and blocks: "\<forall>i < nat rank_size. \<exists>x. host_content t (int i + 1) = Fill x \<and>
      (\<forall>j < unat (cs ! i). block_elem (elem_width t) m ds i j = x mod 256 ^ elem_width t)"
  shows "hccl_alltoallv_check_result m cs ds rank_size (dtype_value t) = Some 0"
proof (cases "rank_size < 1")
  case False
  have d: "hccl_alltoallv_check_result m cs ds rank_size (dtype_value t) =
      (case functionAllToAllMap t of Some f \<Rightarrow> f m cs ds rank_size | None \<Rightarrow> Some 0)"
    using False by (simp only: hccl_alltoallv_check_result_def Let_def if_False dtype_of_value bind.bind_lunit)
  have rs: "rank_size < 2147483648" using fit by (simp add: blocks_fit_def)
  have few: "i < nat rank_size \<Longrightarrow> i < 2147483647 \<and> (elem_width t = 1 \<longrightarrow> i < 127)" for i
    using rs assms(2) by linarith
  have bf: "fp32tobf16 (f32_of_int (int i + 1)) \<noteq> None" if "t = HCCL_DATA_TYPE_BFP16" "i < nat rank_size" for i
    using blocks that by (cases "fp32tobf16 (f32_of_int (int i + 1))") (auto simp: host_content_def elem_width_def)
  have int8: "t = HCCL_DATA_TYPE_INT8 \<Longrightarrow>
      alltoall_check_result_int8 m cs ds rank_size = Some 0"
    by (rule a2a_int8.accepts [OF _ fit _ _ blocks]) (use few in \<open>auto simp: right_content\<close>)
  have int16: "t = HCCL_DATA_TYPE_INT16 \<Longrightarrow>
      alltoall_check_result_int16 m cs ds rank_size = Some 0"
    by (rule a2a_int16.accepts [OF _ fit _ _ blocks]) (use few in \<open>auto simp: right_content\<close>)
  have int32: "t = HCCL_DATA_TYPE_INT32 \<Longrightarrow>
      alltoall_check_result_int32 m cs ds rank_size = Some 0"
    by (rule a2a_int32.accepts [OF _ fit _ _ blocks]) (use few in \<open>auto simp: right_content\<close>)
  have int64: "t \<in> {HCCL_DATA_TYPE_INT64, HCCL_DATA_TYPE_FP64} \<Longrightarrow>
      alltoall_check_result_int64 m cs ds rank_size = Some 0"
    by (rule a2a_int64.accepts [OF _ fit _ _ blocks]) (use few in \<open>auto simp: right_content\<close>)
  have fp16: "t = HCCL_DATA_TYPE_FP16 \<Longrightarrow>
      alltoall_check_result_fp16 m cs ds rank_size = Some 0"
    by (rule a2a_fp16.accepts [OF _ fit _ _ blocks]) (use few in \<open>auto simp: right_content\<close>)
  have fp32: "t = HCCL_DATA_TYPE_FP32 \<Longrightarrow>
      alltoall_check_result_fp32 m cs ds rank_size = Some 0"
    by (rule a2a_fp32.accepts [OF _ fit _ _ blocks]) (use few in \<open>auto simp: right_content\<close>)
  have uint8: "t \<in> {HCCL_DATA_TYPE_UINT8, HCCL_DATA_TYPE_HIF8, HCCL_DATA_TYPE_FP8E4M3, HCCL_DATA_TYPE_FP8E5M2, HCCL_DATA_TYPE_FP8E8M0} \<Longrightarrow>
      alltoall_check_result_uint8 m cs ds rank_size = Some 0"
    by (rule a2a_uint8.accepts [OF _ fit _ _ blocks]) (use few in \<open>auto simp: right_content\<close>)
  have uint16: "t = HCCL_DATA_TYPE_UINT16 \<Longrightarrow>
      alltoall_check_result_uint16 m cs ds rank_size = Some 0"
    by (rule a2a_uint16.accepts [OF _ fit _ _ blocks]) (use few in \<open>auto simp: right_content\<close>)
  have uint32: "t = HCCL_DATA_TYPE_UINT32 \<Longrightarrow>
      alltoall_check_result_uint32 m cs ds rank_size = Some 0"
    by (rule a2a_uint32.accepts [OF _ fit _ _ blocks]) (use few in \<open>auto simp: right_content\<close>)
  have uint64: "t = HCCL_DATA_TYPE_UINT64 \<Longrightarrow>
      alltoall_check_result_uint64 m cs ds rank_size = Some 0"
    by (rule a2a_uint64.accepts [OF _ fit _ _ blocks]) (use few in \<open>auto simp: right_content\<close>)
  have bfp16: "t = HCCL_DATA_TYPE_BFP16 \<Longrightarrow> alltoall_check_result_bfp16 m cs ds rank_size = Some 0"
    by (rule a2a_bfp16.accepts [OF _ fit _ _ blocks])
      (use bf in \<open>auto simp: right_content elim!: of_option_FillE\<close>)
  have "(case functionAllToAllMap t of Some f \<Rightarrow> f m cs ds rank_size | None \<Rightarrow> Some 0) = Some 0"
    by (cases t) (simp_all add: int8 int16 int32 int64 fp16 fp32 uint8 uint16 uint32 uint64 bfp16)
  then show ?thesis unfolding d .
qed (simp add: hccl_alltoallv_check_result_def)

lemma alltoallv_exchange_accepted_witness:
  "hccl_alltoallv_check_result [1, 0, 2, 0] [1, 1] [0, 1] 2 (dtype_value HCCL_DATA_TYPE_INT16) = Some 0"
proof (rule alltoallv_exchange_accepted)
  show "blocks_fit (elem_width HCCL_DATA_TYPE_INT16) [1, 0, 2, 0] [1, 1] [0, 1] 2"
    by (simp add: blocks_fit_def elem_width_def mem_eval)
  show "\<forall>i < nat 2. \<exists>x. host_content HCCL_DATA_TYPE_INT16 (int i + 1) = Fill x \<and>
      (\<forall>j < unat ([1, 1 :: u64] ! i). block_elem (elem_width HCCL_DATA_TYPE_INT16) [1, 0, 2, 0] [0, 1] i j
        = x mod 256 ^ elem_width HCCL_DATA_TYPE_INT16)"
    by (simp add: host_content_def elem_width_def s_enc_def block_elem_def mem_eval)
qed (simp_all add: elem_width_def)

lemma pattern_check_spec:
  assumes "0 < nRanks" "nRanks < 2147483648" "0 \<le> rank" "rank < nRanks"
    and "unat count \<le> length dst_buf" "pattern \<noteq> []"
  shows "hccl_alltoall_check_result None count nRanks rank pattern = Some False
    \<and> hccl_alltoall_check_result (Some dst_buf) count nRanks rank pattern =
      Some (let block = unat count div nat nRanks in
        \<forall>i < nat nRanks. \<forall>j < block.
          dst_buf ! (i * block + j) = pattern ! ((nat rank * block + j) mod length pattern))"
proof (cases "count = 0")
  case False
  define n where "n = nat nRanks"
  define block where "block = unat count div n"
  have n: "0 < n" "n < 2 ^ 31" using assms(1,2) by (simp_all add: n_def nat_less_iff)
  have un: "unat (word_of_int nRanks :: u64) = n"
    using assms(1,2) unfolding n_def by (intro unat_word_of_int_small) simp_all
  then have nz: "(word_of_int nRanks :: u64) \<noteq> 0" using n by (metis unat_0 less_not_refl)
  have ur: "unat (word_of_int rank :: u64) = nat rank"
    using assms(2,3,4) by (intro unat_word_of_int_small) simp_all
  have ub: "unat (count div word_of_int nRanks) = block"
    by (simp add: unat_div un block_def)
  have nb: "n * block \<le> unat count" by (simp add: block_def mult.commute [of n])
  have at: "(k + 1) * block \<le> unat count" if "k < n" for k
  proof -
    have "(k + 1) * block \<le> n * block" using that by (intro mult_le_mono1) simp
    with nb show ?thesis by linarith
  qed
  define good where "good i \<longleftrightarrow> (\<forall>j < block. dst_buf ! (i * block + j) =
      pattern ! ((nat rank * block + j) mod length pattern))" for i
  define body where "body = (\<lambda>i isMatch.
       case scan_block
         (\<lambda>j. let pattern_offset = (count div word_of_int nRanks) * word_of_int rank + of_nat j;
                  at = of_nat i * (count div word_of_int nRanks) + of_nat j
              in if pattern = [] then None
                 else map_option
                        (\<lambda>x. x \<noteq> unat (pattern ! (unat pattern_offset mod length pattern)))
                        (load_elem 1 0 (unat at) dst_buf))
         0 (unat (count div word_of_int nRanks))
       of None \<Rightarrow> None | Some b \<Rightarrow> Some (if b then False else isMatch))"
  have step: "body k m = Some (m \<and> good k)" if k: "k < n" for k m
  proof -
    have small: "x < 18446744073709551616" if "x \<le> unat count" for x
      using that unat_lt_64 [of count] by linarith
    have elem: "(let pattern_offset = (count div word_of_int nRanks) * word_of_int rank + of_nat j;
                  at = of_nat k * (count div word_of_int nRanks) + of_nat j
              in if pattern = [] then None
                 else map_option
                        (\<lambda>x. x \<noteq> unat (pattern ! (unat pattern_offset mod length pattern)))
                        (load_elem 1 0 (unat at) dst_buf)) =
        Some (dst_buf ! (k * block + j) \<noteq> pattern ! ((nat rank * block + j) mod length pattern))"
      if j: "j < block" for j
    proof -
      have "nat rank < n" using assms(3,4) by (simp add: n_def)
      from at [OF this] at [OF k] j
      have le: "nat rank * block + j < unat count" "k * block + j < unat count"
        by (simp_all add: algebra_simps)
      have uj: "unat (of_nat j :: u64) = j"
        using le small [of j] by (intro unat_of_nat_small) simp
      have uk: "unat (of_nat k :: u64) = k" using k n by (intro unat_of_nat_small) simp
      have e1: "unat ((count div word_of_int nRanks) * word_of_int rank :: u64) = nat rank * block"
        using le small [of "nat rank * block"]
        by (subst unat_mult_small) (simp_all add: ub ur mult.commute)
      have e2: "unat (of_nat k * (count div word_of_int nRanks) :: u64) = k * block"
        using le small [of "k * block"] by (subst unat_mult_small) (simp_all add: ub uk)
      have p: "unat ((count div word_of_int nRanks) * word_of_int rank + of_nat j :: u64) = nat rank * block + j"
        using le small [of "nat rank * block + j"] by (subst unat_add_small) (simp_all add: e1 uj)
      have q: "unat (of_nat k * (count div word_of_int nRanks) + of_nat j :: u64) = k * block + j"
        using le small [of "k * block + j"] by (subst unat_add_small) (simp_all add: e2 uj)
      have l: "load_elem 1 0 (k * block + j) dst_buf = Some (unat (dst_buf ! (k * block + j)))"
      proof -
        have "k * block + j < length dst_buf" using le assms(5) by linarith
        then have "take 1 (drop (k * block + j) dst_buf) = [dst_buf ! (k * block + j)]"
          by (simp add: take_Suc_conv_app_nth)
        with \<open>k * block + j < length dst_buf\<close> show ?thesis by (simp add: load_elem_def)
      qed
      show ?thesis using assms(6) unfolding Let_def p q l by (simp add: word_unat_eq_iff)
    qed
    show ?thesis
      unfolding body_def ub using elem
      by (subst scan_block_spec [where g = "\<lambda>j. dst_buf ! (k * block + j) \<noteq>
            pattern ! ((nat rank * block + j) mod length pattern)"]) (auto simp: good_def)
  qed
  have "\<exists>t. for_range body 0 n True = Some t \<and> t = (\<forall>i < 0 + n. good i)"
    by (rule for_range_total [where P = "\<lambda>k t. t = (\<forall>i < k. good i)"]) (auto simp: step less_Suc_eq)
  moreover have "hccl_alltoall_check_result (Some dst_buf) count nRanks rank pattern = for_range body 0 n True"
    using False nz by (simp add: hccl_alltoall_check_result_def Let_def body_def n_def)
  ultimately show ?thesis
    by (simp add: hccl_alltoall_check_result_def good_def Let_def block_def n_def)
qed (simp add: hccl_alltoall_check_result_def Let_def)

text \<open>
  C19.  \<open>hccl_alltoall_check_result\<close> accepts a buffer that holds \<open>count\<close> bytes exactly when byte \<open>j\<close>
  of the block of every rank is byte \<open>rank * block + j\<close> of the periodic pattern, where a block is
  \<open>count / nRanks\<close> bytes; with no data it accepts and without a buffer it rejects.
\<close>
theorem hccl_alltoall_check_result_correct:
  assumes "0 < nRanks" "nRanks < 2147483648" "0 \<le> rank" "rank < nRanks"
    and "unat count \<le> length dst_buf" "pattern \<noteq> []"
  shows "hccl_alltoall_check_result None count nRanks rank pattern = Some False
    \<and> hccl_alltoall_check_result (Some dst_buf) count nRanks rank pattern =
      Some (let block = unat count div nat nRanks in
        \<forall>i < nat nRanks. \<forall>j < block.
          dst_buf ! (i * block + j) = pattern ! ((nat rank * block + j) mod length pattern))"
  using assms by (rule pattern_check_spec)

lemma hccl_alltoall_check_result_correct_witness:
  "hccl_alltoall_check_result (Some [1, 2, 1, 2]) 4 2 0 [1, 2] = Some True"
  using hccl_alltoall_check_result_correct [of 2 0 4 "[1, 2, 1, 2]" "[1, 2]"]
  by (simp add: Let_def mem_eval)

end
