(* ===== verification/World.thy ===== *)
theory World
  imports Device_Text Byte_Memory Soft_Float
begin

text \<open>
  The outside world of the benchmark: the device runtime (\<open>acl\<close>), the collective library
  (\<open>hccl\<close>), MPI and the C library, whose code is not part of the repository.  They are a
  parameter, the record \<open>api\<close>: what a call returns and the values it delivers are functions of
  the calls made before it and of its arguments, with no law assumed.  The model adds only what
  the program relies on: an allocation that succeeds yields a block nobody else uses, a copy
  that succeeds copies, a freed block is gone.  A use of a block that does not exist, of a
  freed one, or beyond its end is undefined behaviour (\<open>None\<close>).
\<close>

subsection \<open>Calls\<close>

text \<open>A pointer is a block and an offset into it; block \<open>0\<close> is never allocated.\<close>

type_synonym ptr = "nat \<times> nat"

abbreviation nullptr :: ptr where "nullptr \<equiv> (0, 0)"

definition ptr_add :: "ptr \<Rightarrow> nat \<Rightarrow> ptr" where
  "ptr_add p n = (fst p, snd p + n)"

datatype memcpy_kind = HOST_TO_HOST | HOST_TO_DEVICE | DEVICE_TO_HOST

datatype acl_call =
    AclInit | AclFinalize | SetDevice u32 | ResetDevice u32 | SetDeviceSatMode | GetDeviceCount
  | CreateEvent | CreateEventWithFlag | DestroyEvent nat
  | CreateStream | DestroyStream nat | SetStreamFailureMode nat int
  | StreamWaitEvent nat nat | ResetEvent nat nat | RecordEvent nat nat | SynchronizeStream nat
  | EventElapsedTime nat nat
  | MallocHost u64 | FreeHost ptr | Malloc u64 | Free ptr | Memcpy ptr u64 ptr u64 memcpy_kind
  | GetMemInfo aclrtMemAttr | MemGetAllocationGranularity aclrtMemAttr u32
  | ReserveMemAddress u64 | ReleaseMemAddress ptr | MallocPhysical u64 | MapMem ptr u64 nat
  | UnmapMem ptr | FreePhysical nat
  | ProfInit string | ProfCreateConfig u32 | ProfStart nat | ProfStop nat | ProfFinalize
  | CreateContext u32 | SetCurrentContext nat | DestroyContext nat
  | Memset ptr u64 u8 u64 | MemcpyAsync ptr u64 ptr u64 memcpy_kind nat

datatype hccl_call =
    GetRootInfo | CommInitRootInfo u32 "u8 list" u32
  | CommInitRootInfoConfig u32 "u8 list" u32 u32 u64 u32
  | CommDestroy nat | CommSetMemoryRange nat ptr u64 | CommUnsetMemoryRange nat ptr
  | CommActivateCommMemory nat ptr u64 nat | CommDeactivateCommMemory nat ptr
  | GetCommConfigCapability
  | AllReduce ptr ptr u64 int int nat nat
  | AllGather ptr ptr u64 int nat nat
  | AllGatherV ptr u64 ptr ptr ptr int nat nat
  | Broadcast ptr u64 int int nat nat
  | Reduce ptr ptr u64 int int int nat nat
  | ReduceScatter ptr ptr u64 int int nat nat
  | ReduceScatterV ptr ptr ptr ptr u64 int int nat nat
  | Scatter ptr ptr u64 int int nat nat
  | AlltoAll ptr u64 int ptr u64 int nat nat
  | AlltoAllV ptr ptr ptr int ptr ptr ptr int nat nat
  | AlltoAllVC ptr ptr int ptr int nat nat

datatype os_call =
    MpiInit | MpiFinalize | MpiCommSize | MpiCommRank | MpiIbcast "u8 list" int | MpiWait
  | MallocHeap u64 | FreeHeap ptr | Setenv string string | SleepMs int | NewTester
  | SetAffinity "bool list" | ReadClock

datatype call = Acl acl_call | Hccl hccl_call | Os os_call

text \<open>
  What the environment answers.  \<open>status\<close> is the returned code, \<open>delivered\<close> a number delivered
  through an out-parameter (a handle, a count, a size, a time), \<open>bytes_of\<close> a delivered byte
  string; \<open>fresh_byte\<close> the content of new memory; \<open>sync_byte\<close> the content of device memory
  after the queued work of a stream has finished.
\<close>

record api =
  status :: "call list \<Rightarrow> call \<Rightarrow> int"
  delivered :: "call list \<Rightarrow> call \<Rightarrow> nat"
  bytes_of :: "call list \<Rightarrow> call \<Rightarrow> u8 list"
  fresh_byte :: "call list \<Rightarrow> call \<Rightarrow> nat \<Rightarrow> u8"
  sync_byte :: "call list \<Rightarrow> (nat \<Rightarrow> mem) \<Rightarrow> nat \<Rightarrow> nat \<Rightarrow> u8"
  soc_name :: "string option"
  getenv :: "string \<Rightarrow> string option"
  inet_addr :: "u8 list \<Rightarrow> u32"
  HCCL_E_PTR :: int
  HCCL_E_MEMORY :: int
  HCCL_ROOT_INFO_BYTES :: nat

text \<open>An environment in which every call succeeds and no work changes device memory.\<close>

definition ideal_api :: "(call list \<Rightarrow> call \<Rightarrow> nat) \<Rightarrow> api" where
  "ideal_api values =
     \<lparr>status = (\<lambda>_ _. 0), delivered = values, bytes_of = (\<lambda>_ _. []), fresh_byte = (\<lambda>_ _ _. 0),
      sync_byte = (\<lambda>_ m b i. m b ! i), soc_name = Some ''Ascend910B2'', getenv = (\<lambda>_. None),
      inet_addr = (\<lambda>_. 0), HCCL_E_PTR = 2, HCCL_E_MEMORY = 3, HCCL_ROOT_INFO_BYTES = 4108\<rparr>"

subsection \<open>State of the world\<close>

datatype kind = Heap | Host | Device | Reserved

datatype line =
    Text string
  | Header
  | ResultRow u64 u64 u64 string
  | Mismatch u64 int int
  | LocalFailure int u64 u64 u64

text \<open>
  \<open>call_log\<close> has the most recent call first; \<open>mapped\<close> lists the mapped ranges of reserved
  address blocks.
\<close>

record world =
  call_log :: "call list"
  blocks :: "nat \<Rightarrow> (kind \<times> mem) option"
  next_block :: nat
  mapped :: "(ptr \<times> nat) list"
  printed :: "line list"

definition is_mapped :: "(ptr \<times> nat) list \<Rightarrow> nat \<Rightarrow> nat \<Rightarrow> bool" where
  "is_mapped ms b i \<longleftrightarrow> list_ex (\<lambda>((b', off), n). b' = b \<and> off \<le> i \<and> i < off + n) ms"

definition readable :: "'a world_scheme \<Rightarrow> ptr \<Rightarrow> nat \<Rightarrow> bool" where
  "readable s p n \<longleftrightarrow>
     (case blocks s (fst p) of
        None \<Rightarrow> False
      | Some (k, m) \<Rightarrow> snd p + n \<le> length m \<and>
          (k = Reserved \<longrightarrow> list_all (is_mapped (mapped s) (fst p)) [snd p..<snd p + n]))"

definition block_bytes :: "'a world_scheme \<Rightarrow> nat \<Rightarrow> mem" where
  "block_bytes s b = (case blocks s b of Some (k, m) \<Rightarrow> m | None \<Rightarrow> [])"

definition read_mem :: "'a world_scheme \<Rightarrow> ptr \<Rightarrow> nat \<Rightarrow> mem option" where
  "read_mem s p n = (if readable s p n then Some (take n (drop (snd p) (block_bytes s (fst p)))) else None)"

definition set_block :: "nat \<Rightarrow> mem \<Rightarrow> 'a world_scheme \<Rightarrow> 'a world_scheme" where
  "set_block b m s =
     (case blocks s b of Some (k, _) \<Rightarrow> s\<lparr>blocks := (blocks s)(b \<mapsto> (k, m))\<rparr> | None \<Rightarrow> s)"

definition write_mem :: "ptr \<Rightarrow> mem \<Rightarrow> 'a world_scheme \<Rightarrow> 'a world_scheme option" where
  "write_mem p bs s =
     (if readable s p (length bs)
      then Some (set_block (fst p) (write_at (snd p) bs (block_bytes s (fst p))) s) else None)"

text \<open>A pass of the program over a host buffer with one of its own routines.\<close>

definition update_buffer :: "ptr \<Rightarrow> (mem \<Rightarrow> nat \<Rightarrow> mem option) \<Rightarrow> 'a world_scheme \<Rightarrow> 'a world_scheme option" where
  "update_buffer p f s =
     (case blocks s (fst p) of
        None \<Rightarrow> None
      | Some (k, m) \<Rightarrow> map_option (\<lambda>m'. set_block (fst p) m' s) (f m (snd p)))"

subsection \<open>Calls as commands\<close>

definition logged :: "call \<Rightarrow> 'a world_scheme \<Rightarrow> 'a world_scheme" where
  "logged c s = s\<lparr>call_log := c # call_log s\<rparr>"

text \<open>A call; when it succeeds it has the effect \<open>f\<close> (which may be undefined).\<close>

definition invoke :: "api \<Rightarrow> call \<Rightarrow> ('a world_scheme \<Rightarrow> 'a world_scheme option) \<Rightarrow> 'a world_scheme cmd" where
  "invoke A c f s =
     (let r = status A (call_log s) c in
      if r = 0 then map_option (\<lambda>s'. (0, logged c s')) (f s) else Some (r, logged c s))"

definition call :: "api \<Rightarrow> call \<Rightarrow> 'a world_scheme cmd" where
  "call A c = invoke A c Some"

text \<open>A call that delivers a number to a local variable, and the rest of the function.\<close>

definition call_then :: "api \<Rightarrow> call \<Rightarrow> (nat \<Rightarrow> 'a world_scheme cmd) \<Rightarrow> 'a world_scheme cmd" where
  "call_then A c k s =
     (let r = status A (call_log s) c in
      if r = 0 then k (delivered A (call_log s) c) (logged c s) else Some (r, logged c s))"

text \<open>A call that delivers a number; \<open>upd\<close> stores it.\<close>

definition call_value ::
    "api \<Rightarrow> call \<Rightarrow> (nat \<Rightarrow> 'a world_scheme \<Rightarrow> 'a world_scheme) \<Rightarrow> 'a world_scheme cmd" where
  "call_value A c upd = (\<lambda>s. invoke A c (\<lambda>s'. Some (upd (delivered A (call_log s) c) s')) s)"

definition alloc ::
    "api \<Rightarrow> call \<Rightarrow> kind \<Rightarrow> nat \<Rightarrow> (ptr \<Rightarrow> 'a world_scheme \<Rightarrow> 'a world_scheme) \<Rightarrow> 'a world_scheme \<Rightarrow>
       'a world_scheme" where
  "alloc A c k n upd s =
     upd (next_block s, 0)
       (s\<lparr>blocks := (blocks s)(next_block s \<mapsto> (k, map (fresh_byte A (call_log s) c) [0..<n])),
         next_block := Suc (next_block s)\<rparr>)"

definition release :: "kind \<Rightarrow> ptr \<Rightarrow> 'a world_scheme \<Rightarrow> 'a world_scheme option" where
  "release k p s =
     (case blocks s (fst p) of
        Some (k', m) \<Rightarrow>
          if k' = k \<and> snd p = 0 then Some (s\<lparr>blocks := (blocks s)(fst p := None)\<rparr>) else None
      | None \<Rightarrow> None)"

definition aclrtMallocHost ::
    "api \<Rightarrow> u64 \<Rightarrow> (ptr \<Rightarrow> 'a world_scheme \<Rightarrow> 'a world_scheme) \<Rightarrow> 'a world_scheme cmd" where
  "aclrtMallocHost A n upd =
     invoke A (Acl (MallocHost n)) (\<lambda>s. Some (alloc A (Acl (MallocHost n)) Host (unat n) upd s))"

definition aclrtMalloc ::
    "api \<Rightarrow> u64 \<Rightarrow> (ptr \<Rightarrow> 'a world_scheme \<Rightarrow> 'a world_scheme) \<Rightarrow> 'a world_scheme cmd" where
  "aclrtMalloc A n upd =
     invoke A (Acl (Malloc n)) (\<lambda>s. Some (alloc A (Acl (Malloc n)) Device (unat n) upd s))"

text \<open>The pointer must be live whatever the call returns.\<close>

definition aclrtFreeHost :: "api \<Rightarrow> ptr \<Rightarrow> 'a world_scheme cmd" where
  "aclrtFreeHost A p s =
     (if release Host p s = None then None else invoke A (Acl (FreeHost p)) (release Host p) s)"

definition aclrtFree :: "api \<Rightarrow> ptr \<Rightarrow> 'a world_scheme cmd" where
  "aclrtFree A p s =
     (if release Device p s = None then None else invoke A (Acl (Free p)) (release Device p) s)"

definition aclrtMemcpy ::
    "api \<Rightarrow> ptr \<Rightarrow> u64 \<Rightarrow> ptr \<Rightarrow> u64 \<Rightarrow> memcpy_kind \<Rightarrow> 'a world_scheme cmd" where
  "aclrtMemcpy A dst destMax src count k =
     invoke A (Acl (Memcpy dst destMax src count k))
       (\<lambda>s. if count \<le> destMax
            then Option.bind (read_mem s src (unat count)) (\<lambda>bs. write_mem dst bs s) else None)"

text \<open>
  Waiting for a stream: the collectives queued on it may have written any device memory.
\<close>

definition synced :: "api \<Rightarrow> 'a world_scheme \<Rightarrow> 'a world_scheme" where
  "synced A s =
     s\<lparr>blocks := (\<lambda>b. case blocks s b of
        Some (k, m) \<Rightarrow>
          if k = Device \<or> k = Reserved
          then Some (k, map (sync_byte A (call_log s) (block_bytes s) b) [0..<length m])
          else Some (k, m)
      | None \<Rightarrow> None)\<rparr>"

definition aclrtSynchronizeStream :: "api \<Rightarrow> nat \<Rightarrow> 'a world_scheme cmd" where
  "aclrtSynchronizeStream A stream =
     invoke A (Acl (SynchronizeStream stream)) (\<lambda>s. Some (synced A s))"

text \<open>
  \<open>aclrtMemset\<close>, and the copy that is queued on a stream.  Programs that queue copies read neither
  buffer before they have waited for the stream, so the model copies at once.
\<close>

definition aclrtMemset :: "api \<Rightarrow> ptr \<Rightarrow> u64 \<Rightarrow> u8 \<Rightarrow> u64 \<Rightarrow> 'a world_scheme cmd" where
  "aclrtMemset A p maxCount v n =
     invoke A (Acl (Memset p maxCount v n))
       (\<lambda>s. if n \<le> maxCount then write_mem p (replicate (unat n) v) s else None)"

text \<open>The steady clock, in nanoseconds.\<close>

definition read_clock :: "api \<Rightarrow> (nat \<Rightarrow> 'a world_scheme \<Rightarrow> 'a world_scheme) \<Rightarrow> 'a world_scheme cmd" where
  "read_clock A upd s =
     Some (0, upd (delivered A (call_log s) (Os ReadClock)) (logged (Os ReadClock) s))"

text \<open>\<open>malloc\<close> and \<open>free\<close>: the status says whether memory was available.\<close>

definition malloc :: "api \<Rightarrow> u64 \<Rightarrow> (ptr \<Rightarrow> 'a world_scheme \<Rightarrow> 'a world_scheme) \<Rightarrow> 'a world_scheme cmd" where
  "malloc A n upd s =
     (let c = Os (MallocHeap n) in
      if status A (call_log s) c = 0 then Some (0, logged c (alloc A c Heap (unat n) upd s))
      else Some (0, logged c (upd nullptr s)))"

definition malloc_then :: "api \<Rightarrow> u64 \<Rightarrow> (ptr \<Rightarrow> 'a world_scheme cmd) \<Rightarrow> 'a world_scheme cmd" where
  "malloc_then A n k s =
     (let c = Os (MallocHeap n) in
      if status A (call_log s) c = 0
      then k (next_block s, 0) (logged c (alloc A c Heap (unat n) (\<lambda>_ s. s) s))
      else k nullptr (logged c s))"

definition free :: "ptr \<Rightarrow> 'a world_scheme cmd" where
  "free p s =
     (if p = nullptr then Some (0, s)
      else map_option (\<lambda>s'. (0, logged (Os (FreeHeap p)) s')) (release Heap p s))"

definition print :: "line \<Rightarrow> 'a world_scheme cmd" where
  "print l = assign (\<lambda>s. s\<lparr>printed := printed s @ [l]\<rparr>)"

end
