(* ===== verification/Test_State.thy ===== *)
theory Test_State
  imports World Hccl_Types
begin

text \<open>
  The classes \<open>HcclTest\<close> (\<open>common/src/hccl_test_common.h\<close>) and \<open>HcclOpBaseTest\<close>
  (\<open>common/src/hccl_opbase_rootinfo_base.h\<close>) as records over the state of the world, with their
  constructors.  A data member of a class type or pointer to \<open>DataSize\<close> is a record, a handle a
  number, a \<open>double\<close> its bit pattern.  The function-local static of \<open>prepare_zero_copy\<close> is the
  field \<open>current_alloc_phy_mem_byte\<close>.
\<close>

record DataSize =
  min_bytes :: u64
  max_bytes :: u64
  step_bytes :: u64
  step_factor :: u64
  count :: u64
  data_size :: u64
  type_size :: u64

definition SERVER_MAX_DEV_NUM :: int where "SERVER_MAX_DEV_NUM = 8"
definition BUF_ALGIN_SIZE :: int where "BUF_ALGIN_SIZE = 512"
definition BUF_ALGIN_LINE :: int where "BUF_ALGIN_LINE = 16 * 1024 * 1024"
definition NSLBDP_SUPPORT_VERSION :: int where "NSLBDP_SUPPORT_VERSION = 7"
definition NSLBDP_PORT_OFFSET :: nat where "NSLBDP_PORT_OFFSET = 32"

record HcclTest = world +
  data :: DataSize
  vir_ptr :: ptr
  enable_zero_copy :: bool
  malloc_kSize :: u64
  send_buff :: ptr
  recv_buff :: ptr
  phy_alloc_mem_handle :: "(ptr \<times> nat) list"
  granularity :: u64
  physicalGranularity :: u64
  current_alloc_phy_mem_byte :: u64
  data_parsed_begin :: int
  data_parsed_end :: int
  temp_step_bytes :: int
  iters :: int
  op_type :: int
  dtype :: int
  warmup_iters :: int
  check :: int
  dev_count :: u32
  stepfactor_flag :: int
  stepbytes_flag :: int
  op_flag :: int
  root_rank :: int
  dev_id :: u32
  rank_id :: int
  rank_size :: int
  accelerator_config :: int
  only_device_exec_time :: int
  sync_stream :: nat
  stream :: nat
  hccl_comm :: nat
  comm_id :: "u8 list"
  start_event :: nat
  end_event :: nat
  sync_event :: nat
  print_header :: bool
  print_dump :: bool
  need_ranksize_alignment :: bool
  proc_rank :: int
  proc_size :: int
  npus :: int
  profiling_flag :: int
  profiling_config :: nat
  npus_flag :: int
  nslb_flag :: int
  hccl_buffsize :: u64

record HcclOpBaseTest = HcclTest +
  host_buf :: ptr
  recv_buff_temp :: ptr
  check_buf :: ptr
  check_err :: int
  val :: int

text \<open>
  The object a constructor leaves.  Members without an initialiser hold whatever the memory
  held; here they come from the argument.
\<close>

definition construct_HcclTest :: "'a HcclTest_scheme \<Rightarrow> 'a HcclTest_scheme" where
  "construct_HcclTest s =
     s\<lparr>data := (data s)\<lparr>step_bytes := 0, step_factor := f64_of_int 1\<rparr>,
       vir_ptr := nullptr, enable_zero_copy := False, malloc_kSize := 0,
       send_buff := nullptr, recv_buff := nullptr, phy_alloc_mem_handle := [],
       granularity := 128, physicalGranularity := 2 * 1024 * 1024,
       data_parsed_begin := 64 * 1024 * 1024, data_parsed_end := 64 * 1024 * 1024,
       temp_step_bytes := 0, iters := 20, op_type := op_value HCCL_REDUCE_SUM,
       dtype := dtype_value HCCL_DATA_TYPE_FP32, warmup_iters := 10, check := 1, dev_count := 0,
       stepfactor_flag := 0, stepbytes_flag := 0, op_flag := 0, root_rank := 0, dev_id := 0,
       rank_id := 0, rank_size := 0, accelerator_config := 0, only_device_exec_time := 0,
       print_header := True, print_dump := True, need_ranksize_alignment := False,
       proc_rank := 0, proc_size := 0, npus := - 1, profiling_flag := 0, profiling_config := 0,
       npus_flag := 0, nslb_flag := 0, hccl_buffsize := 200\<rparr>"

definition construct_HcclOpBaseTest :: "'a HcclOpBaseTest_scheme \<Rightarrow> 'a HcclOpBaseTest_scheme" where
  "construct_HcclOpBaseTest s =
     (construct_HcclTest s)\<lparr>host_buf := nullptr, recv_buff_temp := nullptr, check_buf := nullptr,
        check_err := 0, val := 2\<rparr>"

text \<open>An object whose memory is all zero, before its constructors run, in an empty world.\<close>

definition zero_data :: DataSize where
  "zero_data = \<lparr>min_bytes = 0, max_bytes = 0, step_bytes = 0, step_factor = 0, count = 0,
     data_size = 0, type_size = 0\<rparr>"

definition zero_object :: HcclOpBaseTest where
  "zero_object =
     \<lparr>call_log = [], blocks = (\<lambda>_. None), next_block = 1, mapped = [], printed = [],
      data = zero_data, vir_ptr = nullptr, enable_zero_copy = False, malloc_kSize = 0,
      send_buff = nullptr, recv_buff = nullptr, phy_alloc_mem_handle = [], granularity = 0,
      physicalGranularity = 0, current_alloc_phy_mem_byte = 0, data_parsed_begin = 0,
      data_parsed_end = 0, temp_step_bytes = 0, iters = 0, op_type = 0, dtype = 0,
      warmup_iters = 0, check = 0, dev_count = 0, stepfactor_flag = 0, stepbytes_flag = 0,
      op_flag = 0, root_rank = 0, dev_id = 0, rank_id = 0, rank_size = 0,
      accelerator_config = 0, only_device_exec_time = 0, sync_stream = 0, stream = 0,
      hccl_comm = 0, comm_id = [], start_event = 0, end_event = 0, sync_event = 0,
      print_header = False, print_dump = False, need_ranksize_alignment = False,
      proc_rank = 0, proc_size = 0, npus = 0, profiling_flag = 0, profiling_config = 0,
      npus_flag = 0, nslb_flag = 0, hccl_buffsize = 0,
      host_buf = nullptr, recv_buff_temp = nullptr, check_buf = nullptr, check_err = 0, val = 0\<rparr>"

definition new_tester :: HcclOpBaseTest where
  "new_tester = construct_HcclOpBaseTest zero_object"

lemmas tester_defs = new_tester_def construct_HcclOpBaseTest_def construct_HcclTest_def
  zero_object_def zero_data_def

text \<open>Statements that appear in many member functions.\<close>

definition say :: "string \<Rightarrow> 'a world_scheme cmd" where
  "say t = print (Text t)"

text \<open>\<open>printf(...); return r;\<close>\<close>

definition fail_with :: "string \<Rightarrow> int \<Rightarrow> 'a world_scheme cmd" where
  "fail_with t r s = Some (r, s\<lparr>printed := printed s @ [Text t]\<rparr>)"

lemma say_ok [ok_iff]: "say m s = Some (0, t) \<longleftrightarrow> t = s\<lparr>printed := printed s @ [Text m]\<rparr>"
  by (auto simp: say_def print_def assign_def)

lemma fail_with_ok [ok_iff]:
  "fail_with m r s = Some (0, t) \<longleftrightarrow> r = 0 \<and> t = s\<lparr>printed := printed s @ [Text m]\<rparr>"
  by (auto simp: fail_with_def)

lemma guard_if: "(if P then False else Q) \<longleftrightarrow> \<not> P \<and> Q"
  by simp

lemmas ok_stages = guard_if steps_ok skip_ok ret_ok assign_ok update_opt_ok when_do_ok if_else_ok
  with_state_ok ignore_ok say_ok fail_with_ok

end
