(* ===== verification/Cmd_Line.thy ===== *)
theory Cmd_Line
  imports Test_State Option_Text
begin

text \<open>
  The command line of a test (\<open>common/src/hccl_test_common.cc\<close>): the options, the checks on their
  values, the processes and devices, and the environment variables.  \<open>parse_cmd_line\<close> takes the
  options that \<open>getopt_long\<close> returns, with their arguments, and the arguments that remain; how they
  come from the command line is in \<open>Getopt\<close>.
\<close>

definition f64_le :: "u64 \<Rightarrow> u64 \<Rightarrow> bool" where
  "f64_le a b \<longleftrightarrow> f64_gt b a \<or> v_eq (f64_decode a) (f64_decode b)"

definition u64_of_int :: "int \<Rightarrow> u64" where "u64_of_int i = word_of_int i"

lemma unat_u64_of_int: "0 \<le> i \<Longrightarrow> i < 2 ^ 64 \<Longrightarrow> unat (u64_of_int i) = nat i"
  unfolding u64_of_int_def by (rule unat_word_of_int_small) simp_all

subsection \<open>Options\<close>

text \<open>\<open>std::string socVersion = aclrtGetSocName()\<close> with a null pointer is undefined.\<close>

definition print_help :: "api \<Rightarrow> 'a HcclTest_scheme cmd" where
  "print_help A s =
     (case soc_name A of
        None \<Rightarrow> None
      | Some soc \<Rightarrow>
          steps [say ''USAGE: ./test'',
                 when_do (\<lambda>_. IsSupport910_95 soc) (say ''[-a --accelerator]''),
                 say ''[-b -e -i -f -n -o -d -r -w -c -p -z -s -t -h]''] s)"

definition parse_opt :: "api \<Rightarrow> char \<Rightarrow> string \<Rightarrow> 'a HcclTest_scheme cmd" where
  "parse_opt A opt optarg =
     (if opt = CHR ''a'' then
        assign (\<lambda>s. s\<lparr>accelerator_config := get_accelerator_config_value_from_str optarg\<rparr>)
      else if opt = CHR ''b'' then
        update_opt (\<lambda>s. map_option (\<lambda>n. s\<lparr>data_parsed_begin := n\<rparr>) (parsesize optarg))
      else if opt = CHR ''e'' then
        update_opt (\<lambda>s. map_option (\<lambda>n. s\<lparr>data_parsed_end := n\<rparr>) (parsesize optarg))
      else if opt = CHR ''i'' then
        assign (\<lambda>s. s\<lparr>stepbytes_flag := stepbytes_flag s + 1, temp_step_bytes := strtol_alldigit optarg\<rparr>)
      else if opt = CHR ''f'' then
        assign (\<lambda>s. s\<lparr>stepfactor_flag := stepfactor_flag s + 1,
                      data := (data s)\<lparr>step_factor := f64_of_f32 (strtof optarg)\<rparr>\<rparr>)
      else if opt = CHR ''n'' then assign (\<lambda>s. s\<lparr>iters := to_s32 (strtol_alldigit optarg)\<rparr>)
      else if opt = CHR ''o'' then
        assign (\<lambda>s. s\<lparr>op_flag := op_flag s + 1, op_type := get_hccl_op_from_str optarg\<rparr>)
      else if opt = CHR ''d'' then assign (\<lambda>s. s\<lparr>dtype := get_hccl_dtype_from_str optarg\<rparr>)
      else if opt = CHR ''r'' then assign (\<lambda>s. s\<lparr>root_rank := to_s32 (strtol_alldigit optarg)\<rparr>)
      else if opt = CHR ''w'' then assign (\<lambda>s. s\<lparr>warmup_iters := to_s32 (strtol_alldigit optarg)\<rparr>)
      else if opt = CHR ''c'' then assign (\<lambda>s. s\<lparr>check := to_s32 (strtol_alldigit optarg)\<rparr>)
      else if opt = CHR ''p'' then
        assign (\<lambda>s. s\<lparr>npus := to_s32 (strtol_alldigit optarg), npus_flag := 1\<rparr>)
      else if opt = CHR ''z'' then
        update_opt (\<lambda>s. map_option (\<lambda>n. s\<lparr>enable_zero_copy := n \<noteq> 0\<rparr>) (stoi optarg))
      else if opt = CHR ''s'' then assign (\<lambda>s. s\<lparr>nslb_flag := 1\<rparr>)
      else if opt = CHR ''t'' then
        assign (\<lambda>s. s\<lparr>only_device_exec_time := to_s32 (strtol_alldigit optarg)\<rparr>)
      else if opt = CHR ''h'' then steps [print_help A, ret 1]
      else steps [say ''invalid option'', fail_with ''Try [-h --help] for more information.'' (- 1)])"

text \<open>
  The loop over \<open>getopt_long\<close>, then the arguments that are not options; a status that is not
  zero ends it.
\<close>

definition parse_cmd_line :: "api \<Rightarrow> (char \<times> string) list \<Rightarrow> string list \<Rightarrow> 'a HcclTest_scheme cmd" where
  "parse_cmd_line A opts rest =
     steps (map (\<lambda>(opt, optarg). parse_opt A opt optarg) opts @
       [when_do (\<lambda>_. rest \<noteq> []) (fail_with (''non-option ARGV-elements: '' @ concat rest) (- 1))])"

subsection \<open>Data sizes\<close>

text \<open>The part of \<open>check_data_count\<close> for tests whose data must be divisible by the ranks.\<close>

definition align_data :: "'a HcclTest_scheme \<Rightarrow> 'a HcclTest_scheme option" where
  "align_data s =
     (let rank = u64_of_int (rank_size s);
          floor_to = (\<lambda>x n. x div n * n :: u64)
      in case s32_mul (rank_size s) BUF_ALGIN_SIZE of
           None \<Rightarrow> None
         | Some aligned \<Rightarrow>
           let algin_size = u64_of_int aligned;
               min0 = (if min_bytes (data s) < rank then rank else min_bytes (data s));
               max0 = (if max_bytes (data s) < rank then rank else max_bytes (data s))
           in if rank = 0 \<or> (u64_of_int BUF_ALGIN_LINE < min0 \<and> algin_size = 0) then None
              else Some (s\<lparr>data := (data s)\<lparr>
                min_bytes := (if u64_of_int BUF_ALGIN_LINE < min0 then floor_to min0 algin_size
                              else floor_to min0 rank),
                max_bytes := floor_to max0 rank,
                step_bytes := floor_to (step_bytes (data s) + rank - 1) rank\<rparr>\<rparr>))"

definition set_step :: "'a HcclTest_scheme \<Rightarrow> 'a HcclTest_scheme" where
  "set_step s =
     (let d = data s; defaultStepFactor = 10 in
      if stepbytes_flag s \<noteq> 0 then s\<lparr>data := d\<lparr>step_bytes := u64_of_int (temp_step_bytes s)\<rparr>\<rparr>
      else if max_bytes d = min_bytes d then s\<lparr>data := d\<lparr>step_bytes := 1\<rparr>\<rparr>
      else if max_bytes d > min_bytes d then
        s\<lparr>data := d\<lparr>step_bytes := (max_bytes d - min_bytes d) div defaultStepFactor\<rparr>\<rparr>
      else s)"

definition check_data_count :: "'a HcclTest_scheme cmd" where
  "check_data_count =
     steps
      [when_do (\<lambda>s. data_parsed_begin s \<le> 0 \<or> data_parsed_end s \<le> 0)
         (fail_with ''invalid size specified for [-b,--minbytes] or [-e,--maxbytes]'' (- 1)),
       assign (\<lambda>s. s\<lparr>data := (data s)\<lparr>min_bytes := u64_of_int (data_parsed_begin s),
                                     max_bytes := u64_of_int (data_parsed_end s)\<rparr>\<rparr>),
       when_do (\<lambda>s. stepbytes_flag s \<noteq> 0 \<and> temp_step_bytes s < 0)
         (fail_with ''Error: [-i,--stepbytes] must be greater than or equal to 0.'' (- 1)),
       when_do (\<lambda>s. max_bytes (data s) < min_bytes (data s))
         (fail_with ''invalid option: maxbytes < minbytes'' (- 1)),
       assign set_step,
       when_do need_ranksize_alignment (update_opt align_data),
       when_do (\<lambda>s. stepfactor_flag s \<noteq> 0 \<and> f64_le (step_factor (data s)) (f64_of_int 1))
         (fail_with ''Error: [-f,--stepfactor] Must be greater than 1.0f'' (- 1)),
       when_do (\<lambda>s. stepfactor_flag s \<noteq> 0 \<and> stepbytes_flag s \<noteq> 0)
         (say ''Warning: [-f,--stepfactor] is enabled by default.'')]"

subsection \<open>The other checks\<close>

definition check_only_device_exec_time :: "'a HcclTest_scheme cmd" where
  "check_only_device_exec_time =
     steps
      [when_do (\<lambda>s. only_device_exec_time s \<noteq> 1 \<and> only_device_exec_time s \<noteq> 0)
         (fail_with ''Error: [-t,--onlydevicetime] is invalid'' (- 1)),
       when_do (\<lambda>s. only_device_exec_time s = 1 \<and> warmup_iters s > 100)
         (fail_with ''Error: [-w,--warmup_iters] is invalid, onlydevicetime is 1'' (- 1)),
       when_do (\<lambda>s. only_device_exec_time s = 1 \<and> iters s > 100)
         (fail_with ''Error: [-n,--iters] is invalid, onlydevicetime is 1'' (- 1)),
       when_do (\<lambda>s. only_device_exec_time s = 1 \<and> accelerator_config s = 2)
         (fail_with ''Error: [-a,--accelerator_config] is invalid, onlydevicetime is 1'' (- 1))]"

definition check_cmd_line :: "'a HcclTest_scheme cmd" where
  "check_cmd_line =
     steps
      [check_data_count,
       when_do (\<lambda>s. dtype s = - 1) (fail_with ''Error: [-d,--datatype] is invalid'' (- 1)),
       when_do (\<lambda>s. op_type s = - 1) (fail_with ''Error: [-o,--op] is invalid'' (- 1)),
       when_do (\<lambda>s. accelerator_config s = - 1)
         (fail_with ''Error: [-a,--accelerator_config] is invalid'' (- 1)),
       when_do (\<lambda>s. warmup_iters s < 0) (fail_with ''Error: [-w,--warmup_iters] is invalid'' (- 1)),
       when_do (\<lambda>s. iters s < 0) (fail_with ''Error: [-n,--iters] is invalid'' (- 1)),
       when_do (\<lambda>s. root_rank s \<ge> rank_size s \<or> root_rank s < 0)
         (fail_with ''Error: [-r,--root <root>] is invalid'' (- 1)),
       when_do (\<lambda>s. check s \<noteq> 1 \<and> check s \<noteq> 0) (fail_with ''Error: [-c,--check] is invalid'' (- 1)),
       when_do (\<lambda>s. dev_count s = 0) (fail_with ''Error: The number of device is 0.'' (- 1)),
       when_do (\<lambda>s. npus s < 1 \<or> (word_of_int (npus s) :: u32) > dev_count s)
         (fail_with ''Error: [-p,--npus <npus used for one node>] is invalid'' (- 1)),
       check_only_device_exec_time]"

subsection \<open>Processes and devices\<close>

text \<open>\<open>proc_rank % dev_ids.size()\<close> is computed in \<open>size_t\<close>; the loop picks that device.\<close>

definition pick_device :: "int \<Rightarrow> int list \<Rightarrow> u32 \<Rightarrow> u32" where
  "pick_device rank dev_ids old =
     (let dev_ids = sort dev_ids;
          local_rank = wrap_s 32 (int (unat (u64_of_int rank) mod length dev_ids))
      in if 0 \<le> local_rank \<and> local_rank < int (length dev_ids)
         then word_of_int (dev_ids ! nat local_rank) else old)"

definition get_mpi_proc :: "api \<Rightarrow> 'a HcclTest_scheme cmd" where
  "get_mpi_proc A =
     steps
      [ignore (call_value A (Os MpiCommSize) (\<lambda>n s. s\<lparr>proc_size := wrap_s 32 (int n)\<rparr>)),
       ignore (call_value A (Os MpiCommRank) (\<lambda>n s. s\<lparr>proc_rank := wrap_s 32 (int n)\<rparr>)),
       call_value A (Acl GetDeviceCount) (\<lambda>n s. s\<lparr>dev_count := of_nat n\<rparr>),
       when_do (\<lambda>s. npus_flag s = 0) (assign (\<lambda>s. s\<lparr>npus := wrap_s 32 (uint (dev_count s))\<rparr>)),
       assign (\<lambda>s. s\<lparr>rank_id := proc_rank s, rank_size := proc_size s\<rparr>),
       (case getenv A ''HCCL_TEST_USE_DEVS'' of
          Some devs \<Rightarrow> assign (\<lambda>s. s\<lparr>dev_id := pick_device (proc_rank s) (getAviDevs devs) (dev_id s)\<rparr>)
        | None \<Rightarrow>
            update_opt (\<lambda>s. if npus s = 0 then None
              else Some (s\<lparr>dev_id := word_of_int (c_mod (proc_rank s) (npus s))\<rparr>)))]"

subsection \<open>Environment variables\<close>

text \<open>\<open>for (index ...) if (!isdigit(env[index])) { printf(...); return -1; }\<close>\<close>

definition require_digits :: "string \<Rightarrow> string \<Rightarrow> 'a HcclTest_scheme cmd" where
  "require_digits env msg =
     when_do (\<lambda>_. all_digit_loop env 0 (sal_str_len env 2147483647) \<noteq> 0) (fail_with msg (- 1))"

definition get_env_resource :: "api \<Rightarrow> 'a HcclTest_scheme cmd" where
  "get_env_resource A =
     steps
      [(case getenv A ''HCCL_TEST_PROFILING'' of
          None \<Rightarrow> skip
        | Some profiling_env \<Rightarrow>
            steps
             [assign (\<lambda>s. s\<lparr>profiling_flag := atoi profiling_env\<rparr>),
              require_digits profiling_env ''Check whether HCCL_TEST_PROFILING is 0 or 1.'',
              when_do (\<lambda>s. profiling_flag s \<noteq> 0 \<and> profiling_flag s \<noteq> 1)
                (fail_with ''Check whether HCCL_TEST_PROFILING is 0 or 1.'' (- 1))]),
       (case getenv A ''HCCL_BUFFSIZE'' of
          None \<Rightarrow> assign (\<lambda>s. s\<lparr>hccl_buffsize := 200\<rparr>)
        | Some cclBuffSize_env \<Rightarrow>
            steps
             [assign (\<lambda>s. s\<lparr>hccl_buffsize := u64_of_int (atoi cclBuffSize_env)\<rparr>),
              require_digits cclBuffSize_env ''Check whether HCCL_BUFFSIZE is all digit.'',
              when_do (\<lambda>s. hccl_buffsize s = 0)
                (fail_with ''Check whether HCCL_BUFFSIZE is 0 or too big.'' (- 1)),
              when_do (\<lambda>s. only_device_exec_time s = 1 \<and> hccl_buffsize s \<le> 100)
                (steps [say ''Warning: -t is 1 but HCCL_BUFFSIZE <= 100MB , -t auto reset to 0!'',
                        assign (\<lambda>s. s\<lparr>only_device_exec_time := 0\<rparr>)])]),
       when_do (\<lambda>s. profiling_flag s = 1)
         (steps
           [ignore (call A (Acl (ProfInit
              (case getenv A ''HCCL_TEST_PROFILING_PATH'' of
                 Some path \<Rightarrow> path | None \<Rightarrow> ''/var/log/npu/profiling'')))),
            with_state (\<lambda>s. ignore (call_value A (Acl (ProfCreateConfig (dev_id s)))
                                      (\<lambda>n s. s\<lparr>profiling_config := n\<rparr>))),
            with_state (\<lambda>s. call A (Acl (ProfStart (profiling_config s))))])]"

definition set_env_resource :: "api \<Rightarrow> 'a HcclTest_scheme cmd" where
  "set_env_resource A =
     (case getenv A ''HCCL_OP_RETRY_ENABLE'' of
        Some _ \<Rightarrow> skip
      | None \<Rightarrow>
          (\<lambda>s. case call A (Os (Setenv ''HCCL_OP_RETRY_ENABLE'' ''L0:0, L1:0, L2:0'')) s of
             None \<Rightarrow> None
           | Some (r, s') \<Rightarrow>
               if r = - 1 then fail_with ''setenv HCCL_OP_RETRY_ENABLE failed'' (- 1) s' else Some (0, s')))"

definition release_env_resource :: "api \<Rightarrow> 'a HcclTest_scheme cmd" where
  "release_env_resource A =
     when_do (\<lambda>s. profiling_flag s = 1)
       (steps [with_state (\<lambda>s. call A (Acl (ProfStop (profiling_config s)))),
               ignore (call A (Acl ProfFinalize))])"

subsection \<open>What the size check leaves\<close>

lemmas handler_defs = cmd_defs fail_with_def say_def print_def

lemma floor_to_word:
  "n \<noteq> 0 \<Longrightarrow> unat (x div n * n :: u64) = unat x div unat n * unat n"
proof -
  assume "n \<noteq> 0"
  have "unat x div unat n * unat n \<le> unat x" by simp
  moreover have "unat x < 2 ^ LENGTH(64)" using unat_lt_64 [of x] by simp
  ultimately have "unat x div unat n * unat n < 2 ^ LENGTH(64)" by (rule le_less_trans)
  then show ?thesis by (simp add: unat_mult_small unat_div)
qed

lemma floor_mono_dvd:
  fixes a b c d :: nat
  assumes "b dvd c" "0 < b" "0 < c" "a \<le> d"
  shows "a div c * c \<le> d div b * b"
proof -
  obtain k where k: "c = b * k" using assms(1) by (auto simp: dvd_def)
  have "a div c * c \<le> d" using assms(4) by (meson div_times_less_eq_dividend le_trans)
  then have "a div c * k * b \<le> d" by (simp add: k mult.assoc mult.commute [of k])
  then have "a div c * k \<le> d div b" using assms(2) by (simp add: less_eq_div_iff_mult_less_eq)
  then show ?thesis using k by (metis mult.assoc mult.commute mult_le_mono1)
qed

text \<open>The rank alignment keeps the order of the two sizes and makes both multiples of the ranks.\<close>

lemma align_data_bounds:
  assumes al: "align_data s = Some s'" and r: "1 \<le> rank_size s" "rank_size s < 2147483648"
    and le: "min_bytes (data s) \<le> max_bytes (data s)"
  shows "min_bytes (data s') \<le> max_bytes (data s')"
    and "nat (rank_size s) dvd unat (min_bytes (data s'))"
    and "nat (rank_size s) dvd unat (max_bytes (data s'))"
    and "rank_size s \<le> 32768 \<Longrightarrow> min_bytes (data s') \<noteq> 0"
proof -
  define R where "R = nat (rank_size s)"
  have R: "0 < R" "R < 2147483648" using r by (auto simp: R_def)
  have ur: "unat (u64_of_int (rank_size s)) = R"
    using r by (simp add: unat_u64_of_int R_def)
  obtain a where a: "s32_mul (rank_size s) BUF_ALGIN_SIZE = Some a"
    using al by (cases "s32_mul (rank_size s) BUF_ALGIN_SIZE") (simp_all add: align_data_def Let_def)
  then have a': "a = rank_size s * 512" "a < 2147483648"
    by (auto simp: s32_mul_def BUF_ALGIN_SIZE_def in_s_def split: if_splits)
  then have ua: "unat (u64_of_int a) = R * 512"
    using r by (simp add: unat_u64_of_int R_def nat_mult_distrib)
  have ul: "unat (u64_of_int BUF_ALGIN_LINE) = 16777216"
    by (simp add: unat_u64_of_int BUF_ALGIN_LINE_def)
  define mi ma where "mi = max (unat (min_bytes (data s))) R" and "ma = max (unat (max_bytes (data s))) R"
  have mm: "mi \<le> ma" using le by (simp add: mi_def ma_def word_le_nat_alt)
  have cond: "unat (if x < u64_of_int (rank_size s) then u64_of_int (rank_size s) else x) = max (unat x) R" for x
    by (simp add: word_less_nat_alt ur)
  have nz: "u64_of_int (rank_size s) \<noteq> 0" "u64_of_int a \<noteq> 0"
    using ur ua R(1) by (metis unat_0 less_not_refl, metis unat_0 mult_is_0 less_not_refl zero_neq_numeral)
  have eq: "unat (min_bytes (data s')) = (if 16777216 < mi then mi div (R * 512) * (R * 512) else mi div R * R)"
      "unat (max_bytes (data s')) = ma div R * R"
    using al a nz
    by (auto simp: align_data_def Let_def floor_to_word word_less_nat_alt ul ua ur mi_def ma_def cond
        split: if_splits)
  show "min_bytes (data s') \<le> max_bytes (data s')"
    unfolding word_le_nat_alt eq using floor_mono_dvd [of R "R * 512" mi ma] floor_mono_dvd [of R R mi ma] R(1) mm
    by simp
  show "nat (rank_size s) dvd unat (min_bytes (data s'))" unfolding eq R_def [symmetric]
    by (simp add: dvd_mult mult.assoc [symmetric])
  show "nat (rank_size s) dvd unat (max_bytes (data s'))" unfolding eq R_def [symmetric] by simp
  show "min_bytes (data s') \<noteq> 0" if "rank_size s \<le> 32768"
  proof
    assume "min_bytes (data s') = 0"
    then have z: "unat (min_bytes (data s')) = 0" by simp
    have "R * 512 \<le> 16777216" using that r by (simp add: R_def nat_le_iff)
    then have "16777216 < mi \<Longrightarrow> 0 < mi div (R * 512)"
      using R(1) by (simp add: div_greater_zero_iff)
    moreover have "0 < mi div R" using R(1) by (simp add: div_greater_zero_iff mi_def)
    ultimately show False using z R(1) unfolding eq by (auto split: if_splits)
  qed
qed

lemma check_data_count_stages:
  assumes "check_data_count s = Some (0, s')"
  obtains t u where
    "0 < data_parsed_begin s" "0 < data_parsed_end s"
    "t = set_step (s\<lparr>data := (data s)\<lparr>min_bytes := u64_of_int (data_parsed_begin s),
                                     max_bytes := u64_of_int (data_parsed_end s)\<rparr>\<rparr>)"
    "u64_of_int (data_parsed_begin s) \<le> u64_of_int (data_parsed_end s)"
    "need_ranksize_alignment s \<Longrightarrow> align_data t = Some u" "\<not> need_ranksize_alignment s \<Longrightarrow> u = t"
    "stepfactor_flag s \<noteq> 0 \<Longrightarrow> \<not> f64_le (step_factor (data u)) (f64_of_int 1)"
    "data s' = data u"
proof -
  define s1 where "s1 = s\<lparr>data := (data s)\<lparr>min_bytes := u64_of_int (data_parsed_begin s),
                                     max_bytes := u64_of_int (data_parsed_end s)\<rparr>\<rparr>"
  have flags: "need_ranksize_alignment (set_step s1) = need_ranksize_alignment s"
      "stepfactor_flag (set_step s1) = stepfactor_flag s"
    by (simp_all add: set_step_def s1_def Let_def)
  have al: "align_data x = Some y \<Longrightarrow> stepfactor_flag y = stepfactor_flag x" for x y :: "'a HcclTest_scheme"
    by (auto simp: align_data_def Let_def split: option.splits if_splits)
  from assms show thesis
    unfolding check_data_count_def
    by (simp add: ok_stages cong: if_cong, elim exE conjE,
        intro that [of "set_step s1" "if need_ranksize_alignment s then the (align_data (set_step s1))
          else set_step s1"])
      (auto simp: s1_def [symmetric] flags not_less split: if_splits dest: al)
qed

text \<open>
  C26.  A size specification that \<open>check_data_count\<close> accepts is usable: the smallest size does not
  exceed the largest; without rank alignment they are the two given sizes, both positive; with
  it both are multiples of the number of ranks, and the smallest is positive for up to 32768
  ranks; a step factor the user gave is above one.
\<close>
theorem check_data_count_sizes:
  assumes "check_data_count s = Some (0, s')"
    and "1 \<le> rank_size s" "rank_size s < 2147483648"
    and "data_parsed_begin s < 2 ^ 63" "data_parsed_end s < 2 ^ 63"
  shows "min_bytes (data s') \<le> max_bytes (data s')
    \<and> (stepfactor_flag s \<noteq> 0 \<longrightarrow> \<not> f64_le (step_factor (data s')) (f64_of_int 1))
    \<and> (if need_ranksize_alignment s
       then nat (rank_size s) dvd unat (min_bytes (data s')) \<and> nat (rank_size s) dvd unat (max_bytes (data s'))
         \<and> (rank_size s \<le> 32768 \<longrightarrow> min_bytes (data s') \<noteq> 0)
       else int (unat (min_bytes (data s'))) = data_parsed_begin s
         \<and> int (unat (max_bytes (data s'))) = data_parsed_end s
         \<and> 0 < data_parsed_begin s)"
proof -
  obtain t u where st: "0 < data_parsed_begin s" "0 < data_parsed_end s"
      "t = set_step (s\<lparr>data := (data s)\<lparr>min_bytes := u64_of_int (data_parsed_begin s),
                                     max_bytes := u64_of_int (data_parsed_end s)\<rparr>\<rparr>)"
      "u64_of_int (data_parsed_begin s) \<le> u64_of_int (data_parsed_end s)"
      "need_ranksize_alignment s \<Longrightarrow> align_data t = Some u" "\<not> need_ranksize_alignment s \<Longrightarrow> u = t"
      "stepfactor_flag s \<noteq> 0 \<Longrightarrow> \<not> f64_le (step_factor (data u)) (f64_of_int 1)"
      "data s' = data u"
    using check_data_count_stages [OF assms(1)] by blast
  have t: "min_bytes (data t) = u64_of_int (data_parsed_begin s)"
      "max_bytes (data t) = u64_of_int (data_parsed_end s)" "rank_size t = rank_size s"
    by (simp_all add: st(3) set_step_def Let_def)
  show ?thesis
  proof (cases "need_ranksize_alignment s")
    case True
    from align_data_bounds [OF st(5) [OF True]] assms(2,3) st(4) t
    show ?thesis using True st(7) unfolding st(8) by simp
  next
    case False
    have "unat (u64_of_int (data_parsed_begin s)) = nat (data_parsed_begin s)"
      "unat (u64_of_int (data_parsed_end s)) = nat (data_parsed_end s)"
      using st(1,2) assms(4,5) by (simp_all add: unat_u64_of_int)
    with st(6) [OF False] t st(1,2,4,7) False show ?thesis unfolding st(8) by simp
  qed
qed

text \<open>
  Without \<open>-i\<close>, two different sizes less than ten bytes apart are accepted with a step of zero
  bytes, although the code sets a step of one for equal sizes ``to avoid an endless loop''.
\<close>
theorem default_step_may_be_zero:
  assumes "check_data_count s = Some (0, s')" and "stepbytes_flag s = 0" "\<not> need_ranksize_alignment s"
    and "data_parsed_begin s < data_parsed_end s" "data_parsed_end s < 2 ^ 63"
  shows "step_bytes (data s') = 0 \<longleftrightarrow> data_parsed_end s - data_parsed_begin s < 10"
proof -
  obtain t u where st: "0 < data_parsed_begin s" "0 < data_parsed_end s"
      "t = set_step (s\<lparr>data := (data s)\<lparr>min_bytes := u64_of_int (data_parsed_begin s),
                                     max_bytes := u64_of_int (data_parsed_end s)\<rparr>\<rparr>)"
      "u64_of_int (data_parsed_begin s) \<le> u64_of_int (data_parsed_end s)"
      "need_ranksize_alignment s \<Longrightarrow> align_data t = Some u" "\<not> need_ranksize_alignment s \<Longrightarrow> u = t"
      "stepfactor_flag s \<noteq> 0 \<Longrightarrow> \<not> f64_le (step_factor (data u)) (f64_of_int 1)"
      "data s' = data u"
    using check_data_count_stages [OF assms(1)] by blast
  have u: "unat (u64_of_int (data_parsed_begin s)) = nat (data_parsed_begin s)"
    "unat (u64_of_int (data_parsed_end s)) = nat (data_parsed_end s)"
    using st(1) assms(4,5) by (simp_all add: unat_u64_of_int)
  have lt: "u64_of_int (data_parsed_begin s) < u64_of_int (data_parsed_end s)"
    unfolding word_less_nat_alt u using assms(4) st(1) by simp
  have sb: "step_bytes (data s') = (u64_of_int (data_parsed_end s) - u64_of_int (data_parsed_begin s)) div 10"
    using st(6) assms(2,3) lt unfolding st(8) st(3) by (simp add: set_step_def Let_def)
  have "unat ((u64_of_int (data_parsed_end s) - u64_of_int (data_parsed_begin s)) div 10) =
      (nat (data_parsed_end s) - nat (data_parsed_begin s)) div 10"
    using st(4) by (simp add: unat_div unat_sub_small u)
  then have "step_bytes (data s') = 0 \<longleftrightarrow> (nat (data_parsed_end s) - nat (data_parsed_begin s)) div 10 = 0"
    unfolding sb by (simp only: unat_eq_0 [symmetric])
  also have "\<dots> \<longleftrightarrow> nat (data_parsed_end s) - nat (data_parsed_begin s) < 10"
    by (simp only: div_eq_0_iff) simp
  also have "\<dots> \<longleftrightarrow> data_parsed_end s - data_parsed_begin s < 10" using st(1) assms(4) by linarith
  finally show ?thesis .
qed

definition sized_tester :: "int \<Rightarrow> int \<Rightarrow> bool \<Rightarrow> int \<Rightarrow> HcclOpBaseTest" where
  "sized_tester b e al ranks =
     new_tester\<lparr>data_parsed_begin := b, data_parsed_end := e, need_ranksize_alignment := al,
       rank_size := ranks\<rparr>"

lemma u64_of_int_numeral [simp]: "u64_of_int (numeral k) = numeral k" "u64_of_int 1 = 1"
  by (simp_all add: u64_of_int_def)

lemma check_data_count_sizes_witness:
  "\<exists>s'. check_data_count (sized_tester 100 1000 True 8) = Some (0, s')
     \<and> 8 dvd unat (min_bytes (data s')) \<and> min_bytes (data s') \<noteq> 0"
proof -
  obtain s' where s': "check_data_count (sized_tester 100 1000 True 8) = Some (0, s')"
    by (simp add: check_data_count_def ok_stages sized_tester_def tester_defs set_step_def align_data_def
        s32_mul_def in_s_def BUF_ALGIN_SIZE_def BUF_ALGIN_LINE_def Let_def cmd_defs)
  from check_data_count_sizes [OF this] s' show ?thesis
    by (auto simp: sized_tester_def)
qed

lemma default_step_may_be_zero_witness:
  "\<exists>s'. check_data_count (sized_tester 100 105 False 8) = Some (0, s') \<and> step_bytes (data s') = 0"
proof -
  obtain s' where s': "check_data_count (sized_tester 100 105 False 8) = Some (0, s')"
    by (simp add: check_data_count_def ok_stages sized_tester_def tester_defs set_step_def Let_def cmd_defs)
  from default_step_may_be_zero [OF this] s' show ?thesis
    by (auto simp: sized_tester_def tester_defs)
qed

subsection \<open>The other checks, and the device of a process\<close>

definition valid_options :: "'a HcclTest_scheme \<Rightarrow> bool" where
  "valid_options s \<longleftrightarrow>
     dtype s \<noteq> - 1 \<and> op_type s \<noteq> - 1 \<and> accelerator_config s \<noteq> - 1 \<and>
     0 \<le> warmup_iters s \<and> 0 \<le> iters s \<and> 0 \<le> root_rank s \<and> root_rank s < rank_size s \<and>
     check s \<in> {0, 1} \<and> 1 \<le> npus s \<and> npus s \<le> uint (dev_count s) \<and>
     only_device_exec_time s \<in> {0, 1} \<and>
     (only_device_exec_time s = 1 \<longrightarrow>
        warmup_iters s \<le> 100 \<and> iters s \<le> 100 \<and> accelerator_config s \<noteq> 2)"

lemma npus_compare:
  assumes "in_s 32 n"
  shows "\<not> (n < 1 \<or> d < (word_of_int n :: u32)) \<longleftrightarrow> 1 \<le> n \<and> n \<le> uint d"
proof (cases "n < 1")
  case False
  then have "uint (word_of_int n :: u32) = n"
    using assms by (simp add: in_s_def unsigned_of_int take_bit_eq_mod)
  then show ?thesis using False by (simp add: word_less_def not_less)
qed simp

lemma set_step_npus: "npus (set_step s) = npus s"
  by (simp add: set_step_def Let_def)

lemma align_data_npus: "align_data s = Some t \<Longrightarrow> npus t = npus s"
  by (auto simp: align_data_def Let_def split: option.splits if_splits)

text \<open>
  C35.  \<open>check_cmd_line\<close> accepts exactly when the sizes are accepted and every option is in its
  range; it changes nothing but the sizes.
\<close>
theorem check_cmd_line_accepts_iff:
  assumes "in_s 32 (npus s)"
  shows "check_cmd_line s = Some (0, s') \<longleftrightarrow> check_data_count s = Some (0, s') \<and> valid_options s'"
proof -
  have keep: "check_data_count s = Some (0, t) \<Longrightarrow> npus t = npus s" for t
    unfolding check_data_count_def
    by (auto simp: ok_stages set_step_npus cong: if_cong split: if_splits dest: align_data_npus)
  have n: "check_data_count s = Some (0, t) \<Longrightarrow>
      (\<not> npus t < 1 \<and> \<not> dev_count t < word_of_int (npus t)) \<longleftrightarrow> 1 \<le> npus t \<and> npus t \<le> uint (dev_count t)" for t
    using npus_compare [of "npus t" "dev_count t"] assms keep by simp
  have d: "1 \<le> npus s' \<Longrightarrow> npus s' \<le> uint (dev_count s') \<Longrightarrow> dev_count s' \<noteq> 0" by auto
  show ?thesis
    unfolding check_cmd_line_def check_only_device_exec_time_def valid_options_def
    by (simp add: ok_stages cong: if_cong) (use n [of s'] d in \<open>auto simp: not_less not_le\<close>)
qed

lemma check_cmd_line_accepts_iff_witness:
  "check_cmd_line (sized_tester 100 105 False 8) \<noteq> Some (0, zero_object)"
  using check_cmd_line_accepts_iff [of "sized_tester 100 105 False 8" zero_object]
  by (simp add: sized_tester_def tester_defs valid_options_def in_s_def)

lemma invoke_cases:
  "invoke A c f s = Some (r, t) \<Longrightarrow>
     (r = status A (call_log s) c \<and> r \<noteq> 0 \<and> t = logged c s) \<or>
     (r = 0 \<and> status A (call_log s) c = 0 \<and> (\<exists>u. f s = Some u \<and> t = logged c u))"
  by (auto simp: invoke_def Let_def split: if_splits)

text \<open>
  After \<open>get_mpi_proc\<close> has succeeded a process with a non-negative rank below the number of
  processes has its rank and, without \<open>HCCL_TEST_USE_DEVS\<close>, the device \<open>rank mod npus\<close>; with it,
  the device at position \<open>rank mod n\<close> of the \<open>n\<close> listed devices in ascending order.
\<close>
theorem get_mpi_proc_device:
  assumes "get_mpi_proc A s = Some (0, s')" and "0 \<le> proc_rank s'" "proc_rank s' < 2147483648"
    and "0 \<le> npus s'" and "\<And>devs. getenv A ''HCCL_TEST_USE_DEVS'' = Some devs \<Longrightarrow> length devs < 2147483647"
  shows "rank_id s' = proc_rank s' \<and> rank_size s' = proc_size s' \<and>
    (case getenv A ''HCCL_TEST_USE_DEVS'' of
       None \<Rightarrow> 0 < npus s' \<and> dev_id s' = word_of_int (proc_rank s' mod npus s')
     | Some devs \<Rightarrow> dev_id s' = word_of_int
         (sort (getAviDevs devs) ! (nat (proc_rank s') mod length (getAviDevs devs))))"
proof -
  have pick: "pick_device r ids old = word_of_int (sort ids ! (nat r mod length ids))"
    if "0 \<le> r" "r < 2147483648" "0 < length ids" "length ids \<le> 2147483647" for r ids old
  proof -
    have u: "unat (u64_of_int r) = nat r" using that by (simp add: unat_u64_of_int)
    have lt: "nat r mod length ids < length ids" using that(3) by simp
    then have "wrap_s 32 (int (nat r mod length ids)) = int (nat r mod length ids)"
      using that(4) by (intro wrap_s_id) (simp_all add: in_s_def)
    with lt show ?thesis by (simp add: pick_device_def Let_def u)
  qed
  show ?thesis
  proof (cases "getenv A ''HCCL_TEST_USE_DEVS''")
    case None
    obtain u where "npus u \<noteq> 0" and s': "s' = u\<lparr>rank_id := proc_rank u, rank_size := proc_size u,
        dev_id := word_of_int (c_mod (proc_rank u) (npus u))\<rparr>"
      using assms(1) None that unfolding get_mpi_proc_def
      by (simp add: ok_stages cong: if_cong) (metis (no_types, lifting) option.distinct(1) option.inject)
    then have "0 < npus s' \<and> dev_id s' = word_of_int (c_mod (proc_rank s') (npus s')) \<and>
        rank_id s' = proc_rank s' \<and> rank_size s' = proc_size s'"
      using assms(4) by simp
    with None assms(2) show ?thesis by (simp add: c_mod_nonneg)
  next
    case (Some devs)
    have "\<exists>u. s' = u\<lparr>rank_id := proc_rank u, rank_size := proc_size u,
        dev_id := pick_device (proc_rank u) (getAviDevs devs) (dev_id u)\<rparr>"
      using assms(1) Some unfolding get_mpi_proc_def
      by (simp add: ok_stages cong: if_cong) (elim exE conjE, rule exI, erule sym)
    then obtain u where s': "s' = u\<lparr>rank_id := proc_rank u, rank_size := proc_size u,
        dev_id := pick_device (proc_rank u) (getAviDevs devs) (dev_id u)\<rparr>" ..
    then have "dev_id s' = pick_device (proc_rank s') (getAviDevs devs) (dev_id u) \<and>
        rank_id s' = proc_rank s' \<and> rank_size s' = proc_size s'" by simp
    with pick [OF assms(2,3)] length_getAviDevs [of devs] assms(5) [OF Some] Some
    show ?thesis by simp
  qed
qed

definition mpi_values :: "nat \<Rightarrow> nat \<Rightarrow> nat \<Rightarrow> call list \<Rightarrow> call \<Rightarrow> nat" where
  "mpi_values ranks rank devices log c =
     (if c = Os MpiCommSize then ranks else if c = Os MpiCommRank then rank
      else if c = Acl GetDeviceCount then devices else 0)"

lemma get_mpi_proc_device_witness:
  "\<exists>s'. get_mpi_proc (ideal_api (mpi_values 16 11 8)) new_tester = Some (0, s') \<and> dev_id s' = 3"
proof -
  let ?A = "ideal_api (mpi_values 16 11 8)"
  have "\<exists>s'. get_mpi_proc ?A new_tester = Some (0, s') \<and> proc_rank s' = 11 \<and> npus s' = 8"
    by (simp add: get_mpi_proc_def cmd_defs call_value_def invoke_def logged_def Let_def ideal_api_def
        mpi_values_def tester_defs wrap_s_def c_mod_nonneg)
  then obtain s' where s': "get_mpi_proc ?A new_tester = Some (0, s')" "proc_rank s' = 11" "npus s' = 8"
    by blast
  from get_mpi_proc_device [OF s'(1)] s' show ?thesis by (simp add: ideal_api_def)
qed

text \<open>
  Without \<open>HCCL_TEST_USE_DEVS\<close> the modulus is taken before the number of devices is checked:
  with \<open>-p 0\<close>, or when no device is found, \<open>get_mpi_proc\<close> divides by zero although \<open>check_cmd_line\<close>
  has an error message for both cases.
\<close>
theorem get_mpi_proc_divides_by_zero:
  assumes "getenv A ''HCCL_TEST_USE_DEVS'' = None" and "\<And>log c. status A log c = 0"
    and "(if npus_flag s = 0 then of_nat (delivered A (Os MpiCommRank # Os MpiCommSize # call_log s)
           (Acl GetDeviceCount)) = (0 :: u32) else npus s = 0)"
  shows "get_mpi_proc A s = None"
  using assms unfolding get_mpi_proc_def
  by (auto simp: cmd_defs call_value_def invoke_def logged_def Let_def wrap_s_def split: if_splits)

lemma get_mpi_proc_divides_by_zero_witness:
  "get_mpi_proc (ideal_api (mpi_values 16 11 0)) new_tester = None"
  by (rule get_mpi_proc_divides_by_zero) (simp_all add: ideal_api_def mpi_values_def tester_defs)

subsection \<open>Buffer size and device timing\<close>

text \<open>
  \<open>get_env_resource\<close> accepts a value of \<open>HCCL_BUFFSIZE\<close> only when it consists of digits and its
  number is not zero; the number becomes the buffer size, and device timing is switched off for
  a buffer of at most 100 MB.
\<close>
theorem get_env_resource_buffer:
  assumes "get_env_resource A s = Some (0, s')" and "getenv A ''HCCL_BUFFSIZE'' = Some v"
    and "length v \<le> 2147483647"
  shows "(\<forall>c \<in> set v. isdigit c) \<and> hccl_buffsize s' = u64_of_int (atoi v) \<and> hccl_buffsize s' \<noteq> 0
    \<and> only_device_exec_time s' =
        (if only_device_exec_time s = 1 \<and> u64_of_int (atoi v) \<le> 100 then 0 else only_device_exec_time s)"
proof -
  define prof where "prof = (case getenv A ''HCCL_TEST_PROFILING'' of None \<Rightarrow> skip
        | Some profiling_env \<Rightarrow>
            steps
             [assign (\<lambda>s. s\<lparr>profiling_flag := atoi profiling_env\<rparr>),
              require_digits profiling_env ''Check whether HCCL_TEST_PROFILING is 0 or 1.'',
              when_do (\<lambda>s :: 'a HcclTest_scheme. profiling_flag s \<noteq> 0 \<and> profiling_flag s \<noteq> 1)
                (fail_with ''Check whether HCCL_TEST_PROFILING is 0 or 1.'' (- 1))])"
  have prof: "prof s = Some (0, t) \<Longrightarrow> only_device_exec_time t = only_device_exec_time s" for t
    unfolding prof_def
    by (auto simp: require_digits_def ok_stages cong: if_cong split: option.splits if_splits)
  have digits: "all_digit_loop v 0 (sal_str_len v 2147483647) \<noteq> 0 \<longleftrightarrow> \<not> (\<forall>c \<in> set v. isdigit c)"
    using assms(3) by (simp add: all_digit_loop_iff sal_str_len_def)
  obtain t where t: "prof s = Some (0, t)" and rest: "steps
       [steps
             [assign (\<lambda>s. s\<lparr>hccl_buffsize := u64_of_int (atoi v)\<rparr>),
              require_digits v ''Check whether HCCL_BUFFSIZE is all digit.'',
              when_do (\<lambda>s. hccl_buffsize s = 0)
                (fail_with ''Check whether HCCL_BUFFSIZE is 0 or too big.'' (- 1)),
              when_do (\<lambda>s. only_device_exec_time s = 1 \<and> hccl_buffsize s \<le> 100)
                (steps [say ''Warning: -t is 1 but HCCL_BUFFSIZE <= 100MB , -t auto reset to 0!'',
                        assign (\<lambda>s. s\<lparr>only_device_exec_time := 0\<rparr>)])],
       when_do (\<lambda>s. profiling_flag s = 1)
         (steps
           [ignore (call A (Acl (ProfInit
              (case getenv A ''HCCL_TEST_PROFILING_PATH'' of
                 Some path \<Rightarrow> path | None \<Rightarrow> ''/var/log/npu/profiling'')))),
            with_state (\<lambda>s. ignore (call_value A (Acl (ProfCreateConfig (dev_id s)))
                                      (\<lambda>n s. s\<lparr>profiling_config := n\<rparr>))),
            with_state (\<lambda>s. call A (Acl (ProfStart (profiling_config s))))])] t = Some (0, s')"
    using assms(1,2) unfolding get_env_resource_def by (simp only: steps_ok option.case prof_def) blast
  have tail: "only_device_exec_time s' = only_device_exec_time w \<and> hccl_buffsize s' = hccl_buffsize w"
    if "when_do (\<lambda>s. profiling_flag s = 1)
         (steps
           [ignore (call A (Acl (ProfInit p))),
            with_state (\<lambda>s. ignore (call_value A (Acl (ProfCreateConfig (dev_id s)))
                                      (\<lambda>n s. s\<lparr>profiling_config := n\<rparr>))),
            with_state (\<lambda>s. call A (Acl (ProfStart (profiling_config s))))]) w = Some (0, s')" for w p
    using that
    by (auto simp: ok_stages call_def call_value_def logged_def dest!: invoke_cases split: if_splits)
  obtain u where u: "steps
             [assign (\<lambda>s. s\<lparr>hccl_buffsize := u64_of_int (atoi v)\<rparr>),
              require_digits v ''Check whether HCCL_BUFFSIZE is all digit.'',
              when_do (\<lambda>s. hccl_buffsize s = 0)
                (fail_with ''Check whether HCCL_BUFFSIZE is 0 or too big.'' (- 1)),
              when_do (\<lambda>s. only_device_exec_time s = 1 \<and> hccl_buffsize s \<le> 100)
                (steps [say ''Warning: -t is 1 but HCCL_BUFFSIZE <= 100MB , -t auto reset to 0!'',
                        assign (\<lambda>s. s\<lparr>only_device_exec_time := 0\<rparr>)])] t = Some (0, u)"
    and last: "when_do (\<lambda>s. profiling_flag s = 1)
         (steps
           [ignore (call A (Acl (ProfInit
              (case getenv A ''HCCL_TEST_PROFILING_PATH'' of
                 Some path \<Rightarrow> path | None \<Rightarrow> ''/var/log/npu/profiling'')))),
            with_state (\<lambda>s. ignore (call_value A (Acl (ProfCreateConfig (dev_id s)))
                                      (\<lambda>n s. s\<lparr>profiling_config := n\<rparr>))),
            with_state (\<lambda>s. call A (Acl (ProfStart (profiling_config s))))]) u = Some (0, s')"
    using steps_ok(2) [THEN iffD1, OF rest] by (elim exE conjE) (drule steps_ok(2) [THEN iffD1], elim exE conjE, simp only: steps_ok(1) simp_thms)
  note w = tail [OF last]
  from u show ?thesis
    using prof [OF t] digits unfolding w [THEN conjunct1] w [THEN conjunct2]
    by (auto simp: ok_stages require_digits_def cong: if_cong split: if_splits)
qed

lemma get_env_resource_buffer_witness:
  "\<exists>s'. get_env_resource ((ideal_api (\<lambda>_ _. 0))\<lparr>getenv := [''HCCL_BUFFSIZE'' \<mapsto> ''64'']\<rparr>)
          (new_tester\<lparr>only_device_exec_time := 1\<rparr>) = Some (0, s')
     \<and> hccl_buffsize s' = 64 \<and> only_device_exec_time s' = 0"
proof -
  let ?A = "(ideal_api (\<lambda>_ _. 0))\<lparr>getenv := [''HCCL_BUFFSIZE'' \<mapsto> ''64'']\<rparr>"
  have v: "atoi ''64'' = 64" by code_simp
  have d: "all_digit_loop ''64'' 0 (sal_str_len ''64'' 2147483647) = 0"
    by (simp add: all_digit_loop_iff sal_str_len_def isdigit_def ord_def)
  have g: "getenv ?A ''HCCL_TEST_PROFILING'' = None" "getenv ?A ''HCCL_BUFFSIZE'' = Some ''64''"
    by simp_all
  have t: "profiling_flag (new_tester\<lparr>only_device_exec_time := 1\<rparr>) = 0"
    "only_device_exec_time (new_tester\<lparr>only_device_exec_time := 1\<rparr>) = 1"
    by (simp_all add: tester_defs)
  obtain s' where s': "get_env_resource ?A (new_tester\<lparr>only_device_exec_time := 1\<rparr>) = Some (0, s')"
    using t by (simp add: get_env_resource_def ok_stages require_digits_def v d g cong: if_cong)
  from get_env_resource_buffer [OF this] s' show ?thesis by (simp add: v)
qed

end
