(* ===== verification/Command_Logic.thy ===== *)
theory Command_Logic
  imports World
begin

text \<open>
  Reasoning about commands: a small Hoare logic with an exit invariant, and the invariants that
  no call of the outside world can break (locale \<open>world_frame\<close>).
\<close>

subsection \<open>Triples\<close>

text \<open>
  \<open>leads I P c Q\<close>: started in \<open>P\<close>, every result of \<open>c\<close> satisfies \<open>I\<close>, and \<open>Q\<close> too if the status is
  \<open>0\<close>.  So \<open>I\<close> is what an early return leaves.
\<close>

definition leads :: "('s \<Rightarrow> bool) \<Rightarrow> ('s \<Rightarrow> bool) \<Rightarrow> 's cmd \<Rightarrow> ('s \<Rightarrow> bool) \<Rightarrow> bool" where
  "leads I P c Q \<longleftrightarrow> (\<forall>s r s'. P s \<longrightarrow> c s = Some (r, s') \<longrightarrow> I s' \<and> (r = 0 \<longrightarrow> Q s'))"

named_theorems leads_intros "rules for \<open>leads\<close>"

lemma leadsI: "(\<And>s r s'. P s \<Longrightarrow> c s = Some (r, s') \<Longrightarrow> I s' \<and> (r = 0 \<longrightarrow> Q s')) \<Longrightarrow> leads I P c Q"
  by (simp add: leads_def)

lemma leadsD: "leads I P c Q \<Longrightarrow> P s \<Longrightarrow> c s = Some (r, s') \<Longrightarrow> I s' \<and> (r = 0 \<longrightarrow> Q s')"
  by (auto simp: leads_def)

lemma leads_Nil: "(\<And>s. P s \<Longrightarrow> I s \<and> Q s) \<Longrightarrow> leads I P (steps []) Q"
  by (simp add: leads_def)

lemma leads_Cons:
  assumes c: "leads I P c R" and cs: "leads I R (steps cs) Q"
  shows "leads I P (steps (c # cs)) Q"
proof (rule leadsI)
  fix s r s' assume "P s" and eq: "steps (c # cs) s = Some (r, s')"
  then obtain r1 s1 where 1: "c s = Some (r1, s1)" by (auto simp: steps.simps split: option.splits)
  from leadsD [OF c \<open>P s\<close> 1] eq 1 cs show "I s' \<and> (r = 0 \<longrightarrow> Q s')"
    by (auto simp: steps.simps leads_def split: if_splits)
qed

lemma leads_when:
  "leads I (\<lambda>s. P s \<and> b s) c Q \<Longrightarrow> (\<And>s. P s \<Longrightarrow> \<not> b s \<Longrightarrow> I s \<and> Q s) \<Longrightarrow> leads I P (when_do b c) Q"
  by (auto simp: leads_def when_do_def split: if_splits)

lemma leads_if_else:
  "leads I (\<lambda>s. P s \<and> b s) c Q \<Longrightarrow> leads I (\<lambda>s. P s \<and> \<not> b s) d Q \<Longrightarrow> leads I P (if_else b c d) Q"
  by (auto simp: leads_def if_else_def split: if_splits)

lemma leads_with_state: "(\<And>x. leads I P (c x) Q) \<Longrightarrow> leads I P (with_state c) Q"
  by (auto simp: leads_def with_state_def)

lemma leads_keep: "preserves P c \<Longrightarrow> (\<And>s. P s \<Longrightarrow> I s) \<Longrightarrow> leads I P c P"
  unfolding leads_def preserves_def by blast

lemma leads_weaken:
  "leads I P' c Q' \<Longrightarrow> (\<And>s. P s \<Longrightarrow> P' s) \<Longrightarrow> (\<And>s. Q' s \<Longrightarrow> Q s) \<Longrightarrow> leads I P c Q"
  unfolding leads_def by blast

lemma leads_assign: "(\<And>s. P s \<Longrightarrow> I (f s) \<and> Q (f s)) \<Longrightarrow> leads I P (assign f) Q"
  by (auto simp: leads_def assign_def)

lemma leads_ignore: "leads I P c I \<Longrightarrow> (\<And>s. I s \<Longrightarrow> Q s) \<Longrightarrow> leads I P (ignore c) Q"
  unfolding leads_def ignore_def by (auto split: option.splits)

text \<open>The stages of a sequence, one by one.\<close>

lemma list_all_intros [preserve_intros]:
  "list_all P []" "P x \<Longrightarrow> list_all P xs \<Longrightarrow> list_all P (x # xs)"
  by simp_all

lemma preserves_if [preserve_intros]: "preserves I c \<Longrightarrow> preserves I d \<Longrightarrow> preserves I (if b then c else d)"
  by simp

lemma list_all_map_intro [preserve_intros]: "(\<And>x. P (f x)) \<Longrightarrow> list_all P (map f xs)"
  by (simp add: list_all_iff)

subsection \<open>What the outside world leaves alone\<close>

text \<open>
  Three kinds of property that calls keep.  A property of this locale survives every call that does
  not allocate or free: it may speak of the kinds and the lengths of the live blocks, but not of
  their bytes.
\<close>

locale quiet_frame =
  fixes I :: "'a world_scheme \<Rightarrow> bool"
  assumes quiet:
    "\<And>s l. I (s\<lparr>call_log := l\<rparr>) \<longleftrightarrow> I s" "\<And>s p. I (s\<lparr>printed := p\<rparr>) \<longleftrightarrow> I s"
    "\<And>s A. I (synced A s) \<longleftrightarrow> I s"
    and same_length: "\<And>s b m. length m = length (block_bytes s b) \<Longrightarrow> I (set_block b m s) \<longleftrightarrow> I s"
begin

lemma logged: "I (logged c s) \<longleftrightarrow> I s"
  by (simp add: logged_def quiet)

lemma invoke [preserve_intros]:
  "(\<And>s s'. I s \<Longrightarrow> f s = Some s' \<Longrightarrow> I s') \<Longrightarrow> preserves I (invoke A c f)"
  by (auto simp: preserves_def invoke_def Let_def logged split: if_splits)

lemma call [preserve_intros]: "preserves I (call A c)"
  unfolding call_def by (rule invoke) simp

lemma call_value [preserve_intros]:
  "(\<And>n s. I s \<Longrightarrow> I (upd n s)) \<Longrightarrow> preserves I (call_value A c upd)"
  by (auto simp: preserves_def call_value_def invoke_def Let_def logged split: if_splits)

lemma call_then [preserve_intros]: "(\<And>n. preserves I (k n)) \<Longrightarrow> preserves I (call_then A c k)"
  unfolding preserves_def call_then_def Let_def by (metis logged option.inject prod.inject)

lemma write_mem: "write_mem p bs s = Some s' \<Longrightarrow> I s' \<longleftrightarrow> I s"
  by (auto simp: write_mem_def readable_def block_bytes_def intro!: same_length split: if_splits option.splits)

lemma update_buffer:
  "update_buffer p f s = Some s' \<Longrightarrow> (\<And>m q m'. f m q = Some m' \<Longrightarrow> length m' = length m) \<Longrightarrow> I s' \<longleftrightarrow> I s"
  by (auto simp: update_buffer_def block_bytes_def intro!: same_length split: option.splits)

lemma aclrtMemcpy [preserve_intros]: "preserves I (aclrtMemcpy A dst m src n k)"
  unfolding aclrtMemcpy_def
  by (rule invoke) (auto simp: write_mem split: if_splits bind_splits)

lemma aclrtSynchronizeStream [preserve_intros]: "preserves I (aclrtSynchronizeStream A st)"
  unfolding aclrtSynchronizeStream_def by (rule invoke) (auto simp: quiet)

lemma print [preserve_intros]: "preserves I (print l)"
  unfolding print_def by (rule preserves_assign) (simp add: quiet)

end

text \<open>
  A property of this locale survives allocation and release as well: of the blocks it may speak of
  the reserved addresses only, which no test allocates or frees.
\<close>

locale alloc_frame = quiet_frame I for I :: "'a world_scheme \<Rightarrow> bool" +
  assumes fresh: "\<And>s k m. k \<noteq> Reserved \<Longrightarrow> I s \<Longrightarrow>
      I (s\<lparr>blocks := (blocks s)(next_block s \<mapsto> (k, m)), next_block := Suc (next_block s)\<rparr>)"
    and gone: "\<And>s b k m. blocks s b = Some (k, m) \<Longrightarrow> k \<noteq> Reserved \<Longrightarrow> I s \<Longrightarrow> I (s\<lparr>blocks := (blocks s)(b := None)\<rparr>)"
begin

lemma alloc: "k \<noteq> Reserved \<Longrightarrow> (\<And>p s. I s \<Longrightarrow> I (upd p s)) \<Longrightarrow> I s \<Longrightarrow> I (alloc A c k n upd s)"
  by (simp add: alloc_def fresh)

lemma aclrtMallocHost [preserve_intros]:
  "(\<And>p s. I s \<Longrightarrow> I (upd p s)) \<Longrightarrow> preserves I (aclrtMallocHost A n upd)"
  unfolding aclrtMallocHost_def by (rule invoke) (auto intro: alloc)

lemma aclrtMalloc [preserve_intros]:
  "(\<And>p s. I s \<Longrightarrow> I (upd p s)) \<Longrightarrow> preserves I (aclrtMalloc A n upd)"
  unfolding aclrtMalloc_def by (rule invoke) (auto intro: alloc)

lemma release: "release k p s = Some s' \<Longrightarrow> k \<noteq> Reserved \<Longrightarrow> I s \<Longrightarrow> I s'"
  by (auto simp: release_def intro: gone split: option.splits if_splits)

lemma aclrtFreeHost [preserve_intros]: "preserves I (aclrtFreeHost A p)"
  by (auto simp: preserves_def aclrtFreeHost_def invoke_def Let_def logged intro: release split: if_splits)

lemma aclrtFree [preserve_intros]: "preserves I (aclrtFree A p)"
  by (auto simp: preserves_def aclrtFree_def invoke_def Let_def logged intro: release split: if_splits)

lemma malloc [preserve_intros]:
  "(\<And>p s. I s \<Longrightarrow> I (upd p s)) \<Longrightarrow> preserves I (malloc A n upd)"
  by (auto simp: preserves_def malloc_def Let_def logged intro: alloc split: if_splits)

lemma malloc_then [preserve_intros]:
  "(\<And>p. preserves I (k p)) \<Longrightarrow> preserves I (malloc_then A n k)"
  unfolding preserves_def malloc_then_def Let_def
  by (metis alloc kind.distinct(5) logged)

lemma free [preserve_intros]: "preserves I (free p)"
  by (auto simp: preserves_def free_def logged intro: release split: if_splits)

end

text \<open>A property of the members of an object that do not belong to the world survives every call.\<close>

locale world_frame =
  fixes I :: "'a world_scheme \<Rightarrow> bool"
  assumes stable:
    "\<And>s l. I (s\<lparr>call_log := l\<rparr>) \<longleftrightarrow> I s" "\<And>s f. I (s\<lparr>blocks := f\<rparr>) \<longleftrightarrow> I s"
    "\<And>s n. I (s\<lparr>next_block := n\<rparr>) \<longleftrightarrow> I s" "\<And>s m. I (s\<lparr>mapped := m\<rparr>) \<longleftrightarrow> I s"
    "\<And>s p. I (s\<lparr>printed := p\<rparr>) \<longleftrightarrow> I s"

sublocale world_frame \<subseteq> alloc_frame
  by unfold_locales (auto simp: stable set_block_def synced_def split: option.splits)

context world_frame
begin

lemma alloc_any: "(\<And>p s. I s \<Longrightarrow> I (upd p s)) \<Longrightarrow> I s \<Longrightarrow> I (alloc A c k n upd s)"
  by (simp add: alloc_def stable)

lemma release_any: "release k p s = Some s' \<Longrightarrow> I s' \<longleftrightarrow> I s"
  by (auto simp: release_def stable split: option.splits if_splits)

end

end
