(* ===== verification/Op_Base.thy ===== *)
theory Op_Base
  imports Test_State Reduce_Init Check_Common
begin

text \<open>
  \<open>common/src/hccl_opbase_rootinfo_base.cc\<close>: what the tests of the single collectives share:
  element counts, the guards that switch verification off, the printed result, and the release
  of the host buffers.
\<close>

subsection \<open>Counts\<close>

definition init_data_count :: "'a HcclTest_scheme \<Rightarrow> 'a HcclTest_scheme" where
  "init_data_count s =
     (let ds = data_size (data s);
          counted = (\<lambda>w. s\<lparr>data := (data s)\<lparr>count := (ds + w - 1) div w, type_size := w\<rparr>\<rparr>)
      in case dtype_of (dtype s) of
           Some HCCL_DATA_TYPE_FP32 \<Rightarrow> counted 4
         | Some HCCL_DATA_TYPE_INT32 \<Rightarrow> counted 4
         | Some HCCL_DATA_TYPE_BFP16 \<Rightarrow> counted 2
         | Some HCCL_DATA_TYPE_FP16 \<Rightarrow> counted 2
         | Some HCCL_DATA_TYPE_INT16 \<Rightarrow> counted 2
         | Some HCCL_DATA_TYPE_INT8 \<Rightarrow> counted 1
         | Some HCCL_DATA_TYPE_INT64 \<Rightarrow> counted 8
         | Some HCCL_DATA_TYPE_FP64 \<Rightarrow> counted 8
         | Some HCCL_DATA_TYPE_UINT64 \<Rightarrow> counted 8
         | Some HCCL_DATA_TYPE_UINT8 \<Rightarrow> counted 1
         | Some HCCL_DATA_TYPE_HIF8 \<Rightarrow> counted 1
         | Some HCCL_DATA_TYPE_FP8E4M3 \<Rightarrow> counted 1
         | Some HCCL_DATA_TYPE_FP8E5M2 \<Rightarrow> counted 1
         | Some HCCL_DATA_TYPE_FP8E8M0 \<Rightarrow> counted 1
         | Some HCCL_DATA_TYPE_UINT16 \<Rightarrow> counted 2
         | Some HCCL_DATA_TYPE_UINT32 \<Rightarrow> counted 4
         | _ \<Rightarrow> counted 4)"

subsection \<open>Guards\<close>

definition RANKSIZE_TH_FP16 :: int where "RANKSIZE_TH_FP16 = 16"
definition RANKSIZE_TH_FP32 :: int where "RANKSIZE_TH_FP32 = 128"
definition RANKSIZE_TH_INT8 :: int where "RANKSIZE_TH_INT8 = 7"
definition RANKSIZE_TH_INT32 :: int where "RANKSIZE_TH_INT32 = 31"
definition RANKSIZE_TH_INT64 :: int where "RANKSIZE_TH_INT64 = 63"

lemmas thresholds = RANKSIZE_TH_FP16_def RANKSIZE_TH_FP32_def RANKSIZE_TH_INT8_def
  RANKSIZE_TH_INT32_def RANKSIZE_TH_INT64_def

definition warn_once :: "string \<Rightarrow> 'a HcclTest_scheme \<Rightarrow> 'a HcclTest_scheme" where
  "warn_once t s =
     (if rank_id s = root_rank s \<and> print_dump s
      then s\<lparr>printed := printed s @ [Text t], print_dump := False\<rparr> else s)"

definition no_verification :: "'a HcclTest_scheme \<Rightarrow> 'a HcclTest_scheme" where
  "no_verification s =
     warn_once ''Warning: The calculation result overflows, No verification is performed.'' (s\<lparr>check := 0\<rparr>)"

definition has_dtype :: "'a HcclTest_scheme \<Rightarrow> HcclDataType list \<Rightarrow> bool" where
  "has_dtype s ts \<longleftrightarrow> (\<exists>t \<in> set ts. dtype s = dtype_value t)"

definition has_op :: "'a HcclTest_scheme \<Rightarrow> HcclReduceOp \<Rightarrow> bool" where
  "has_op s p \<longleftrightarrow> op_type s = op_value p"

definition is_initdata_overflow :: "'a HcclTest_scheme \<Rightarrow> 'a HcclTest_scheme" where
  "is_initdata_overflow s =
     (if has_dtype s [HCCL_DATA_TYPE_INT8, HCCL_DATA_TYPE_UINT8, HCCL_DATA_TYPE_HIF8,
           HCCL_DATA_TYPE_FP8E4M3, HCCL_DATA_TYPE_FP8E5M2, HCCL_DATA_TYPE_FP8E8M0]
         \<and> rank_size s \<ge> RANKSIZE_TH_FP32
      then warn_once ''Warning: The initdata overflows, No verification is performed.'' (s\<lparr>check := 0\<rparr>)
      else s)"

text \<open>The successive \<open>if\<close> statements of a guard, each of which may call \<open>no_verification\<close>.\<close>

definition guard :: "HcclDataType list \<Rightarrow> int \<Rightarrow> 'a HcclTest_scheme \<Rightarrow> 'a HcclTest_scheme" where
  "guard ts threshold s = (if has_dtype s ts \<and> rank_size s \<ge> threshold then no_verification s else s)"

definition is_data_overflow :: "'a HcclTest_scheme \<Rightarrow> 'a HcclTest_scheme" where
  "is_data_overflow s =
     (if has_op s HCCL_REDUCE_PROD then
        (guard [HCCL_DATA_TYPE_INT64, HCCL_DATA_TYPE_UINT64] RANKSIZE_TH_INT64 \<circ>
         guard [HCCL_DATA_TYPE_INT32, HCCL_DATA_TYPE_UINT32] RANKSIZE_TH_INT32 \<circ>
         guard [HCCL_DATA_TYPE_INT8, HCCL_DATA_TYPE_UINT8] RANKSIZE_TH_INT8 \<circ>
         guard [HCCL_DATA_TYPE_FP32] RANKSIZE_TH_FP32 \<circ>
         guard [HCCL_DATA_TYPE_FP16] RANKSIZE_TH_FP16) s
      else if has_op s HCCL_REDUCE_SUM then
        guard [HCCL_DATA_TYPE_INT8, HCCL_DATA_TYPE_UINT8] RANKSIZE_TH_INT64 s
      else s)"

subsection \<open>Results\<close>

text \<open>\<open>time\<close> is a \<open>float\<close>; the bandwidth is computed in \<open>double\<close>.\<close>

definition B_US_TO_GB_S :: u64 where
  "B_US_TO_GB_S = f64_div (f64_of_int 1000000) (f64_of_int 1000000000)"

definition average_time :: "u32 \<Rightarrow> int \<Rightarrow> u64" where
  "average_time time n = f64_div (f64_of_f32 (f32_mul time (f32_of_int 1000))) (f64_of_int n)"

definition bandwith :: "u64 \<Rightarrow> u64 \<Rightarrow> u64" where
  "bandwith bytes average = f64_mul (f64_div (f64_of_int (uint bytes)) average) B_US_TO_GB_S"

definition print_header_once :: "'a HcclTest_scheme cmd" where
  "print_header_once =
     when_do print_header (steps [print Header, assign (\<lambda>s. s\<lparr>print_header := False\<rparr>)])"

text \<open>
  \<open>bool check_result[rank_size]\<close> is indexed with \<open>rank_id\<close>: undefined outside the array.
\<close>

definition print_execution_time :: "u64 \<Rightarrow> u64 \<Rightarrow> 'a HcclOpBaseTest_scheme cmd" where
  "print_execution_time average_time_us algorithm_bandwith_GBytes_s =
     (let row = (\<lambda>verdict. with_state (\<lambda>s. print
                  (ResultRow (data_size (data s)) average_time_us algorithm_bandwith_GBytes_s verdict)))
      in if_else (\<lambda>s. check s = 0)
           (when_do (\<lambda>s. rank_id s = root_rank s) (steps [print_header_once, row ''NULL'']))
           (steps
             [update_opt (\<lambda>s. if 0 \<le> rank_id s \<and> rank_id s < rank_size s then Some s else None),
              when_do (\<lambda>s. check_err s \<noteq> 0)
                (with_state (\<lambda>s. print (LocalFailure (rank_id s) (data_size (data s))
                   average_time_us algorithm_bandwith_GBytes_s))),
              when_do (\<lambda>s. rank_id s = root_rank s)
                (steps [print_header_once,
                        if_else (\<lambda>s. check_err s \<noteq> 0) (row ''failed'') (row ''success'')])]))"

subsection \<open>Host buffers\<close>

definition upd_host_buf :: "ptr \<Rightarrow> 'a HcclOpBaseTest_scheme \<Rightarrow> 'a HcclOpBaseTest_scheme" where
  "upd_host_buf p s = s\<lparr>host_buf := p\<rparr>"

definition upd_check_buf :: "ptr \<Rightarrow> 'a HcclOpBaseTest_scheme \<Rightarrow> 'a HcclOpBaseTest_scheme" where
  "upd_check_buf p s = s\<lparr>check_buf := p\<rparr>"

definition upd_recv_buff_temp :: "ptr \<Rightarrow> 'a HcclOpBaseTest_scheme \<Rightarrow> 'a HcclOpBaseTest_scheme" where
  "upd_recv_buff_temp p s = s\<lparr>recv_buff_temp := p\<rparr>"

lemmas upd_defs = upd_host_buf_def upd_check_buf_def upd_recv_buff_temp_def

text \<open>\<open>if (p != nullptr) { ACLCHECK(aclrtFreeHost(p)); p = nullptr; }\<close>\<close>

definition free_slot ::
    "api \<Rightarrow> ('a world_scheme \<Rightarrow> ptr) \<Rightarrow> (ptr \<Rightarrow> 'a world_scheme \<Rightarrow> 'a world_scheme) \<Rightarrow> 'a world_scheme cmd" where
  "free_slot A slot put =
     when_do (\<lambda>s. slot s \<noteq> nullptr)
       (steps [with_state (\<lambda>s. aclrtFreeHost A (slot s)), assign (put nullptr)])"

definition destory_alloc_buf :: "api \<Rightarrow> 'a HcclOpBaseTest_scheme cmd" where
  "destory_alloc_buf A =
     steps
      [free_slot A host_buf upd_host_buf,
       free_slot A recv_buff_temp upd_recv_buff_temp,
       free_slot A check_buf upd_check_buf]"

subsection \<open>The count covers the size\<close>

lemma init_data_count_eq:
  "dtype s = dtype_value t \<Longrightarrow>
     init_data_count s = s\<lparr>data := (data s)\<lparr>
       count := (data_size (data s) + of_nat (elem_width t) - 1) div of_nat (elem_width t),
       type_size := of_nat (elem_width t)\<rparr>\<rparr>"
  by (cases t) (simp_all add: init_data_count_def elem_width_def Let_def del: dtype_value.simps)

lemma elem_width_range: "1 \<le> elem_width t \<and> elem_width t \<le> 8"
  by (cases t) (simp_all add: elem_width_def)

lemma round_up_nat:
  fixes x w :: nat
  assumes "0 < w"
  shows "x \<le> (x + w - 1) div w * w" and "(x + w - 1) div w * w < x + w"
proof -
  have "(x + w - 1) div w * w + (x + w - 1) mod w = x + w - 1" by (rule div_mult_mod_eq)
  moreover have "(x + w - 1) mod w < w" using assms by simp
  ultimately show "x \<le> (x + w - 1) div w * w" and "(x + w - 1) div w * w < x + w"
    using assms by linarith+
qed

lemma unat_round_div:
  fixes x w :: u64
  assumes "w \<noteq> 0" "unat x + unat w \<le> 2 ^ 64"
  shows "unat ((x + w - 1) div w) = (unat x + unat w - 1) div unat w"
proof -
  have w: "1 \<le> w" using assms(1) by (simp add: word_le_nat_alt unat_eq_0 [symmetric] Suc_le_eq del: unat_eq_0)
  then have w1: "1 \<le> unat w" by (simp add: word_le_nat_alt)
  have m: "unat (w - 1) = unat w - 1" using w by (simp add: unat_sub_small)
  have "x + w - 1 = x + (w - 1)" by (rule add_diff_eq [symmetric])
  moreover have "unat (x + (w - 1)) = unat x + (unat w - 1)"
    using assms(2) w1 m by (subst unat_add_small) simp_all
  ultimately have "unat (x + w - 1) = unat x + (unat w - 1)" by (simp only:)
  then show ?thesis using w1 by (simp add: unat_div)
qed

text \<open>
  C29.  For every data type but \<open>int128\<close>, \<open>init_data_count\<close> sets the bytes of an element to those of the
  type and the count to the least number of elements that covers the requested size: the bytes are
  at least the size and less than one element more.  An element of \<open>int128\<close>, which has 16 bytes, is
  counted as one of 4 bytes: the elements have at least four times the requested size.
\<close>
theorem init_data_count_covers:
  assumes "dtype s = dtype_value t" and "unat (data_size (data s)) \<le> 2 ^ 64 - 8"
  shows "(t \<noteq> HCCL_DATA_TYPE_INT128 \<longrightarrow>
        unat (type_size (data (init_data_count s))) = type_bytes t
      \<and> unat (data_size (data s)) \<le> unat (count (data (init_data_count s))) * type_bytes t
      \<and> unat (count (data (init_data_count s))) * type_bytes t < unat (data_size (data s)) + type_bytes t)
    \<and> (t = HCCL_DATA_TYPE_INT128 \<longrightarrow>
        unat (type_size (data (init_data_count s))) = 4
      \<and> 4 * unat (data_size (data s)) \<le> unat (count (data (init_data_count s))) * type_bytes t)"
proof -
  let ?w = "of_nat (elem_width t) :: u64"
  have r: "1 \<le> elem_width t" "elem_width t \<le> 8" using elem_width_range [of t] by simp_all
  then have w: "unat ?w = elem_width t" by (intro unat_of_nat_small) simp
  then have nz: "?w \<noteq> 0" using r by auto
  have "unat ((data_size (data s) + ?w - 1) div ?w) = (unat (data_size (data s)) + elem_width t - 1) div elem_width t"
    using unat_round_div [OF nz, of "data_size (data s)"] assms(2) r w by simp
  with round_up_nat [of "elem_width t" "unat (data_size (data s))"] r w
  have "unat (type_size (data (init_data_count s))) = elem_width t
    \<and> unat (data_size (data s)) \<le> unat (count (data (init_data_count s))) * elem_width t
    \<and> unat (count (data (init_data_count s))) * elem_width t < unat (data_size (data s)) + elem_width t"
    by (simp add: init_data_count_eq [OF assms(1)])
  then show ?thesis by (cases "t = HCCL_DATA_TYPE_INT128") (simp_all add: elem_width_bytes)
qed

lemma init_data_count_covers_witness:
  "unat (count (data (init_data_count (new_tester\<lparr>dtype := dtype_value HCCL_DATA_TYPE_FP16,
      data := zero_data\<lparr>data_size := 5\<rparr>\<rparr>)))) * 2 = 6"
  using init_data_count_covers [of "new_tester\<lparr>dtype := dtype_value HCCL_DATA_TYPE_FP16,
      data := zero_data\<lparr>data_size := 5\<rparr>\<rparr>" HCCL_DATA_TYPE_FP16]
  by simp

subsection \<open>The host buffers an object owns\<close>

definition host_ptrs :: "'a HcclOpBaseTest_scheme \<Rightarrow> ptr list" where
  "host_ptrs s = filter (\<lambda>p. p \<noteq> nullptr) [host_buf s, recv_buff_temp s, check_buf s]"

text \<open>
  The live blocks are those of \<open>B\<close> and the blocks of the host buffers, which are all different.
\<close>

definition accounts :: "nat set \<Rightarrow> 'a HcclOpBaseTest_scheme \<Rightarrow> bool" where
  "accounts B s \<longleftrightarrow>
     dom (blocks s) = B \<union> fst ` set (host_ptrs s) \<and> B \<inter> fst ` set (host_ptrs s) = {} \<and>
     distinct (map fst (host_ptrs s)) \<and>
     (\<forall>p \<in> set (host_ptrs s). snd p = 0 \<and> (\<exists>m. blocks s (fst p) = Some (Host, m))) \<and>
     0 < next_block s \<and> (\<forall>b \<in> dom (blocks s). b < next_block s)"

lemma host_ptrs_world [simp]:
  "host_ptrs (logged c s) = host_ptrs s" "host_ptrs (s\<lparr>blocks := f\<rparr>) = host_ptrs s"
  "host_ptrs (s\<lparr>next_block := n\<rparr>) = host_ptrs s"
  by (simp_all add: host_ptrs_def logged_def)

lemma logged_fields [simp]:
  "blocks (logged c s) = blocks s" "next_block (logged c s) = next_block s"
  "call_log (logged c s) = c # call_log s" "mapped (logged c s) = mapped s"
  by (simp_all add: logged_def)

lemma accounts_logged [simp]: "accounts B (logged c s) = accounts B s"
  by (simp add: accounts_def)

lemma aclrtFreeHost_live:
  "blocks s (fst p) = Some (Host, m) \<Longrightarrow> snd p = 0 \<Longrightarrow>
     aclrtFreeHost A p s =
       (let r = status A (call_log s) (Acl (FreeHost p)) in
        if r = 0 then Some (0, logged (Acl (FreeHost p)) (s\<lparr>blocks := (blocks s)(fst p := None)\<rparr>))
        else Some (r, logged (Acl (FreeHost p)) s))"
  by (simp add: aclrtFreeHost_def release_def invoke_def Let_def)

text \<open>A member that holds one of the host buffers.\<close>

locale host_slot =
  fixes slot :: "'a HcclOpBaseTest_scheme \<Rightarrow> ptr"
    and put :: "ptr \<Rightarrow> 'a HcclOpBaseTest_scheme \<Rightarrow> 'a HcclOpBaseTest_scheme"
  assumes listed: "slot s \<noteq> nullptr \<Longrightarrow> slot s \<in> set (host_ptrs s)"
    and cleared: "slot s \<noteq> nullptr \<Longrightarrow> distinct (map fst (host_ptrs s)) \<Longrightarrow>
      set (host_ptrs (put nullptr s)) = set (host_ptrs s) - {slot s} \<and> distinct (map fst (host_ptrs (put nullptr s)))"
    and stored: "slot s = nullptr \<Longrightarrow> p \<noteq> nullptr \<Longrightarrow> set (host_ptrs (put p s)) = insert p (set (host_ptrs s)) \<and>
      (distinct (map fst (host_ptrs (put p s))) \<longleftrightarrow> distinct (map fst (host_ptrs s)) \<and> fst p \<notin> fst ` set (host_ptrs s))"
    and world: "blocks (put p s) = blocks s" "next_block (put p s) = next_block s"
      "call_log (put p s) = call_log s" "slot (put p s) = p"
      "slot (logged c s) = slot s" "slot (s\<lparr>blocks := f\<rparr>) = slot s" "slot (s\<lparr>next_block := n\<rparr>) = slot s"
begin

lemma free_slot_accounts:
  assumes acc: "accounts B s"
  shows "\<exists>r t. free_slot A slot put s = Some (r, t) \<and> accounts B t \<and> (\<forall>b \<in> B. blocks t b = blocks s b)
    \<and> (r = 0 \<longrightarrow> slot t = nullptr)"
proof (cases "slot s = nullptr")
  case True
  then show ?thesis using acc by (auto simp: free_slot_def cmd_defs)
next
  case False
  let ?p = "slot s"
  from listed [OF False] acc obtain m where m: "blocks s (fst ?p) = Some (Host, m)" "snd ?p = 0"
    unfolding accounts_def by blast
  have notB: "fst ?p \<notin> B" using listed [OF False] acc unfolding accounts_def by blast
  show ?thesis
  proof (cases "status A (call_log s) (Acl (FreeHost ?p)) = 0")
    case bad: False
    then have "free_slot A slot put s = Some (status A (call_log s) (Acl (FreeHost ?p)), logged (Acl (FreeHost ?p)) s)"
      using False by (simp add: free_slot_def cmd_defs aclrtFreeHost_live [OF m] Let_def)
    then show ?thesis using acc bad by simp
  next
    case True
    let ?t = "put nullptr (logged (Acl (FreeHost ?p)) (s\<lparr>blocks := (blocks s)(fst ?p := None)\<rparr>))"
    have run: "free_slot A slot put s = Some (0, ?t)"
      using False True by (simp add: free_slot_def cmd_defs aclrtFreeHost_live [OF m] Let_def)
    have d: "distinct (map fst (host_ptrs s))" using acc by (simp add: accounts_def)
    have set: "set (host_ptrs ?t) = set (host_ptrs s) - {?p}" "distinct (map fst (host_ptrs ?t))"
      using cleared [of "logged (Acl (FreeHost ?p)) (s\<lparr>blocks := (blocks s)(fst ?p := None)\<rparr>)"] False d
      by (simp_all add: world)
    have sep: "q \<in> set (host_ptrs s) \<Longrightarrow> q \<noteq> ?p \<Longrightarrow> fst q \<noteq> fst ?p" for q
      using d listed [OF False] by (auto simp: distinct_map inj_on_def)
    have img: "fst ` set (host_ptrs ?t) = fst ` set (host_ptrs s) - {fst ?p}"
    proof -
      have "inj_on fst (set (host_ptrs s))" using d by (simp add: distinct_map)
      then show ?thesis unfolding set using listed [OF False] by (simp add: inj_on_image_set_diff)
    qed
    have fields: "blocks ?t = (blocks s)(fst ?p := None)" "next_block ?t = next_block s"
      by (simp_all add: world)
    have "dom (blocks ?t) = B \<union> fst ` set (host_ptrs ?t)"
      unfolding img fields using acc notB by (auto simp: accounts_def)
    moreover have "\<forall>q \<in> set (host_ptrs ?t). snd q = 0 \<and> (\<exists>m. blocks ?t (fst q) = Some (Host, m))"
    proof
      fix q assume "q \<in> set (host_ptrs ?t)"
      then have "q \<in> set (host_ptrs s)" "q \<noteq> ?p" unfolding set by simp_all
      with sep acc show "snd q = 0 \<and> (\<exists>m. blocks ?t (fst q) = Some (Host, m))"
        unfolding fields accounts_def by simp
    qed
    moreover have "B \<inter> fst ` set (host_ptrs ?t) = {}" "0 < next_block ?t" "\<forall>b \<in> dom (blocks ?t). b < next_block ?t"
      unfolding img fields using acc by (auto simp: accounts_def)
    ultimately have "accounts B ?t" using set(2) unfolding accounts_def by blast
    then show ?thesis using run notB by (auto simp: world)
  qed
qed

end

interpretation slot_host: host_slot host_buf upd_host_buf
  by unfold_locales (auto simp: host_ptrs_def upd_defs logged_def)

interpretation slot_recv: host_slot recv_buff_temp upd_recv_buff_temp
  by unfold_locales (auto simp: host_ptrs_def upd_defs logged_def)

interpretation slot_check: host_slot check_buf upd_check_buf
  by unfold_locales (auto simp: host_ptrs_def upd_defs logged_def)

lemma free_slot_frame:
  assumes "free_slot A slot put s = Some (r, t)"
    and "\<And>u. f (put nullptr u) = f u" "\<And>c u. f (logged c u) = f u" "\<And>b u. f (u\<lparr>blocks := b\<rparr>) = f u"
  shows "f t = f s"
  using assms
  by (auto simp: free_slot_def cmd_defs aclrtFreeHost_def invoke_def release_def Let_def
      split: if_splits option.splits prod.splits)

lemma destory_alloc_buf_spec:
  assumes "accounts B s"
  shows "\<exists>r t. destory_alloc_buf A s = Some (r, t) \<and> accounts B t \<and> (\<forall>b \<in> B. blocks t b = blocks s b)
    \<and> (r = 0 \<longrightarrow> host_ptrs t = [] \<and> dom (blocks t) = B \<and> destory_alloc_buf A t = Some (0, t))"
proof -
  obtain r1 s1 where 1: "free_slot A host_buf upd_host_buf s = Some (r1, s1)" "accounts B s1"
      "\<forall>b \<in> B. blocks s1 b = blocks s b" "r1 = 0 \<longrightarrow> host_buf s1 = nullptr"
    using slot_host.free_slot_accounts [OF assms] by blast
  obtain r2 s2 where 2: "free_slot A recv_buff_temp upd_recv_buff_temp s1 = Some (r2, s2)" "accounts B s2"
      "\<forall>b \<in> B. blocks s2 b = blocks s1 b" "r2 = 0 \<longrightarrow> recv_buff_temp s2 = nullptr"
    using slot_recv.free_slot_accounts [OF 1(2)] by blast
  obtain r3 s3 where 3: "free_slot A check_buf upd_check_buf s2 = Some (r3, s3)" "accounts B s3"
      "\<forall>b \<in> B. blocks s3 b = blocks s2 b" "r3 = 0 \<longrightarrow> check_buf s3 = nullptr"
    using slot_check.free_slot_accounts [OF 2(2)] by blast
  have keep: "host_buf s2 = host_buf s1" "host_buf s3 = host_buf s2" "recv_buff_temp s3 = recv_buff_temp s2"
    by (rule free_slot_frame [OF 2(1)], simp_all add: upd_defs logged_def)
      (rule free_slot_frame [OF 3(1)], simp_all add: upd_defs logged_def)+
  show ?thesis
  proof (cases "r1 = 0 \<and> r2 = 0")
    case False
    then show ?thesis using 1 2 by (auto simp: destory_alloc_buf_def cmd_defs)
  next
    case True
    then have null: "host_buf s3 = nullptr" "recv_buff_temp s3 = nullptr"
      using 1(4) 2(4) keep by simp_all
    have run: "destory_alloc_buf A s = Some (r3, s3)"
      using True 1(1) 2(1) 3(1) by (simp add: destory_alloc_buf_def cmd_defs)
    have "host_ptrs s3 = [] \<and> dom (blocks s3) = B \<and> destory_alloc_buf A s3 = Some (0, s3)" if "r3 = 0"
    proof -
      have c: "check_buf s3 = nullptr" using 3(4) that by simp
      then have "host_ptrs s3 = []" using null by (simp add: host_ptrs_def)
      moreover from this 3(2) have "dom (blocks s3) = B" by (simp add: accounts_def)
      moreover have "destory_alloc_buf A s3 = Some (0, s3)"
        using null c by (simp add: destory_alloc_buf_def free_slot_def cmd_defs)
      ultimately show ?thesis by blast
    qed
    then show ?thesis using run 1(3) 2(3) 3(2,3) by auto
  qed
qed

text \<open>
  \<open>destory_alloc_buf\<close> on an object whose host buffers are live and different never frees a block
  twice: it has a result.  The other blocks stay as they are; when it succeeds no host buffer is
  left, and running it again, as the destructor does, changes nothing.
\<close>
theorem destory_alloc_buf_releases:
  assumes "accounts B s"
  shows "\<exists>r t. destory_alloc_buf A s = Some (r, t) \<and> accounts B t \<and> (\<forall>b \<in> B. blocks t b = blocks s b)
    \<and> (r = 0 \<longrightarrow> host_ptrs t = [] \<and> dom (blocks t) = B \<and> destory_alloc_buf A t = Some (0, t))"
  using assms by (rule destory_alloc_buf_spec)

text \<open>A tester with two host buffers.\<close>

definition two_buffers :: HcclOpBaseTest where
  "two_buffers = new_tester\<lparr>blocks := [1 \<mapsto> (Host, [0]), 2 \<mapsto> (Host, [0]), 3 \<mapsto> (Device, [0])],
     next_block := 4, host_buf := (1, 0), check_buf := (2, 0)\<rparr>"

lemma two_buffers_accounts: "accounts {3} two_buffers"
  by (auto simp: accounts_def two_buffers_def host_ptrs_def tester_defs split: if_splits)

lemma destory_alloc_buf_releases_witness:
  "\<exists>t. destory_alloc_buf (ideal_api (\<lambda>_ _. 0)) two_buffers = Some (0, t) \<and> dom (blocks t) = {3}"
proof -
  let ?A = "ideal_api (\<lambda>_ _. 0)"
  obtain r t where r: "destory_alloc_buf ?A two_buffers = Some (r, t)" "r = 0 \<longrightarrow> dom (blocks t) = {3}"
    using destory_alloc_buf_releases [OF two_buffers_accounts, of ?A] by blast
  moreover have "r = 0"
    using r(1)
    by (simp add: destory_alloc_buf_def free_slot_def cmd_defs two_buffers_def aclrtFreeHost_def release_def
        invoke_def ideal_api_def Let_def upd_defs logged_def tester_defs)
  ultimately show ?thesis by blast
qed

end
