(* ===== verification/Collective_Run.thy ===== *)
theory Collective_Run
  imports Command_Logic Op_Base Alltoall_Check
begin

text \<open>
  What the eleven tests under \<open>opbase_test/\<close> have in common, written once: filling and comparing
  host buffers, the heap arrays of the \<open>V\<close> variants, and the run that queues the collective
  between two events and waits for it.  The tests themselves are in \<open>Reduce_Tests\<close>,
  \<open>Gather_Tests\<close> and \<open>Exchange_Tests\<close>.
\<close>

subsection \<open>Buffers\<close>

definition bytes_at :: "'a world_scheme \<Rightarrow> ptr \<Rightarrow> mem option" where
  "bytes_at s p = (case blocks s (fst p) of Some (k, m) \<Rightarrow> Some (drop (snd p) m) | None \<Rightarrow> None)"

definition fill_host :: "ptr \<Rightarrow> u64 \<Rightarrow> int \<Rightarrow> 'a HcclTest_scheme cmd" where
  "fill_host p n v =
     with_state (\<lambda>s. update_opt (update_buffer p (\<lambda>m base. hccl_host_buf_init m base n (dtype s) v)))"

definition fill_expected :: "ptr \<Rightarrow> u64 \<Rightarrow> int \<Rightarrow> 'a HcclTest_scheme cmd" where
  "fill_expected p n v =
     with_state (\<lambda>s. update_opt (update_buffer p
       (\<lambda>m base. hccl_reduce_check_buf_init m base n (dtype s) (op_type s) v (rank_size s))))"

text \<open>\<open>for (int i = 0; i < rank_size; ++i)\<close>.\<close>

definition for_ranks :: "(nat \<Rightarrow> 'a HcclTest_scheme cmd) \<Rightarrow> 'a HcclTest_scheme cmd" where
  "for_ranks body = with_state (\<lambda>s. steps (map body [0..<nat (rank_size s)]))"

definition ranks :: "'a HcclTest_scheme \<Rightarrow> u64" where "ranks s = word_of_int (rank_size s)"

definition host_to_send :: "api \<Rightarrow> u64 \<Rightarrow> 'a HcclOpBaseTest_scheme cmd" where
  "host_to_send A n = with_state (\<lambda>s. aclrtMemcpy A (send_buff s) n (host_buf s) n HOST_TO_DEVICE)"

definition malloc_host_buf :: "api \<Rightarrow> u64 \<Rightarrow> 'a HcclOpBaseTest_scheme cmd" where
  "malloc_host_buf A n = aclrtMallocHost A n upd_host_buf"

definition malloc_check_buf :: "api \<Rightarrow> u64 \<Rightarrow> 'a HcclOpBaseTest_scheme cmd" where
  "malloc_check_buf A n = aclrtMallocHost A n upd_check_buf"

text \<open>The first two statements of a \<open>check_buf_result\<close>.\<close>

definition fetch_result :: "api \<Rightarrow> u64 \<Rightarrow> ptr \<Rightarrow> 'a HcclOpBaseTest_scheme cmd" where
  "fetch_result A n src =
     steps
      [aclrtMallocHost A n upd_recv_buff_temp,
       with_state (\<lambda>s. aclrtMemcpy A (recv_buff_temp s) n src n DEVICE_TO_HOST)]"

subsection \<open>Comparison\<close>

type_synonym checker = "HcclDataType \<Rightarrow> (mem \<Rightarrow> mem \<Rightarrow> u64 \<Rightarrow> (int \<times> report) option) option"

text \<open>The \<open>switch\<close> of the reductions, of \<open>reducescatterv\<close>, and of the tests without a reduction.\<close>

fun reduce_checker :: checker where
  "reduce_checker HCCL_DATA_TYPE_FP32 = Some check_buf_result_float"
| "reduce_checker HCCL_DATA_TYPE_INT8 = Some check_buf_result_int8"
| "reduce_checker HCCL_DATA_TYPE_UINT8 = Some check_buf_result_int8"
| "reduce_checker HCCL_DATA_TYPE_INT32 = Some check_buf_result_int32"
| "reduce_checker HCCL_DATA_TYPE_FP16 = Some check_buf_result_half"
| "reduce_checker HCCL_DATA_TYPE_INT16 = Some check_buf_result_half"
| "reduce_checker HCCL_DATA_TYPE_BFP16 = Some check_buf_result_half"
| "reduce_checker HCCL_DATA_TYPE_INT64 = Some check_buf_result_int64"
| "reduce_checker HCCL_DATA_TYPE_UINT64 = Some check_buf_result_int64"
| "reduce_checker HCCL_DATA_TYPE_FP64 = Some check_buf_result_int64"
| "reduce_checker _ = None"

fun reducescatterv_checker :: checker where
  "reducescatterv_checker HCCL_DATA_TYPE_FP32 = Some check_buf_result_float"
| "reducescatterv_checker HCCL_DATA_TYPE_INT8 = Some check_buf_result_int8"
| "reducescatterv_checker HCCL_DATA_TYPE_UINT8 = Some check_buf_result_int8"
| "reducescatterv_checker HCCL_DATA_TYPE_INT32 = Some check_buf_result_int32"
| "reducescatterv_checker HCCL_DATA_TYPE_FP16 = Some check_buf_result_half"
| "reducescatterv_checker HCCL_DATA_TYPE_INT16 = Some check_buf_result_half"
| "reducescatterv_checker HCCL_DATA_TYPE_BFP16 = Some check_buf_result_half"
| "reducescatterv_checker HCCL_DATA_TYPE_INT64 = Some check_buf_result_int64"
| "reducescatterv_checker _ = None"

fun gather_checker :: checker where
  "gather_checker HCCL_DATA_TYPE_FP32 = Some check_buf_result_float"
| "gather_checker HCCL_DATA_TYPE_INT8 = Some check_buf_result_int8"
| "gather_checker HCCL_DATA_TYPE_UINT8 = Some check_buf_result_int8"
| "gather_checker HCCL_DATA_TYPE_HIF8 = Some check_buf_result_int8"
| "gather_checker HCCL_DATA_TYPE_FP8E4M3 = Some check_buf_result_int8"
| "gather_checker HCCL_DATA_TYPE_FP8E5M2 = Some check_buf_result_int8"
| "gather_checker HCCL_DATA_TYPE_FP8E8M0 = Some check_buf_result_int8"
| "gather_checker HCCL_DATA_TYPE_INT32 = Some check_buf_result_int32"
| "gather_checker HCCL_DATA_TYPE_UINT32 = Some check_buf_result_int32"
| "gather_checker HCCL_DATA_TYPE_FP16 = Some check_buf_result_half"
| "gather_checker HCCL_DATA_TYPE_INT16 = Some check_buf_result_half"
| "gather_checker HCCL_DATA_TYPE_UINT16 = Some check_buf_result_half"
| "gather_checker HCCL_DATA_TYPE_BFP16 = Some check_buf_result_half"
| "gather_checker HCCL_DATA_TYPE_INT64 = Some check_buf_result_int64"
| "gather_checker HCCL_DATA_TYPE_FP64 = Some check_buf_result_int64"
| "gather_checker HCCL_DATA_TYPE_UINT64 = Some check_buf_result_u64"
| "gather_checker HCCL_DATA_TYPE_INT128 = None"

text \<open>\<open>if (ret != 0) check_err++;\<close>\<close>

definition count_failure :: "int \<Rightarrow> 'a HcclOpBaseTest_scheme cmd" where
  "count_failure r =
     when_do (\<lambda>_. r \<noteq> 0)
       (update_opt (\<lambda>s. map_option (\<lambda>n. s\<lparr>check_err := n\<rparr>) (s32_inc (check_err s))))"

definition print_report :: "report \<Rightarrow> 'a world_scheme cmd" where
  "print_report rep =
     (case rep of None \<Rightarrow> skip | Some (pos, e, a) \<Rightarrow> steps [print (Mismatch pos e a), say ''total err is''])"

definition compare_result :: "checker \<Rightarrow> u64 \<Rightarrow> 'a HcclOpBaseTest_scheme cmd" where
  "compare_result checks n s =
     (case Option.bind (dtype_of (dtype s)) checks of
        None \<Rightarrow> steps [say ''no match datatype'', count_failure 1] s
      | Some f \<Rightarrow>
          (case (bytes_at s (recv_buff_temp s), bytes_at s (check_buf s)) of
             (Some r, Some c) \<Rightarrow>
               (case f r c n of
                  None \<Rightarrow> None
                | Some (err, rep) \<Rightarrow> steps [print_report rep, count_failure err] s)
           | _ \<Rightarrow> None))"

subsection \<open>Heap arrays\<close>

definition store_u64 :: "ptr \<Rightarrow> nat \<Rightarrow> u64 \<Rightarrow> 'a world_scheme \<Rightarrow> 'a world_scheme option" where
  "store_u64 p i v = write_mem (ptr_add p (8 * i)) (le_bytes 8 (unat v))"

definition load_u64 :: "'a world_scheme \<Rightarrow> ptr \<Rightarrow> nat \<Rightarrow> u64 option" where
  "load_u64 s p i = map_option (\<lambda>bs. of_nat (le_nat bs)) (read_mem s (ptr_add p (8 * i)) 8)"

text \<open>The elements of an array up to the first that cannot be read.\<close>

primrec load_array :: "'a world_scheme \<Rightarrow> ptr \<Rightarrow> nat \<Rightarrow> nat \<Rightarrow> u64 list" where
  "load_array s p i 0 = []"
| "load_array s p i (Suc n) = (case load_u64 s p i of None \<Rightarrow> [] | Some v \<Rightarrow> v # load_array s p (Suc i) n)"

subsection \<open>The timed run\<close>

definition isCcuSched :: "'a HcclTest_scheme \<Rightarrow> bool" where
  "isCcuSched s \<longleftrightarrow> accelerator_config s = 0 \<or> accelerator_config s = 6"

definition wait_for_sync :: "api \<Rightarrow> u64 \<Rightarrow> 'a HcclTest_scheme cmd" where
  "wait_for_sync A limit =
     when_do (\<lambda>s. only_device_exec_time s \<noteq> 0 \<and> \<not> (isCcuSched s \<and> data_size (data s) \<ge> limit))
       (steps
         [with_state (\<lambda>s. call A (Acl (StreamWaitEvent (stream s) (sync_event s)))),
          with_state (\<lambda>s. call A (Acl (ResetEvent (sync_event s) (stream s))))])"

text \<open>
  From \<open>bool isCcuSched\<close> to \<open>aclrtSynchronizeStream\<close>: \<open>collective\<close> is the call that is measured,
  \<open>limit\<close> the size from which the barrier is left out.
\<close>

definition timed_run :: "api \<Rightarrow> u64 \<Rightarrow> 'a HcclTest_scheme cmd \<Rightarrow> 'a HcclTest_scheme cmd" where
  "timed_run A limit collective =
     steps
      [wait_for_sync A limit,
       with_state (\<lambda>s. repeat_do (nat (warmup_iters s)) collective),
       with_state (\<lambda>s. call A (Acl (RecordEvent (start_event s) (stream s)))),
       with_state (\<lambda>s. repeat_do (nat (iters s)) collective),
       with_state (\<lambda>s. call A (Acl (RecordEvent (end_event s) (stream s)))),
       when_do (\<lambda>s. only_device_exec_time s \<noteq> 0)
         (steps
           [with_state (\<lambda>s.
              let sleepTime = 50 + warmup_iters s * 2 + iters s * 2
              in if in_s 32 sleepTime then ignore (call A (Os (SleepMs sleepTime))) else (\<lambda>_. None)),
            with_state (\<lambda>s. call A (Acl (RecordEvent (sync_event s) (sync_stream s))))]),
       with_state (\<lambda>s. aclrtSynchronizeStream A (stream s))]"

definition CCU_LIMIT :: u64 where "CCU_LIMIT = 16 * 1024 * 1024"
definition CCU_LIMIT_VC :: u64 where "CCU_LIMIT_VC = 128 * 1024 * 1024"

text \<open>\<open>aclrtEventElapsedTime\<close> and what follows it.\<close>

definition measured :: "api \<Rightarrow> (u32 \<Rightarrow> 'a HcclTest_scheme cmd) \<Rightarrow> 'a HcclTest_scheme cmd" where
  "measured A rest =
     with_state (\<lambda>s. call_then A (Acl (EventElapsedTime (start_event s) (end_event s)))
       (\<lambda>time. rest (of_nat time)))"

text \<open>\<open>cal_execution_time\<close> of every test; \<open>bytes\<close> is what the bandwidth is computed from.\<close>

definition report_time :: "u64 \<Rightarrow> u32 \<Rightarrow> 'a HcclOpBaseTest_scheme cmd" where
  "report_time bytes time =
     with_state (\<lambda>s. let average_time_us = average_time time (iters s)
                     in print_execution_time average_time_us (bandwith bytes average_time_us))"

definition warn_op_flag :: "'a HcclTest_scheme cmd" where
  "warn_op_flag =
     when_do (\<lambda>s. op_flag s \<noteq> 0 \<and> rank_id s = root_rank s)
       (say ''Warning: The -o,--op option does not take effect. Check the cmd parameter.'')"

subsection \<open>What a test leaves alone\<close>

text \<open>
  Everything of a test object but the world, the switches \<open>check\<close>, \<open>print_header\<close> and \<open>print_dump\<close>,
  and the members of the derived classes.
\<close>

definition frame :: "'a HcclTest_scheme \<Rightarrow> HcclTest" where
  "frame s = (HcclTest.truncate s)\<lparr>call_log := [], blocks := (\<lambda>_. None), next_block := 0, mapped := [],
     printed := [], check := 0, print_header := False, print_dump := False\<rparr>"

lemma hccl_host_buf_init_length:
  assumes "hccl_host_buf_init m base n t v = Some m'"
  shows "length m' = length m"
proof (cases "dtype_of t")
  case (Some e)
  then have "t = dtype_value e" by (simp add: dtype_of_eq_Some)
  with assms show ?thesis by (blast dest: host.frame(1))
qed (use assms in \<open>simp add: hccl_host_buf_init_def\<close>)

lemma hccl_reduce_check_buf_init_length:
  assumes "hccl_reduce_check_buf_init m base n t op v k = Some m'"
  shows "length m' = length m"
proof (cases "dtype_of t")
  case (Some e)
  then have "t = dtype_value e" by (simp add: dtype_of_eq_Some)
  with assms reduce.frame(1) [where t = e and v = "(v, op, k)"] show ?thesis by (simp del: dtype_value.simps)
qed (use assms in \<open>simp add: hccl_reduce_check_buf_init_def\<close>)

text \<open>A property of an object that the statements shared by the tests keep, apart from those that allocate.\<close>

locale quiet_object = quiet_frame I for I :: "'a HcclOpBaseTest_scheme \<Rightarrow> bool"
begin

lemma say [preserve_intros]: "preserves I (say t)"
  unfolding say_def by (rule print)

lemma update_host:
  "(\<And>m q m'. f m q = Some m' \<Longrightarrow> length m' = length m) \<Longrightarrow> preserves I (update_opt (update_buffer p f))"
  by (rule preserves_update_opt) (metis update_buffer)

lemma fill_host [preserve_intros]: "preserves I (fill_host p n v)"
  unfolding fill_host_def by (intro preserve_intros update_host) (rule hccl_host_buf_init_length)

lemma fill_expected [preserve_intros]: "preserves I (fill_expected p n v)"
  unfolding fill_expected_def by (intro preserve_intros update_host) (rule hccl_reduce_check_buf_init_length)

lemma for_ranks [preserve_intros]: "(\<And>i. preserves I (body i)) \<Longrightarrow> preserves I (for_ranks body)"
  unfolding for_ranks_def by (intro preserve_intros)

lemma host_to_send [preserve_intros]: "preserves I (host_to_send A n)"
  unfolding host_to_send_def by (intro preserve_intros)

lemma print_report [preserve_intros]: "preserves I (print_report rep)"
  unfolding print_report_def by (cases rep) (auto intro!: preserve_intros)

lemma store_u64 [preserve_intros]: "preserves I (update_opt (\<lambda>s. store_u64 (p s) i (v s) s))"
  by (rule preserves_update_opt) (simp add: store_u64_def write_mem)

lemma store_u64_bind [preserve_intros]:
  "preserves I (update_opt (\<lambda>s. Option.bind (f s) (\<lambda>n. store_u64 (p s) i (v n s) s)))"
  by (rule preserves_update_opt) (auto simp: store_u64_def write_mem split: bind_splits)

lemma wait_for_sync [preserve_intros]: "preserves I (wait_for_sync A limit)"
  unfolding wait_for_sync_def by (intro preserve_intros)

lemma undefined_cmd [preserve_intros]: "preserves I (\<lambda>_. None)"
  by (simp add: preserves_def)

lemma timed_run [preserve_intros]: "preserves I c \<Longrightarrow> preserves I (timed_run A limit c)"
  unfolding timed_run_def Let_def
  by (intro preserve_intros) (auto intro!: preserve_intros)

lemma measured [preserve_intros]: "(\<And>t. preserves I (k t)) \<Longrightarrow> preserves I (measured A k)"
  unfolding measured_def by (intro preserve_intros)

lemma warn_op_flag [preserve_intros]: "preserves I warn_op_flag"
  unfolding warn_op_flag_def by (intro preserve_intros)

end

text \<open>
  It survives that verification is switched off, and does not depend on the error count and the
  once-only flags either.
\<close>

locale quiet_test = quiet_object I for I :: "'a HcclOpBaseTest_scheme \<Rightarrow> bool" +
  assumes switches:
    "\<And>s. I s \<Longrightarrow> I (s\<lparr>check := 0\<rparr>)" "\<And>s b. I (s\<lparr>print_header := b\<rparr>) \<longleftrightarrow> I s"
    "\<And>s b. I (s\<lparr>print_dump := b\<rparr>) \<longleftrightarrow> I s" "\<And>s n. I (s\<lparr>check_err := n\<rparr>) \<longleftrightarrow> I s"
begin

lemma warn_once [simp]: "I (warn_once t s) \<longleftrightarrow> I s"
  by (simp add: warn_once_def quiet switches)

lemma no_verification [simp]: "I s \<Longrightarrow> I (no_verification s)"
  by (simp add: no_verification_def switches)

lemma guard [simp]: "I s \<Longrightarrow> I (guard ts th s)"
  by (simp add: guard_def)

lemma is_initdata_overflow [simp]: "I s \<Longrightarrow> I (is_initdata_overflow s)"
  by (simp add: is_initdata_overflow_def switches)

lemma count_failure [preserve_intros]: "preserves I (count_failure r)"
  unfolding count_failure_def by (intro preserve_intros) (auto simp: switches)

lemma compare_result [preserve_intros]: "preserves I (compare_result checks n)"
proof -
  have c: "preserves I (steps [print_report rep, count_failure err])"
    "preserves I (steps [say t, count_failure err])" for rep err t
    by (intro preserve_intros)+
  show ?thesis
  proof (rule preservesI)
    fix s r s' assume I: "I s" and run: "compare_result checks n s = Some (r, s')"
    then consider (none) t where "steps [say t, count_failure 1] s = Some (r, s')"
      | (some) rep err where "steps [print_report rep, count_failure err] s = Some (r, s')"
      by (auto simp: compare_result_def split: option.splits)
    then show "I s'" by cases (rule preservesD [OF c(2) I], assumption, rule preservesD [OF c(1) I])
  qed
qed

lemma print_execution_time [preserve_intros]: "preserves I (print_execution_time a b)"
  unfolding print_execution_time_def print_header_once_def Let_def
  by (intro preserve_intros) (auto simp: switches split: if_splits)

lemma report_time [preserve_intros]: "preserves I (report_time n t)"
  unfolding report_time_def Let_def by (intro preserve_intros)

end

text \<open>A property that does not speak of the host buffers either.\<close>

locale world_object = alloc_frame I for I :: "'a HcclOpBaseTest_scheme \<Rightarrow> bool" +
  assumes host_members: "\<And>s p. I (s\<lparr>host_buf := p\<rparr>) \<longleftrightarrow> I s"
    "\<And>s p. I (s\<lparr>recv_buff_temp := p\<rparr>) \<longleftrightarrow> I s" "\<And>s p. I (s\<lparr>check_buf := p\<rparr>) \<longleftrightarrow> I s"

sublocale world_object \<subseteq> quiet_object ..

context world_object
begin

lemma buffers [preserve_intros]:
  "preserves I (malloc_host_buf A n)" "preserves I (malloc_check_buf A n)" "preserves I (fetch_result A n src)"
  unfolding malloc_host_buf_def malloc_check_buf_def fetch_result_def
  by (intro preserve_intros, simp add: upd_defs host_members)+

end

text \<open>A property that no statement of the tests touches.\<close>

locale test_frame = world_object I for I :: "'a HcclOpBaseTest_scheme \<Rightarrow> bool" +
  assumes members:
    "\<And>s. I s \<Longrightarrow> I (s\<lparr>check := 0\<rparr>)" "\<And>s b. I (s\<lparr>print_header := b\<rparr>) \<longleftrightarrow> I s"
    "\<And>s b. I (s\<lparr>print_dump := b\<rparr>) \<longleftrightarrow> I s" "\<And>s n. I (s\<lparr>check_err := n\<rparr>) \<longleftrightarrow> I s"

sublocale test_frame \<subseteq> quiet_test
  by unfold_locales (simp_all add: members)

lemma frame_updates [simp]:
  "frame (s\<lparr>call_log := l\<rparr>) = frame s" "frame (s\<lparr>blocks := f\<rparr>) = frame s"
  "frame (s\<lparr>next_block := n\<rparr>) = frame s" "frame (s\<lparr>mapped := m\<rparr>) = frame s"
  "frame (s\<lparr>printed := p\<rparr>) = frame s" "frame (s\<lparr>check := c\<rparr>) = frame s"
  "frame (s\<lparr>print_header := b\<rparr>) = frame s" "frame (s\<lparr>print_dump := b\<rparr>) = frame s"
  by (simp_all add: frame_def HcclTest.defs)

lemma frame_members [simp]:
  "frame (s\<lparr>host_buf := q\<rparr>) = frame s" "frame (s\<lparr>recv_buff_temp := q\<rparr>) = frame s"
  "frame (s\<lparr>check_buf := q\<rparr>) = frame s" "frame (s\<lparr>check_err := n\<rparr>) = frame s"
  by (simp_all add: frame_def HcclTest.defs)

lemma frame_world [simp]: "frame (set_block b m s) = frame s" "frame (synced A s) = frame s"
  by (simp_all add: set_block_def synced_def split: option.split)

interpretation cfg: test_frame "\<lambda>s. frame s = k" for k
  by unfold_locales simp_all

text \<open>Verification is on only if it was, with the same number.\<close>

definition check_kept :: "int \<Rightarrow> 'a HcclTest_scheme \<Rightarrow> bool" where
  "check_kept k s \<longleftrightarrow> check s = k \<or> check s = 0"

lemma check_kept_self [simp]: "check_kept (check s) s"
  by (simp add: check_kept_def)

lemma check_set_block [simp]: "check (set_block b m s) = check s" "check (synced A s) = check s"
  by (simp_all add: set_block_def synced_def split: option.split)

interpretation chk: test_frame "\<lambda>s. check_kept k s" for k
  by unfold_locales (simp_all add: check_kept_def)

subsection \<open>What is measured\<close>

lemma call_ok: "call A c s = Some (0, t) \<longleftrightarrow> status A (call_log s) c = 0 \<and> t = s\<lparr>call_log := c # call_log s\<rparr>"
  by (auto simp: call_def invoke_def logged_def Let_def)

lemma call_any: "call A c s = Some (r, t) \<Longrightarrow> t = s\<lparr>call_log := c # call_log s\<rparr>"
  by (auto simp: call_def invoke_def logged_def Let_def split: if_splits)

lemma call_returns: "\<exists>r. call A c s = Some (r, s\<lparr>call_log := c # call_log s\<rparr>)"
  by (auto simp: call_def invoke_def logged_def Let_def)

definition sync_calls :: "u64 \<Rightarrow> 'a HcclTest_scheme \<Rightarrow> call list" where
  "sync_calls limit s =
     (if only_device_exec_time s \<noteq> 0 \<and> \<not> (isCcuSched s \<and> data_size (data s) \<ge> limit)
      then [Acl (ResetEvent (sync_event s) (stream s)), Acl (StreamWaitEvent (stream s) (sync_event s))]
      else [])"

definition post_calls :: "'a HcclTest_scheme \<Rightarrow> call list" where
  "post_calls s =
     (if only_device_exec_time s \<noteq> 0
      then [Acl (RecordEvent (sync_event s) (sync_stream s)),
            Os (SleepMs (50 + warmup_iters s * 2 + iters s * 2))]
      else [])"

text \<open>The calls of a run, the last one first, before the final synchronisation.\<close>

definition timed_log :: "u64 \<Rightarrow> 'a HcclTest_scheme \<Rightarrow> call \<Rightarrow> call list" where
  "timed_log limit s c =
     post_calls s @ [Acl (RecordEvent (end_event s) (stream s))] @ replicate (nat (iters s)) c @
     [Acl (RecordEvent (start_event s) (stream s))] @ replicate (nat (warmup_iters s)) c @ sync_calls limit s"

definition after_run :: "api \<Rightarrow> u64 \<Rightarrow> 'a HcclTest_scheme \<Rightarrow> call \<Rightarrow> 'a HcclTest_scheme" where
  "after_run A limit s c =
     logged (Acl (SynchronizeStream (stream s)))
       (synced A (s\<lparr>call_log := timed_log limit s c @ call_log s\<rparr>))"

text \<open>
  The interface of a measured statement: it is one call, whose arguments do not depend on the
  calls made so far.
\<close>

locale measured_call =
  fixes collective :: "api \<Rightarrow> 'a HcclTest_scheme cmd" and the_call :: "'a HcclTest_scheme \<Rightarrow> call"
  assumes runs: "collective A s = call A (the_call s) s"
    and stable: "the_call (s\<lparr>call_log := l\<rparr>) = the_call s"
begin

lemma repeat_log:
  "repeat_do n (collective A) s = Some (0, t) \<Longrightarrow>
     t = s\<lparr>call_log := replicate n (the_call s) @ call_log s\<rparr>"
proof (induction n arbitrary: s)
  case (Suc n)
  then have "repeat_do n (collective A) (s\<lparr>call_log := the_call s # call_log s\<rparr>) = Some (0, t)"
    by (auto simp: runs [of A s] dest: call_any split: option.splits if_splits)
  from Suc.IH [OF this] show ?case by (simp add: stable replicate_app_Cons_same)
qed simp

lemma repeat_returns:
  assumes "\<And>log. status A log (the_call s) = 0"
  shows "repeat_do n (collective A) s = Some (0, s\<lparr>call_log := replicate n (the_call s) @ call_log s\<rparr>)"
  using assms
proof (induction n arbitrary: s)
  case (Suc n)
  have "call A (the_call s) s = Some (0, s\<lparr>call_log := the_call s # call_log s\<rparr>)"
    by (simp add: call_ok Suc.prems)
  moreover have "repeat_do n (collective A) (s\<lparr>call_log := the_call s # call_log s\<rparr>) =
      Some (0, s\<lparr>call_log := replicate n (the_call s) @ the_call s # call_log s\<rparr>)"
    using Suc.IH [of "s\<lparr>call_log := the_call s # call_log s\<rparr>"] Suc.prems by (simp add: stable)
  ultimately show ?case by (simp add: runs [of A s] replicate_app_Cons_same)
qed simp

lemma timed_run_ok:
  assumes "timed_run A limit (collective A) s = Some (0, t)"
  shows "t = after_run A limit s (the_call s)"
proof -
  define s1 where "s1 = s\<lparr>call_log := sync_calls limit s @ call_log s\<rparr>"
  have w: "wait_for_sync A limit s = Some (0, u) \<Longrightarrow> u = s1" for u
    by (auto simp: wait_for_sync_def ok_stages call_ok s1_def sync_calls_def split: if_splits)
  obtain s2 s3 s4 s5 s6 where st: "repeat_do (nat (warmup_iters s1)) (collective A) s1 = Some (0, s2)"
      "call A (Acl (RecordEvent (start_event s2) (stream s2))) s2 = Some (0, s3)"
      "repeat_do (nat (iters s3)) (collective A) s3 = Some (0, s4)"
      "call A (Acl (RecordEvent (end_event s4) (stream s4))) s4 = Some (0, s5)"
      "when_do (\<lambda>s. only_device_exec_time s \<noteq> 0)
         (steps
           [with_state (\<lambda>s.
              let sleepTime = 50 + warmup_iters s * 2 + iters s * 2
              in if in_s 32 sleepTime then ignore (call A (Os (SleepMs sleepTime))) else (\<lambda>_. None)),
            with_state (\<lambda>s. call A (Acl (RecordEvent (sync_event s) (sync_stream s))))]) s5 = Some (0, s6)"
      "aclrtSynchronizeStream A (stream s6) s6 = Some (0, t)"
    using assms unfolding timed_run_def
    by (simp only: steps_ok with_state_ok) (blast dest: w)
  have 2: "s2 = s1\<lparr>call_log := replicate (nat (warmup_iters s)) (the_call s) @ call_log s1\<rparr>"
    using repeat_log [OF st(1)] by (simp add: s1_def stable)
  have 3: "s3 = s2\<lparr>call_log := Acl (RecordEvent (start_event s) (stream s)) # call_log s2\<rparr>"
    using st(2) by (simp add: call_ok 2 s1_def)
  have 4: "s4 = s3\<lparr>call_log := replicate (nat (iters s)) (the_call s) @ call_log s3\<rparr>"
    using repeat_log [OF st(3)] by (simp add: 3 2 s1_def stable)
  have 5: "s5 = s4\<lparr>call_log := Acl (RecordEvent (end_event s) (stream s)) # call_log s4\<rparr>"
    using st(4) by (simp add: call_ok 4 3 2 s1_def)
  have 6: "s6 = s5\<lparr>call_log := post_calls s @ call_log s5\<rparr>"
    using st(5) by (auto simp: ok_stages Let_def call_ok post_calls_def 5 4 3 2 s1_def
        split: if_splits dest!: call_any)
  show ?thesis
    using st(6) by (auto simp: aclrtSynchronizeStream_def invoke_def Let_def after_run_def timed_log_def
        6 5 4 3 2 s1_def split: if_splits)
qed

lemma timed_run_returns:
  assumes ok: "\<And>log c. status A log c = 0"
    and "only_device_exec_time s \<noteq> 0 \<Longrightarrow> in_s 32 (50 + warmup_iters s * 2 + iters s * 2)"
  shows "timed_run A limit (collective A) s = Some (0, after_run A limit s (the_call s))"
proof -
  have c: "call A c u = Some (0, u\<lparr>call_log := c # call_log u\<rparr>)" for c and u :: "'a HcclTest_scheme"
    by (simp add: call_ok ok)
  have w: "wait_for_sync A limit s = Some (0, s\<lparr>call_log := sync_calls limit s @ call_log s\<rparr>)"
    by (simp add: wait_for_sync_def cmd_defs c sync_calls_def)
  show ?thesis
    using assms(2) unfolding timed_run_def
    by (simp add: steps.simps w with_state_def repeat_returns ok c stable when_do_def ignore_def Let_def
        aclrtSynchronizeStream_def invoke_def after_run_def timed_log_def post_calls_def)
qed

end

end
