(* ===== verification/Driver.thy ===== *)
theory Driver
  imports Cmd_Line Collective_Run
begin

text \<open>
  The life of a test (\<open>common/src/hccl_test_common.cc\<close> and \<open>hccl_test_main.cc\<close>): devices, the
  communicator, the loop over the sizes with its buffers, the clean-up, and \<open>main\<close>.  The virtual
  functions a test overrides are the record \<open>vtable\<close>.
\<close>

record 's vtable =
  hccl_op_base_test :: "'s cmd"
  init_malloc_Ksize_by_data :: "'s \<Rightarrow> (u64 \<times> 's) option"
  init_send_recv_size_by_data :: "'s \<Rightarrow> u64 \<times> u64"

text \<open>\<open>ret = c; if (ret != 0) { f } else k\<close>: how the code jumps to its clean-up labels.\<close>

definition attempt :: "'s cmd \<Rightarrow> (int \<Rightarrow> 's cmd) \<Rightarrow> 's cmd \<Rightarrow> 's cmd" where
  "attempt c f k s =
     (case c s of None \<Rightarrow> None | Some (r, s') \<Rightarrow> if r \<noteq> 0 then f r s' else k s')"

subsection \<open>Devices\<close>

definition set_device_sat_mode :: "api \<Rightarrow> 'a HcclTest_scheme cmd" where
  "set_device_sat_mode A =
     (case soc_name A of
        None \<Rightarrow> fail_with ''aclrtGetSocName failed'' (- 1)
      | Some soc \<Rightarrow> when_do (\<lambda>_. sat_mode_needed soc) (call A (Acl SetDeviceSatMode)))"

definition device_init :: "api \<Rightarrow> 'a HcclTest_scheme cmd" where
  "device_init A =
     steps
      [call A (Acl AclInit),
       with_state (\<lambda>s. call A (Acl (SetDevice (dev_id s)))),
       attempt (set_device_sat_mode A)
         (\<lambda>r. fail_with ''set_device_sat_mode execute failed'' r) skip,
       call_value A (Acl CreateEvent) (\<lambda>n s. s\<lparr>start_event := n\<rparr>),
       call_value A (Acl CreateEvent) (\<lambda>n s. s\<lparr>end_event := n\<rparr>),
       call_value A (Acl CreateStream) (\<lambda>n s. s\<lparr>stream := n\<rparr>),
       when_do (\<lambda>s. only_device_exec_time s \<noteq> 0)
         (steps
           [call_value A (Acl CreateStream) (\<lambda>n s. s\<lparr>sync_stream := n\<rparr>),
            call_value A (Acl CreateEventWithFlag) (\<lambda>n s. s\<lparr>sync_event := n\<rparr>)]),
       with_state (\<lambda>s. call A (Acl (SetStreamFailureMode (stream s) 1)))]"

definition destory_hcclComm :: "api \<Rightarrow> 'a HcclTest_scheme cmd" where
  "destory_hcclComm A =
     steps
      [when_do (\<lambda>s. only_device_exec_time s \<noteq> 0)
         (steps
           [with_state (\<lambda>s. call A (Acl (DestroyStream (sync_stream s)))),
            with_state (\<lambda>s. call A (Acl (DestroyEvent (sync_event s))))]),
       with_state (\<lambda>s. call A (Acl (DestroyStream (stream s)))),
       with_state (\<lambda>s. call A (Acl (DestroyEvent (start_event s)))),
       with_state (\<lambda>s. call A (Acl (DestroyEvent (end_event s)))),
       with_state (\<lambda>s. call A (Acl (ResetDevice (dev_id s))))]"

definition check_alloc_memory_size :: "api \<Rightarrow> u64 \<Rightarrow> 'a HcclTest_scheme cmd" where
  "check_alloc_memory_size A alloc_size s =
     (case soc_name A of
        None \<Rightarrow> None
      | Some soc \<Rightarrow>
          (let c = Acl (GetMemInfo (use_ddr_mem soc));
               freeMem = of_nat (delivered A (call_log s) c)
           in if status A (call_log s) c \<noteq> 0
              then fail_with ''Get ddr memory info failed.'' (HCCL_E_MEMORY A) (logged c s)
              else if alloc_size > freeMem
              then fail_with ''Alloc memory size is larger than free memory'' (HCCL_E_MEMORY A) (logged c s)
              else Some (0, logged c s)))"

subsection \<open>The communicator\<close>

definition upd_comm :: "nat \<Rightarrow> 'a HcclTest_scheme \<Rightarrow> 'a HcclTest_scheme" where
  "upd_comm n s = s\<lparr>hccl_comm := n\<rparr>"

text \<open>
  A configuration is initialised by the library; the members the code sets are the world rank,
  the job and the expansion mode.
\<close>

definition CommInit :: "api \<Rightarrow> 'a HcclTest_scheme cmd" where
  "CommInit A = with_state (\<lambda>s. call_value A
     (Hccl (CommInitRootInfo (word_of_int (rank_size s)) (comm_id s) (word_of_int (rank_id s)))) upd_comm)"

definition CommInitConfig :: "api \<Rightarrow> ('a HcclTest_scheme \<Rightarrow> u64) \<Rightarrow> 'a HcclTest_scheme cmd" where
  "CommInitConfig A job = with_state (\<lambda>s. call_value A
     (Hccl (CommInitRootInfoConfig (word_of_int (rank_size s)) (comm_id s) (word_of_int (rank_id s))
        (word_of_int (rank_id s)) (job s) (word_of_int (accelerator_config s)))) upd_comm)"

definition init_hcclComm_without_nslb :: "api \<Rightarrow> 'a HcclTest_scheme cmd" where
  "init_hcclComm_without_nslb A =
     if_else (\<lambda>s. accelerator_config s > 0) (CommInitConfig A (\<lambda>_. 0)) (CommInit A)"

definition invalid_bytes :: "u8 list" where
  "invalid_bytes = map (\<lambda>c. of_nat (of_char c)) ''invalid''"

text \<open>\<open>strcmp\<close> sees the bytes before the first zero.\<close>

definition c_bytes :: "u8 list \<Rightarrow> u8 list" where "c_bytes bs = takeWhile (\<lambda>b. b \<noteq> 0) bs"

text \<open>
  A broadcast sends \<open>HCCL_ROOT_INFO_BYTES\<close> bytes, a constant of the library's header.  The array with the
  text \<open>invalid\<close> has 8: to send more of it is undefined.
\<close>

definition share_root_info :: "api \<Rightarrow> 'a HcclTest_scheme cmd" where
  "share_root_info A s =
     (if rank_id s = root_rank s then
        (let c = Hccl GetRootInfo;
             getRootInfo = status A (call_log s) c;
             s1 = logged c s;
             info = (if getRootInfo = 0 then bytes_of A (call_log s) c else comm_id s)
         in steps
              [say ''the minbytes is, maxbytes is, iters is, warmup_iters is'',
               assign (\<lambda>s. s\<lparr>comm_id := info\<rparr>),
               ignore (if getRootInfo = 0 then call A (Os (MpiIbcast info (root_rank s)))
                 else if length invalid_bytes + 1 < HCCL_ROOT_INFO_BYTES A then (\<lambda>_. None)
                 else call A (Os (MpiIbcast invalid_bytes (root_rank s)))),
               ignore (call A (Os MpiWait)),
               when_do (\<lambda>_. getRootInfo \<noteq> 0)
                 (fail_with ''HcclGetRootInfo failed, notify other process to exit'' getRootInfo)] s1)
      else
        (let c = Os (MpiIbcast (comm_id s) (root_rank s));
             s1 = (logged c s)\<lparr>comm_id := bytes_of A (call_log s) c\<rparr>
         in steps
              [ignore (call A (Os MpiWait)),
               when_do (\<lambda>s. c_bytes (comm_id s) = invalid_bytes)
                 (fail_with ''received invalid data from root process'' (- 1))] s1))"

text \<open>\<open>hccl_compat.h\<close> replaces the query of the library by a constant, \<open>UINT32_MAX\<close>.\<close>

definition HcclGetCommConfigCapabilityCompat :: u32 where
  "HcclGetCommConfigCapabilityCompat = - 1"

definition CommInitNslb :: "api \<Rightarrow> 'a HcclTest_scheme cmd" where
  "CommInitNslb A =
     CommInitConfig A (\<lambda>s. let port = (11 :: u64); ipaddress = (ucast (inet_addr A (comm_id s)) :: u64)
       in (push_bit NSLBDP_PORT_OFFSET port OR ipaddress))"

definition init_nslb :: "api \<Rightarrow> 'a HcclTest_scheme cmd" where
  "init_nslb A =
     (if HcclGetCommConfigCapabilityCompat < word_of_int NSLBDP_SUPPORT_VERSION
      then steps
         [say ''The current version of hccl_test does not support the nslb-dp capability.'', CommInit A]
      else CommInitNslb A)"

definition init_hcclComm :: "api \<Rightarrow> 'a HcclTest_scheme cmd" where
  "init_hcclComm A =
     steps
      [share_root_info A,
       if_else (\<lambda>s. nslb_flag s = 1) (init_nslb A) (ignore (init_hcclComm_without_nslb A))]"

subsection \<open>Buffers of one size\<close>

definition round_up :: "u64 \<Rightarrow> u64 \<Rightarrow> u64" where
  "round_up x g = (x + g - 1) div g * g"

definition get_reseved_size :: "u64 \<Rightarrow> u64 \<Rightarrow> u64 \<Rightarrow> u64 option" where
  "get_reseved_size send_bytes recv_bytes g =
     (if g = 0 then None else Some (round_up send_bytes g + round_up recv_bytes g))"

definition get_buff_size ::
    "('a HcclTest_scheme) vtable \<Rightarrow> 'a HcclTest_scheme \<Rightarrow> ((u64 \<times> u64) \<times> 'a HcclTest_scheme) option" where
  "get_buff_size V s =
     (case init_malloc_Ksize_by_data V (init_data_count s) of
        None \<Rightarrow> None
      | Some (k, s1) \<Rightarrow>
          (let s2 = s1\<lparr>malloc_kSize := k\<rparr> in Some (init_send_recv_size_by_data V s2, s2)))"

definition aclrtMapMem :: "api \<Rightarrow> ptr \<Rightarrow> u64 \<Rightarrow> nat \<Rightarrow> 'a world_scheme cmd" where
  "aclrtMapMem A p n handle =
     invoke A (Acl (MapMem p n handle)) (\<lambda>s. Some (s\<lparr>mapped := (p, unat n) # mapped s\<rparr>))"

definition aclrtUnmapMem :: "api \<Rightarrow> ptr \<Rightarrow> 'a world_scheme cmd" where
  "aclrtUnmapMem A p =
     invoke A (Acl (UnmapMem p)) (\<lambda>s. Some (s\<lparr>mapped := filter (\<lambda>(q, n). q \<noteq> p) (mapped s)\<rparr>))"

text \<open>The loop over \<open>phy_alloc_mem_handle\<close> and the \<open>clear\<close> after it.\<close>

definition release_handles :: "api \<Rightarrow> 'a HcclTest_scheme cmd" where
  "release_handles A =
     steps
      [with_state (\<lambda>s. steps (map (\<lambda>(p, handle). steps
         [with_state (\<lambda>s. call A (Hccl (CommDeactivateCommMemory (hccl_comm s) p))),
          aclrtUnmapMem A p,
          call A (Acl (FreePhysical handle))]) (phy_alloc_mem_handle s))),
       assign (\<lambda>s. s\<lparr>phy_alloc_mem_handle := []\<rparr>)]"

definition enableerr0 :: "api \<Rightarrow> string \<Rightarrow> int \<Rightarrow> 'a HcclTest_scheme cmd" where
  "enableerr0 A msg r = steps [say msg, release_handles A, ret r]"

text \<open>From \<open>aclrtMallocPhysical\<close> to the end of \<open>prepare_zero_copy\<close>.\<close>

definition enable_memory :: "api \<Rightarrow> ptr \<Rightarrow> u64 \<Rightarrow> u64 \<Rightarrow> 'a HcclTest_scheme cmd" where
  "enable_memory A at missing malloc_mem = with_state (\<lambda>s.
      let c = Acl (MallocPhysical missing); mem_handle = delivered A (call_log s) c
      in attempt (call A c) (enableerr0 A ''aclrtMallocPhysical failed.'')
           (attempt (aclrtMapMem A at missing mem_handle) (enableerr0 A ''aclrtMapMem failed.'')
             (attempt (with_state (\<lambda>s. call A (Hccl (CommActivateCommMemory (hccl_comm s) at missing mem_handle))))
                (enableerr0 A ''HcclCommValidMemory failed.'')
                (assign (\<lambda>s. s\<lparr>phy_alloc_mem_handle := phy_alloc_mem_handle s @ [(at, mem_handle)],
                               current_alloc_phy_mem_byte := malloc_mem\<rparr>)))))"

definition prepare_zero_copy :: "api \<Rightarrow> u64 \<Rightarrow> u64 \<Rightarrow> 'a HcclTest_scheme cmd" where
  "prepare_zero_copy A send_bytes recv_bytes s =
     (if \<not> enable_zero_copy s \<or> send_bytes + recv_bytes = 0 then Some (0, s)
      else case get_reseved_size send_bytes recv_bytes (physicalGranularity s) of
        None \<Rightarrow> None
      | Some malloc_mem \<Rightarrow>
          (let current = current_alloc_phy_mem_byte s
           in if current \<ge> malloc_mem then Some (0, s)
              else enable_memory A (ptr_add (vir_ptr s) (unat current)) (malloc_mem - current) malloc_mem s))"

definition alloc_hccl_send_recv_buffer :: "api \<Rightarrow> u64 \<Rightarrow> u64 \<Rightarrow> 'a HcclTest_scheme cmd" where
  "alloc_hccl_send_recv_buffer A send_bytes recv_bytes =
     if_else enable_zero_copy
       (update_opt (\<lambda>s. if physicalGranularity s = 0 then None
         else Some (s\<lparr>send_buff := vir_ptr s,
                recv_buff := ptr_add (vir_ptr s) (unat (round_up send_bytes (physicalGranularity s)))\<rparr>)))
       (steps
         [when_do (\<lambda>_. send_bytes \<noteq> 0) (aclrtMalloc A send_bytes (\<lambda>p s. s\<lparr>send_buff := p\<rparr>)),
          when_do (\<lambda>_. recv_bytes \<noteq> 0) (aclrtMalloc A recv_bytes (\<lambda>p s. s\<lparr>recv_buff := p\<rparr>))])"

definition free_send_recv_buff_and_disable_local_buffer :: "api \<Rightarrow> 'a HcclOpBaseTest_scheme cmd" where
  "free_send_recv_buff_and_disable_local_buffer A =
     steps
      [when_do (\<lambda>s. \<not> enable_zero_copy s)
         (steps
           [when_do (\<lambda>s. send_buff s \<noteq> nullptr) (with_state (\<lambda>s. aclrtFree A (send_buff s))),
            when_do (\<lambda>s. recv_buff s \<noteq> nullptr) (with_state (\<lambda>s. aclrtFree A (recv_buff s)))]),
       attempt (destory_alloc_buf A)
         (\<lambda>r. fail_with ''hccl_op_base destory_alloc_buf failed'' (HCCL_E_MEMORY A)) skip]"

subsection \<open>The loop over the sizes\<close>

text \<open>
  The last part of the \<open>for\<close> statement; a \<open>double\<close> product that does not fit \<open>u64\<close> is undefined.
\<close>

definition next_size :: "DataSize \<Rightarrow> DataSize option" where
  "next_size d =
     (if f64_le (step_factor d) (f64_of_int 1)
      then Some (d\<lparr>data_size := data_size d + step_bytes d\<rparr>)
      else map_option (\<lambda>n. d\<lparr>data_size := n\<rparr>)
             (f64_to_u64 (f64_mul (f64_of_int (uint (data_size d))) (step_factor d))))"

text \<open>An iteration ends the function, leaves the loop, or goes on (\<open>None\<close>).\<close>

datatype loop_exit = Returned int | Left int

definition size_body ::
    "api \<Rightarrow> ('a HcclOpBaseTest_scheme) vtable \<Rightarrow> 'a HcclOpBaseTest_scheme \<Rightarrow>
       (loop_exit option \<times> 'a HcclOpBaseTest_scheme) option" where
  "size_body A V s =
     (case get_buff_size V s of
        None \<Rightarrow> None
      | Some ((send_bytes, recv_bytes), s1) \<Rightarrow>
     (case steps [prepare_zero_copy A send_bytes recv_bytes,
                  alloc_hccl_send_recv_buffer A send_bytes recv_bytes] s1 of
        None \<Rightarrow> None
      | Some (r, s2) \<Rightarrow> if r \<noteq> 0 then Some (Some (Returned r), s2) else
     (case hccl_op_base_test V s2 of
        None \<Rightarrow> None
      | Some (op_ret, s3) \<Rightarrow>
     (case free_send_recv_buff_and_disable_local_buffer A s3 of
        None \<Rightarrow> None
      | Some (r, s4) \<Rightarrow> if r \<noteq> 0 then Some (Some (Returned r), s4)
          else if op_ret \<noteq> 0
          then Some (Some (Left op_ret), s4\<lparr>printed := printed s4 @ [Text ''hccl_op_base execute failed'']\<rparr>)
          else Some (None, s4)))))"

partial_function (option) size_loop ::
    "api \<Rightarrow> ('a HcclOpBaseTest_scheme) vtable \<Rightarrow> 'a HcclOpBaseTest_scheme \<Rightarrow>
       (loop_exit \<times> 'a HcclOpBaseTest_scheme) option" where
  "size_loop A V s =
     (if data_size (data s) \<le> max_bytes (data s) then
        (case size_body A V s of
           None \<Rightarrow> None
         | Some (Some e, s') \<Rightarrow> Some (e, s')
         | Some (None, s') \<Rightarrow>
             (case next_size (data s') of None \<Rightarrow> None | Some d \<Rightarrow> size_loop A V (s'\<lparr>data := d\<rparr>)))
      else Some (Left 0, s))"

definition start_at_min :: "'a HcclTest_scheme \<Rightarrow> 'a HcclTest_scheme" where
  "start_at_min s = s\<lparr>data := (data s)\<lparr>data_size := min_bytes (data s)\<rparr>\<rparr>"

definition opbase_test_by_data_size ::
    "api \<Rightarrow> ('a HcclOpBaseTest_scheme) vtable \<Rightarrow> 'a HcclOpBaseTest_scheme cmd" where
  "opbase_test_by_data_size A V s =
     (case size_loop A V (start_at_min s) of
        None \<Rightarrow> None
      | Some (Returned r, s') \<Rightarrow> Some (r, s')
      | Some (Left r, s') \<Rightarrow> steps [when_do enable_zero_copy (release_handles A), ret r] s')"

subsection \<open>One test\<close>

text \<open>The empty loop that finds the size after the last one.\<close>

partial_function (option) size_scan :: "DataSize \<Rightarrow> DataSize option" where
  "size_scan d =
     (if data_size d \<le> max_bytes d
      then (case next_size d of None \<Rightarrow> None | Some d' \<Rightarrow> size_scan d') else Some d)"

text \<open>The clean-up labels of \<open>start_test\<close>: each status overwrites the one before it.\<close>

definition error_device_init :: "api \<Rightarrow> 'a HcclTest_scheme cmd" where
  "error_device_init A = destory_hcclComm A"

definition error_reserve_memAddress :: "api \<Rightarrow> 'a HcclTest_scheme cmd" where
  "error_reserve_memAddress A =
     steps
      [when_do enable_zero_copy (with_state (\<lambda>s. ignore
         (\<lambda>s. if release Reserved (vir_ptr s) s = None then None
              else invoke A (Acl (ReleaseMemAddress (vir_ptr s))) (release Reserved (vir_ptr s)) s))),
       error_device_init A]"

definition error_destory_comm :: "api \<Rightarrow> 'a HcclTest_scheme cmd" where
  "error_destory_comm A =
     steps [with_state (\<lambda>s. ignore (call A (Hccl (CommDestroy (hccl_comm s))))), error_reserve_memAddress A]"

definition error_reserve_lpcMemory :: "api \<Rightarrow> 'a HcclTest_scheme cmd" where
  "error_reserve_lpcMemory A =
     steps
      [when_do enable_zero_copy
         (with_state (\<lambda>s. ignore (call A (Hccl (CommUnsetMemoryRange (hccl_comm s) (vir_ptr s)))))),
       error_destory_comm A]"

definition run_communicator ::
    "api \<Rightarrow> ('a HcclOpBaseTest_scheme) vtable \<Rightarrow> u64 \<Rightarrow> 'a HcclOpBaseTest_scheme cmd" where
  "run_communicator A V reserve_mem =
     attempt (init_hcclComm A) (\<lambda>_. error_reserve_memAddress A)
       (attempt
         (when_do enable_zero_copy
           (with_state (\<lambda>s. call A (Hccl (CommSetMemoryRange (hccl_comm s) (vir_ptr s) reserve_mem)))))
         (\<lambda>_. steps [say ''HcclCommSetMemoryRange failed.'', error_reserve_lpcMemory A])
         (steps [ignore (opbase_test_by_data_size A V), error_reserve_lpcMemory A]))"

definition plan_reserve ::
    "api \<Rightarrow> ('a HcclOpBaseTest_scheme) vtable \<Rightarrow> 'a HcclOpBaseTest_scheme \<Rightarrow>
       (u64 \<times> 'a HcclOpBaseTest_scheme) option" where
  "plan_reserve A V s =
     (case (if stepbytes_flag s \<noteq> 0 \<and> step_bytes (data s) = 0 then Some (data (start_at_min s))
            else size_scan (data (start_at_min s))) of
        None \<Rightarrow> None
      | Some d \<Rightarrow>
     (case soc_name A of
        None \<Rightarrow> None
      | Some soc \<Rightarrow>
          (let c = Acl (MemGetAllocationGranularity (use_ddr_mem soc) (dev_id s));
               g = (if status A (call_log s) c \<noteq> 0 then 2 * 1024 * 1024 else of_nat (delivered A (call_log s) c))
           in case get_buff_size V ((logged c s)\<lparr>data := d, physicalGranularity := g\<rparr>) of
                None \<Rightarrow> None
              | Some ((send_bytes, recv_bytes), s1) \<Rightarrow>
                  map_option (\<lambda>n. (n, s1)) (get_reseved_size send_bytes recv_bytes g))))"

definition start_test :: "api \<Rightarrow> ('a HcclOpBaseTest_scheme) vtable \<Rightarrow> 'a HcclOpBaseTest_scheme cmd" where
  "start_test A V s =
     (if enable_zero_copy s then
        (case plan_reserve A V s of
           None \<Rightarrow> None
         | Some (reserve_mem, s1) \<Rightarrow>
             steps
              [check_alloc_memory_size A reserve_mem,
               attempt
                (invoke A (Acl (ReserveMemAddress reserve_mem)) (\<lambda>s. Some
                   (alloc A (Acl (ReserveMemAddress reserve_mem)) Reserved (unat reserve_mem)
                     (\<lambda>p s. s\<lparr>vir_ptr := p\<rparr>) s)))
                (\<lambda>_. steps [say ''aclrtReserveMemAddress failed.'', error_device_init A])
                (run_communicator A V reserve_mem)] s1)
      else run_communicator A V 0 s)"

subsection \<open>The main function\<close>

definition hccltesterr3 :: "api \<Rightarrow> int \<Rightarrow> 'a HcclOpBaseTest_scheme cmd" where
  "hccltesterr3 A r = steps [call A (Acl AclFinalize), ignore (call A (Os MpiFinalize)), ret r]"

text \<open>\<open>delete\<close> runs the destructor, which releases the host buffers.\<close>

definition hccltesterr2 :: "api \<Rightarrow> int \<Rightarrow> 'a HcclOpBaseTest_scheme cmd" where
  "hccltesterr2 A r = steps [ignore (destory_alloc_buf A), hccltesterr3 A r]"

definition hccltesterr1 :: "api \<Rightarrow> 'a HcclOpBaseTest_scheme cmd" where
  "hccltesterr1 A =
     attempt (release_env_resource A)
       (\<lambda>r. steps [say ''This is an error in release_env_resource.'', hccltesterr2 A r])
       (hccltesterr2 A 0)"

definition run_test :: "api \<Rightarrow> ('a HcclOpBaseTest_scheme) vtable \<Rightarrow> 'a HcclOpBaseTest_scheme cmd" where
  "run_test A V =
     attempt (get_mpi_proc A)
       (\<lambda>r. steps [say ''This is an error in get_mpi_proc.'', hccltesterr2 A r])
     (attempt check_cmd_line
       (\<lambda>r. steps [say ''This is an error in check_cmd_line.'', hccltesterr2 A r])
     (attempt (device_init A)
       (\<lambda>r. steps [say ''This is an error in device_init.'', hccltesterr2 A r])
     (attempt (get_env_resource A)
       (\<lambda>_. steps [say ''This is an error in get_env.'', hccltesterr1 A])
     (attempt (set_env_resource A)
       (\<lambda>_. steps [say ''This is an error in set_env.'', hccltesterr1 A])
     (steps [ignore (start_test A V), hccltesterr1 A])))))"

definition main ::
    "api \<Rightarrow> ('a HcclOpBaseTest_scheme \<Rightarrow> 'a HcclOpBaseTest_scheme) \<Rightarrow> ('a HcclOpBaseTest_scheme) vtable \<Rightarrow>
       (char \<times> string) list \<Rightarrow> string list \<Rightarrow> 'a HcclOpBaseTest_scheme cmd" where
  "main A init_opbase_ptr V opts rest =
     steps
      [ignore (call A (Os MpiInit)),
       attempt (call A (Os NewTester))
         (\<lambda>_. steps [say ''hccl_test is null'', hccltesterr3 A (- 1)])
         (steps
           [assign init_opbase_ptr,
            (\<lambda>s. case parse_cmd_line A opts rest s of
               None \<Rightarrow> None
             | Some (r, s') \<Rightarrow>
                 if r = 1 then hccltesterr2 A 0 s'
                 else if r = - 1
                 then steps [say ''This is an error in parse_cmd_line.'', hccltesterr2 A (- 1)] s'
                 else run_test A V s')])]"

subsection \<open>The interface of a test\<close>

text \<open>
  What the loop over the sizes relies on: a test leaves the settings alone, and the verification switch
  too unless it turns it off; the size function changes the element count at most.
\<close>

locale tester =
  fixes V :: "('a HcclOpBaseTest_scheme) vtable"
  assumes op_frame: "hccl_op_base_test V s = Some (r, t) \<Longrightarrow> frame t = frame s"
    and op_check: "hccl_op_base_test V s = Some (r, t) \<Longrightarrow> check_kept (check s) t"
    and size_frame: "init_malloc_Ksize_by_data V s = Some (k, t) \<Longrightarrow> \<exists>n. t = s\<lparr>data := (data s)\<lparr>count := n\<rparr>\<rparr>"

text \<open>The fields of the data that control the loop.\<close>

definition loop_data :: "DataSize \<Rightarrow> u64 \<times> u64 \<times> u64 \<times> u64 \<times> u64" where
  "loop_data d = (min_bytes d, max_bytes d, step_bytes d, step_factor d, data_size d)"

lemma frame_data: "frame s = frame t \<Longrightarrow> data s = data t"
  by (simp add: frame_def HcclTest.defs)

lemma preserves_attempt [preserve_intros]:
  "preserves I c \<Longrightarrow> (\<And>r. preserves I (f r)) \<Longrightarrow> preserves I k \<Longrightarrow> preserves I (attempt c f k)"
proof (rule preservesI)
  fix s r s'
  assume c: "preserves I c" and f: "\<And>r. preserves I (f r)" and k: "preserves I k"
    and I: "I s" and run: "attempt c f k s = Some (r, s')"
  then obtain r1 s1 where 1: "c s = Some (r1, s1)" by (auto simp: attempt_def split: option.splits)
  have "I s1" by (rule preservesD [OF c I 1])
  then show "I s'"
    using run 1 preservesD [OF k, of s1 r s'] preservesD [OF f, of s1 r1 r s']
    by (auto simp: attempt_def split: if_splits)
qed

lemma attempt_cong: "(\<And>t. c s = Some (0, t) \<Longrightarrow> k t = l t) \<Longrightarrow> attempt c f k s = attempt c f l s"
  by (auto simp: attempt_def split: option.split)

lemma preserves_option [preserve_intros]:
  "preserves I c \<Longrightarrow> (\<And>x. preserves I (d x)) \<Longrightarrow> preserves I (case v of None \<Rightarrow> c | Some x \<Rightarrow> d x)"
  by (simp split: option.split)

lemma steps_keep: "steps cs s = Some (r, t) \<Longrightarrow> preserves I (steps cs) \<Longrightarrow> I s \<Longrightarrow> I t"
  by (rule preservesD)

lemma preserves_prod [preserve_intros]:
  "(\<And>a b. preserves I (f a b)) \<Longrightarrow> preserves I (case x of (a, b) \<Rightarrow> f a b)"
  by (cases x) simp

context test_frame
begin

lemma free_slot [preserve_intros]:
  "(\<And>p s. I (put p s) \<longleftrightarrow> I s) \<Longrightarrow> preserves I (free_slot A slot put)"
  unfolding free_slot_def by (intro preserve_intros) simp_all

lemma destory_alloc_buf [preserve_intros]: "preserves I (destory_alloc_buf A)"
  unfolding destory_alloc_buf_def by (intro preserve_intros) (simp_all add: upd_defs host_members)

lemma fail_with [preserve_intros]: "preserves I (fail_with m r)"
  by (auto simp: fail_with_def preserves_def quiet)

lemma free_buffers [preserve_intros]: "preserves I (free_send_recv_buff_and_disable_local_buffer A)"
  unfolding free_send_recv_buff_and_disable_local_buffer_def by (intro preserve_intros)

end

text \<open>
  A property that the driver's own work on the buffers of one size keeps as well: it does not speak
  of the handles, pointers and byte counts of those buffers.
\<close>

locale driver_frame = test_frame I for I :: "'a HcclOpBaseTest_scheme \<Rightarrow> bool" +
  assumes handles:
    "\<And>s h. I (s\<lparr>phy_alloc_mem_handle := h\<rparr>) \<longleftrightarrow> I s" "\<And>s n. I (s\<lparr>current_alloc_phy_mem_byte := n\<rparr>) \<longleftrightarrow> I s"
    "\<And>s p. I (s\<lparr>send_buff := p\<rparr>) \<longleftrightarrow> I s" "\<And>s p. I (s\<lparr>recv_buff := p\<rparr>) \<longleftrightarrow> I s"
    and mapping: "\<And>s m. I (s\<lparr>mapped := m\<rparr>) \<longleftrightarrow> I s"
begin

lemma remap [preserve_intros]:
  "preserves I (aclrtUnmapMem A p)" "preserves I (aclrtMapMem A p n h)"
  unfolding aclrtUnmapMem_def aclrtMapMem_def by (intro preserve_intros; auto simp: mapping)+

lemma release_handles [preserve_intros]: "preserves I (release_handles A)"
  unfolding release_handles_def by (intro preserve_intros) (simp_all add: handles)

lemma enable_memory: "preserves I (enable_memory A at missing n)"
  unfolding enable_memory_def Let_def enableerr0_def by (intro preserve_intros) (simp add: handles)

lemma prepare_zero_copy [preserve_intros]: "preserves I (prepare_zero_copy A m n)"
  by (rule preservesI)
    (auto simp: prepare_zero_copy_def Let_def split: if_splits option.splits
      dest: preservesD [OF enable_memory])

lemma alloc_buffers [preserve_intros]: "preserves I (alloc_hccl_send_recv_buffer A m n)"
  unfolding alloc_hccl_send_recv_buffer_def
  by (intro preserve_intros) (auto simp: handles split: if_splits)

end

text \<open>A property that joining the communicator keeps: it does not speak of its identifier and handle.\<close>

locale comm_frame = quiet_frame I for I :: "'a HcclTest_scheme \<Rightarrow> bool" +
  assumes comm: "\<And>s x. I (s\<lparr>comm_id := x\<rparr>) \<longleftrightarrow> I s" "\<And>s n. I (s\<lparr>hccl_comm := n\<rparr>) \<longleftrightarrow> I s"
begin

lemma messages [preserve_intros]: "preserves I (say t)" "preserves I (fail_with t r)"
  by (auto simp: say_def print_def assign_def fail_with_def preserves_def quiet)

lemma share_root_info [preserve_intros]: "preserves I (share_root_info A)"
proof (rule preservesI)
  fix s r s'
  assume "I s" and run: "share_root_info A s = Some (r, s')"
  show "I s'"
  proof (cases "rank_id s = root_rank s")
    case True
    have undefined: "preserves I (\<lambda>_. None)" by (simp add: preserves_def)
    show ?thesis
      by (rule steps_keep [OF run [unfolded share_root_info_def Let_def if_P [OF True]]])
        (use \<open>I s\<close> in \<open>(intro preserve_intros preserves_if undefined)?; simp add: logged comm\<close>)+
  next
    case False
    show ?thesis
      by (rule steps_keep [OF run [unfolded share_root_info_def Let_def if_not_P [OF False]]])
        (use \<open>I s\<close> in \<open>(intro preserve_intros)?; simp add: logged comm\<close>)+
  qed
qed

lemma CommInit [preserve_intros]: "preserves I (CommInit A)" "preserves I (CommInitConfig A job)"
  unfolding CommInit_def CommInitConfig_def upd_comm_def by (intro preserve_intros; simp add: comm)+

lemma init_hcclComm [preserve_intros]: "preserves I (init_hcclComm A)"
  unfolding init_hcclComm_def init_nslb_def init_hcclComm_without_nslb_def CommInitNslb_def
  by (intro preserve_intros)

end

text \<open>A property of the members of an object that the driver leaves alone once the options are checked.\<close>

locale settings_frame = world_frame I for I :: "'a HcclOpBaseTest_scheme \<Rightarrow> bool" +
  assumes new_sizes: "\<And>s d. I (s\<lparr>data := d\<rparr>) \<longleftrightarrow> I s" "\<And>s n. I (s\<lparr>malloc_kSize := n\<rparr>) \<longleftrightarrow> I s"
    "\<And>s n. I (s\<lparr>physicalGranularity := n\<rparr>) \<longleftrightarrow> I s" "\<And>s n. I (s\<lparr>current_alloc_phy_mem_byte := n\<rparr>) \<longleftrightarrow> I s"
    and new_pointers: "\<And>s p. I (s\<lparr>vir_ptr := p\<rparr>) \<longleftrightarrow> I s" "\<And>s p. I (s\<lparr>send_buff := p\<rparr>) \<longleftrightarrow> I s"
    "\<And>s p. I (s\<lparr>recv_buff := p\<rparr>) \<longleftrightarrow> I s" "\<And>s h. I (s\<lparr>phy_alloc_mem_handle := h\<rparr>) \<longleftrightarrow> I s"
    "\<And>s p. I (s\<lparr>host_buf := p\<rparr>) \<longleftrightarrow> I s" "\<And>s p. I (s\<lparr>recv_buff_temp := p\<rparr>) \<longleftrightarrow> I s"
    "\<And>s p. I (s\<lparr>check_buf := p\<rparr>) \<longleftrightarrow> I s"
    and new_switches: "\<And>s. I s \<Longrightarrow> I (s\<lparr>check := 0\<rparr>)" "\<And>s b. I (s\<lparr>print_header := b\<rparr>) \<longleftrightarrow> I s"
    "\<And>s b. I (s\<lparr>print_dump := b\<rparr>) \<longleftrightarrow> I s" "\<And>s n. I (s\<lparr>check_err := n\<rparr>) \<longleftrightarrow> I s"
    and new_handles: "\<And>s x. I (s\<lparr>comm_id := x\<rparr>) \<longleftrightarrow> I s" "\<And>s n. I (s\<lparr>hccl_comm := n\<rparr>) \<longleftrightarrow> I s"
    "\<And>s n. I (s\<lparr>start_event := n\<rparr>) \<longleftrightarrow> I s" "\<And>s n. I (s\<lparr>end_event := n\<rparr>) \<longleftrightarrow> I s"
    "\<And>s n. I (s\<lparr>stream := n\<rparr>) \<longleftrightarrow> I s" "\<And>s n. I (s\<lparr>sync_stream := n\<rparr>) \<longleftrightarrow> I s"
    "\<And>s n. I (s\<lparr>sync_event := n\<rparr>) \<longleftrightarrow> I s"

sublocale settings_frame \<subseteq> driver_frame
  by unfold_locales (simp_all add: new_sizes new_pointers new_switches stable)

sublocale settings_frame \<subseteq> comm_frame
  by unfold_locales (simp_all add: new_handles)

context settings_frame
begin

lemma set_device_sat_mode [preserve_intros]: "preserves I (set_device_sat_mode A)"
  unfolding set_device_sat_mode_def by (intro preserve_intros)

lemma device_init [preserve_intros]: "preserves I (device_init A)"
  unfolding device_init_def by (intro preserve_intros; simp add: new_handles)

lemma destory_hcclComm [preserve_intros]: "preserves I (destory_hcclComm A)"
  unfolding destory_hcclComm_def by (intro preserve_intros)

lemma check_alloc_memory_size [preserve_intros]: "preserves I (check_alloc_memory_size A n)"
  by (auto simp: preserves_def check_alloc_memory_size_def Let_def fail_with_def stable logged
      split: option.splits if_splits)

lemma reserve_address [preserve_intros]:
  "preserves I (invoke A c (\<lambda>s. Some (alloc A c k n (\<lambda>p s. s\<lparr>vir_ptr := p\<rparr>) s)))"
  by (rule invoke) (auto simp: new_pointers intro!: alloc_any)

lemma release_address [preserve_intros]:
  "preserves I (\<lambda>s. if release k (p s) s = None then None else invoke A (c s) (release k (p s)) s)"
  by (auto simp: preserves_def invoke_def Let_def logged release_any split: if_splits)

lemma labels [preserve_intros]:
  "preserves I (error_device_init A)" "preserves I (error_reserve_memAddress A)"
  "preserves I (error_reserve_lpcMemory A)"
  unfolding error_reserve_lpcMemory_def error_destory_comm_def error_reserve_memAddress_def error_device_init_def
  by (intro preserve_intros)+

lemma final_labels [preserve_intros]: "preserves I (hccltesterr2 A r)" "preserves I (hccltesterr1 A)"
  unfolding hccltesterr1_def release_env_resource_def hccltesterr2_def hccltesterr3_def by (intro preserve_intros)+

lemma set_env_resource [preserve_intros]: "preserves I (set_env_resource A)"
  by (auto simp: preserves_def set_env_resource_def skip_def call_def invoke_def fail_with_def logged_def Let_def stable
      split: option.splits if_splits)

end

interpretation loop_dat: driver_frame "\<lambda>s. loop_data (data s) = k" for k
  by unfold_locales (simp_all add: set_block_def synced_def split: option.split)

lemma size_body_exit:
  assumes "size_body A V s = Some (Some e, t)"
  shows "e \<noteq> Left 0 \<and> e \<noteq> Returned 0"
  using assms by (auto simp: size_body_def split: option.splits prod.splits if_splits)

lemma size_loop_returned:
  fixes V :: "('a HcclOpBaseTest_scheme) vtable"
  assumes "size_loop A V s = Some y"
  shows "fst y \<noteq> Returned 0"
proof (rule size_loop.raw_induct [where P = "\<lambda>A V (s :: 'a HcclOpBaseTest_scheme) y. fst y \<noteq> Returned 0", OF _ assms])
  fix f A and V :: "('a HcclOpBaseTest_scheme) vtable" and s :: "'a HcclOpBaseTest_scheme"
    and y :: "loop_exit \<times> 'a HcclOpBaseTest_scheme"
  assume IH: "\<And>A V (s :: 'a HcclOpBaseTest_scheme) (y :: loop_exit \<times> 'a HcclOpBaseTest_scheme).
      f A V s = Some y \<Longrightarrow> fst y \<noteq> Returned 0"
    and run: "(if data_size (data s) \<le> max_bytes (data s) then
        (case size_body A V s of
           None \<Rightarrow> None
         | Some (Some e, s') \<Rightarrow> Some (e, s')
         | Some (None, s') \<Rightarrow>
             (case next_size (data s') of None \<Rightarrow> None | Some d \<Rightarrow> f A V (s'\<lparr>data := d\<rparr>)))
      else Some (Left 0, s)) = Some y"
  show "fst y \<noteq> Returned 0"
  proof (cases "data_size (data s) \<le> max_bytes (data s)")
    case False
    then show ?thesis using run by auto
  next
    case True
    then obtain x s' where b: "size_body A V s = Some (x, s')" using run by (auto split: option.splits)
    show ?thesis
    proof (cases x)
      case None
      with True b run obtain d where "f A V (s'\<lparr>data := d\<rparr>) = Some y" by (auto split: option.splits)
      then show ?thesis by (rule IH)
    next
      case (Some e)
      with True b run have "y = (e, s')" by simp
      with size_body_exit [of A V s e s'] b Some show ?thesis by simp
    qed
  qed
qed

text \<open>One iteration keeps what its stages keep.\<close>

lemma size_body_keeps:
  assumes run: "size_body A V s = Some (x, t)" and "\<And>b u. get_buff_size V s = Some (b, u) \<Longrightarrow> I u"
    and "\<And>m n. preserves I (prepare_zero_copy A m n)" "\<And>m n. preserves I (alloc_hccl_send_recv_buffer A m n)"
    and "preserves I (hccl_op_base_test V)" "preserves I (free_send_recv_buff_and_disable_local_buffer A)"
    and "\<And>s p. I (s\<lparr>printed := p\<rparr>) \<longleftrightarrow> I s"
  shows "I t"
proof -
  from run obtain m n s1 where 1: "get_buff_size V s = Some ((m, n), s1)"
    by (auto simp: size_body_def split: option.splits)
  then have I1: "I s1" by (rule assms(2))
  from run 1 obtain r s2 where 2: "steps [prepare_zero_copy A m n, alloc_hccl_send_recv_buffer A m n] s1 = Some (r, s2)"
    by (auto simp: size_body_def split: option.splits)
  have I2: "I s2"
    by (rule steps_keep [where I = I, OF 2 _ I1]) (intro preserve_intros assms)
  show ?thesis
  proof (cases "r = 0")
    case False
    then show ?thesis using run 1 2 I2 by (simp add: size_body_def)
  next
    case True
    with run 1 2 obtain q s3 where 3: "hccl_op_base_test V s2 = Some (q, s3)"
      by (auto simp: size_body_def split: option.splits)
    then have I3: "I s3" by (rule preservesD [OF assms(5) I2])
    from run 1 2 3 True obtain p s4 where 4: "free_send_recv_buff_and_disable_local_buffer A s3 = Some (p, s4)"
      by (auto simp: size_body_def split: option.splits)
    then have "I s4" by (rule preservesD [OF assms(6) I3])
    with run 1 2 3 4 True assms(7) show ?thesis by (auto simp: size_body_def split: if_splits)
  qed
qed

text \<open>Two loops whose iterations agree under an invariant agree.\<close>

lemma size_loop_transfer:
  fixes V W :: "('a HcclOpBaseTest_scheme) vtable"
  assumes run: "size_loop A V s = Some y" "I s"
    and body: "\<And>s. I s \<Longrightarrow> data_size (data s) \<le> max_bytes (data s) \<Longrightarrow> size_body A W s = size_body A V s"
    and keep: "\<And>s t d. I s \<Longrightarrow> data_size (data s) \<le> max_bytes (data s) \<Longrightarrow> size_body A V s = Some (None, t) \<Longrightarrow>
      next_size (data t) = Some d \<Longrightarrow> I (t\<lparr>data := d\<rparr>)"
  shows "size_loop A W s = Some y"
proof -
  have "A = A \<longrightarrow> V = V \<longrightarrow> I s \<longrightarrow> size_loop A W s = Some y"
  proof (rule size_loop.raw_induct [where P = "\<lambda>A' V' (s :: 'a HcclOpBaseTest_scheme) y.
        A' = A \<longrightarrow> V' = V \<longrightarrow> I s \<longrightarrow> size_loop A W s = Some y", OF _ run(1)], intro impI)
    fix f A' V' s y
    assume IH: "\<And>A' V' (s :: 'a HcclOpBaseTest_scheme) y. f A' V' s = Some y \<Longrightarrow>
        A' = A \<longrightarrow> V' = V \<longrightarrow> I s \<longrightarrow> size_loop A W s = Some y"
      and step: "(if data_size (data s) \<le> max_bytes (data s) then
          (case size_body A' V' s of
             None \<Rightarrow> None
           | Some (Some e, s') \<Rightarrow> Some (e, s')
           | Some (None, s') \<Rightarrow>
               (case next_size (data s') of None \<Rightarrow> None | Some d \<Rightarrow> f A' V' (s'\<lparr>data := d\<rparr>)))
        else Some (Left 0, s)) = Some y"
      and AV: "A' = A" "V' = V" and s: "I s"
    show "size_loop A W s = Some y"
      using step s AV by (subst size_loop.simps)
        (auto simp: body split: if_splits option.splits intro: keep intro!: IH [rule_format])
  qed
  then show ?thesis using run(2) by simp
qed

lemma size_loop_cong:
  fixes V W :: "('a HcclOpBaseTest_scheme) vtable"
  assumes s: "I s"
    and body: "\<And>s. I s \<Longrightarrow> data_size (data s) \<le> max_bytes (data s) \<Longrightarrow> size_body A W s = size_body A V s"
    and keep: "\<And>s t d. I s \<Longrightarrow> data_size (data s) \<le> max_bytes (data s) \<Longrightarrow> size_body A V s = Some (None, t) \<Longrightarrow>
      next_size (data t) = Some d \<Longrightarrow> I (t\<lparr>data := d\<rparr>)"
  shows "size_loop A W s = size_loop A V s"
proof (cases "size_loop A V s")
  case None
  have "size_loop A V s = Some y" if "size_loop A W s = Some y" for y
    by (rule size_loop_transfer [where I = I, OF that s]) (use body keep in auto)
  then show ?thesis using None by (cases "size_loop A W s") auto
next
  case (Some y)
  have "size_loop A W s = Some y"
    by (rule size_loop_transfer [where I = I, OF Some s]) (use body keep in auto)
  with Some show ?thesis by simp
qed

text \<open>The loop keeps what every iteration keeps.\<close>

lemma size_loop_keeps:
  fixes V :: "('a HcclOpBaseTest_scheme) vtable"
  assumes run: "size_loop A V s = Some y" "I s"
    and body: "\<And>s x t. I s \<Longrightarrow> size_body A V s = Some (x, t) \<Longrightarrow> I t" and "\<And>s d. I s \<Longrightarrow> I (s\<lparr>data := d\<rparr>)"
  shows "I (snd y)"
proof -
  have "A = A \<longrightarrow> V = V \<longrightarrow> I s \<longrightarrow> I (snd y)"
  proof (rule size_loop.raw_induct [where P = "\<lambda>A' V' (s :: 'a HcclOpBaseTest_scheme) y.
        A' = A \<longrightarrow> V' = V \<longrightarrow> I s \<longrightarrow> I (snd y)", OF _ run(1)])
    fix f A' and V' :: "('a HcclOpBaseTest_scheme) vtable" and s :: "'a HcclOpBaseTest_scheme"
      and y :: "loop_exit \<times> 'a HcclOpBaseTest_scheme"
    assume IH: "\<And>A' V' (s :: 'a HcclOpBaseTest_scheme) (y :: loop_exit \<times> 'a HcclOpBaseTest_scheme).
        f A' V' s = Some y \<Longrightarrow> A' = A \<longrightarrow> V' = V \<longrightarrow> I s \<longrightarrow> I (snd y)"
      and step: "(if data_size (data s) \<le> max_bytes (data s) then
          (case size_body A' V' s of
             None \<Rightarrow> None
           | Some (Some e, s') \<Rightarrow> Some (e, s')
           | Some (None, s') \<Rightarrow>
               (case next_size (data s') of None \<Rightarrow> None | Some d \<Rightarrow> f A' V' (s'\<lparr>data := d\<rparr>)))
        else Some (Left 0, s)) = Some y"
    show "A' = A \<longrightarrow> V' = V \<longrightarrow> I s \<longrightarrow> I (snd y)"
    proof (intro impI)
      assume AV: "A' = A" "V' = V" and "I s"
      show "I (snd y)"
      proof (cases "data_size (data s) \<le> max_bytes (data s)")
        case True
        then obtain x s' where b: "size_body A V s = Some (x, s')" using step AV by (auto split: option.splits)
        then have "I s'" by (rule body [OF \<open>I s\<close>])
        then show ?thesis
          using True b step AV IH assms(4) by (auto split: option.splits)
      qed (use step \<open>I s\<close> in auto)
    qed
  qed
  then show ?thesis using run(2) by simp
qed

context tester
begin

lemma get_buff_size_loop_data:
  "get_buff_size V s = Some (b, t) \<Longrightarrow> loop_data (data t) = loop_data (data s)"
  by (auto simp: get_buff_size_def Let_def loop_data_def init_data_count_def split: option.splits HcclDataType.splits
      dest!: size_frame)

lemma size_body_loop_data:
  assumes "size_body A V s = Some (x, t)"
  shows "loop_data (data t) = loop_data (data s)"
proof (rule size_body_keeps [OF assms, where I = "\<lambda>u. loop_data (data u) = loop_data (data s)"])
  show "loop_data (data u) = loop_data (data s)" if "get_buff_size V s = Some (b, u)" for b u
    using get_buff_size_loop_data [OF that] .
  show "preserves (\<lambda>u. loop_data (data u) = loop_data (data s)) (hccl_op_base_test V)"
    by (rule preservesI) (metis op_frame frame_data)
qed (auto intro!: preserve_intros)

end

subsection \<open>The sizes a loop visits\<close>

definition set_size :: "u64 \<Rightarrow> 'a HcclTest_scheme \<Rightarrow> 'a HcclTest_scheme" where
  "set_size x s = s\<lparr>data := (data s)\<lparr>data_size := x\<rparr>\<rparr>"

text \<open>The specification of the loop: one iteration for each size of a list, until one fails.\<close>

fun for_sizes ::
    "api \<Rightarrow> ('a HcclOpBaseTest_scheme) vtable \<Rightarrow> u64 list \<Rightarrow> u64 \<Rightarrow> 'a HcclOpBaseTest_scheme \<Rightarrow>
       (loop_exit \<times> 'a HcclOpBaseTest_scheme) option" where
  "for_sizes A V [] last_size s = Some (Left 0, set_size last_size s)"
| "for_sizes A V (x # xs) last_size s =
     (case size_body A V (set_size x s) of
        None \<Rightarrow> None
      | Some (Some e, s') \<Rightarrow> Some (e, s')
      | Some (None, s') \<Rightarrow> for_sizes A V xs last_size s')"

lemma set_size_idem [simp]: "set_size x (set_size y s) = set_size x s"
  by (simp add: set_size_def)

lemma set_size_same: "data_size (data s) = x \<Longrightarrow> set_size x s = s"
  by (simp add: set_size_def)

lemma for_sizes_set_size: "for_sizes A V xs l (set_size y s) = for_sizes A V xs l s"
  by (cases xs) simp_all

definition visited_sizes :: "DataSize \<Rightarrow> u64 list" where
  "visited_sizes d =
     map (\<lambda>k. data_size d + of_nat k * step_bytes d)
       [0..<(if data_size d \<le> max_bytes d
             then (unat (max_bytes d) - unat (data_size d)) div unat (step_bytes d) + 1 else 0)]"

definition last_size :: "DataSize \<Rightarrow> u64" where
  "last_size d = data_size d + of_nat (length (visited_sizes d)) * step_bytes d"

definition steps_safely :: "DataSize \<Rightarrow> bool" where
  "steps_safely d \<longleftrightarrow> f64_le (step_factor d) (f64_of_int 1) \<and> step_bytes d \<noteq> 0 \<and>
     unat (max_bytes d) + unat (step_bytes d) < 2 ^ 64"

lemma loop_data_cong:
  "loop_data d = loop_data d' \<Longrightarrow> visited_sizes d = visited_sizes d' \<and> last_size d = last_size d'
     \<and> steps_safely d = steps_safely d'"
  by (simp add: loop_data_def visited_sizes_def last_size_def steps_safely_def)

lemma next_size_step: "steps_safely d \<Longrightarrow> next_size d = Some (d\<lparr>data_size := data_size d + step_bytes d\<rparr>)"
  by (simp add: next_size_def steps_safely_def)

lemma visited_Cons:
  assumes "steps_safely d" "data_size d \<le> max_bytes d"
  defines "d' \<equiv> d\<lparr>data_size := data_size d + step_bytes d\<rparr>"
  shows "visited_sizes d = data_size d # visited_sizes d' \<and> last_size d = last_size d'
    \<and> unat (max_bytes d') + unat (step_bytes d') - unat (data_size d') <
      unat (max_bytes d) + unat (step_bytes d) - unat (data_size d)"
proof -
  let ?x = "unat (data_size d)" and ?m = "unat (max_bytes d)" and ?s = "unat (step_bytes d)"
  have le: "?x \<le> ?m" using assms(2) by (simp add: word_le_nat_alt)
  have s: "0 < ?s" "?m + ?s < 2 ^ 64"
    using assms(1) unat_eq_0 [of "step_bytes d"] by (auto simp: steps_safely_def)
  have u: "unat (data_size d + step_bytes d) = ?x + ?s" using le s by (intro unat_add_small) simp
  have n: "(?m - ?x) div ?s + 1 =
      Suc (if data_size d' \<le> max_bytes d' then (?m - (?x + ?s)) div ?s + 1 else 0)"
  proof (cases "?x + ?s \<le> ?m")
    case True
    then have "?m - ?x = ?s + (?m - (?x + ?s))" by simp
    then have "(?m - ?x) div ?s = Suc ((?m - (?x + ?s)) div ?s)"
      using s(1) by (metis add_diff_cancel_left' div_add_self1 diff_add_inverse not_less_zero Suc_eq_plus1)
    with True show ?thesis by (simp add: d'_def word_le_nat_alt u)
  next
    case False
    then have "(?m - ?x) div ?s = 0" using le by simp
    with False show ?thesis by (simp add: d'_def word_le_nat_alt u)
  qed
  have len: "length (visited_sizes d) = Suc (length (visited_sizes d'))"
    using assms(2) n by (simp add: visited_sizes_def d'_def u)
  have "visited_sizes d = data_size d # map (\<lambda>k. data_size d + of_nat (Suc k) * step_bytes d) [0..<length (visited_sizes d')]"
    using len unfolding visited_sizes_def by (simp add: map_upt_Suc del: upt_Suc)
  moreover have "map (\<lambda>k. data_size d + of_nat (Suc k) * step_bytes d) [0..<length (visited_sizes d')] = visited_sizes d'"
    by (simp add: visited_sizes_def d'_def algebra_simps)
  ultimately have "visited_sizes d = data_size d # visited_sizes d'" by simp
  moreover have "last_size d = last_size d'"
    unfolding last_size_def len by (simp add: d'_def algebra_simps)
  ultimately show ?thesis using le s by (simp add: d'_def u)
qed

context tester
begin

lemma size_loop_visits:
  assumes "steps_safely (data s)"
  shows "size_loop A V s = for_sizes A V (visited_sizes (data s)) (last_size (data s)) s"
  using assms
proof (induction "unat (max_bytes (data s)) + unat (step_bytes (data s)) - unat (data_size (data s))"
    arbitrary: s rule: less_induct)
  case less
  let ?d = "data s"
  show ?case
  proof (cases "data_size ?d \<le> max_bytes ?d")
    case False
    then show ?thesis
      by (simp add: size_loop.simps [of A V s] visited_sizes_def last_size_def set_size_same)
  next
    case True
    let ?d' = "?d\<lparr>data_size := data_size ?d + step_bytes ?d\<rparr>"
    note v = visited_Cons [OF less.prems True]
    have same: "set_size (data_size ?d) s = s" by (rule set_size_same) simp
    have go: "size_loop A V (s'\<lparr>data := data s'\<lparr>data_size := data_size (data s') + step_bytes (data s')\<rparr>\<rparr>) =
        for_sizes A V (visited_sizes ?d') (last_size ?d') s'" if "size_body A V s = Some (None, s')" for s'
    proof -
      let ?t = "s'\<lparr>data := data s'\<lparr>data_size := data_size (data s') + step_bytes (data s')\<rparr>\<rparr>"
      have l: "loop_data (data s') = loop_data ?d" by (rule size_body_loop_data [OF that])
      then have lt: "loop_data (data ?t) = loop_data ?d'" by (simp add: loop_data_def)
      have safe: "steps_safely (data ?t)"
        using less.prems loop_data_cong [OF lt] by (simp add: steps_safely_def)
      have "size_loop A V ?t = for_sizes A V (visited_sizes (data ?t)) (last_size (data ?t)) ?t"
        by (rule less.hyps [OF _ safe]) (use v lt in \<open>auto simp: loop_data_def\<close>)
      also have "\<dots> = for_sizes A V (visited_sizes ?d') (last_size ?d') ?t"
        using loop_data_cong [OF lt] by simp
      also have "\<dots> = for_sizes A V (visited_sizes ?d') (last_size ?d') s'"
      proof -
        have "?t = set_size (data_size (data s') + step_bytes (data s')) s'" by (simp add: set_size_def)
        then show ?thesis by (simp only: for_sizes_set_size)
      qed
      finally show ?thesis .
    qed
    have nx: "next_size (data s') = Some (data s'\<lparr>data_size := data_size (data s') + step_bytes (data s')\<rparr>)"
      if "size_body A V s = Some (x, s')" for x s'
      using next_size_step loop_data_cong [OF size_body_loop_data [OF that]] less.prems by blast
    show ?thesis
      using True v by (subst size_loop.simps)
        (auto simp: same go nx split: option.splits)
  qed
qed

lemma size_loop_step_zero:
  assumes "size_loop A V s = Some y" "step_bytes (data s) = 0" "f64_le (step_factor (data s)) (f64_of_int 1)"
    "data_size (data s) \<le> max_bytes (data s)"
  shows "fst y \<noteq> Left 0"
proof -
  have "step_bytes (data s) = 0 \<and> f64_le (step_factor (data s)) (f64_of_int 1) \<and>
      data_size (data s) \<le> max_bytes (data s) \<and> V' = V \<longrightarrow> fst y \<noteq> Left 0"
    if "size_loop A V' s = Some y" for A V' s y
  proof (rule size_loop.raw_induct [where P = "\<lambda>A V' s y. step_bytes (data s) = 0 \<and>
      f64_le (step_factor (data s)) (f64_of_int 1) \<and>
      data_size (data s) \<le> max_bytes (data s) \<and> V' = V \<longrightarrow> fst y \<noteq> Left 0", OF _ that])
    fix f A V' s y
    assume IH: "\<And>A V' s y. f A V' s = Some y \<Longrightarrow> step_bytes (data s) = 0 \<and>
      f64_le (step_factor (data s)) (f64_of_int 1) \<and>
      data_size (data s) \<le> max_bytes (data s) \<and> V' = V \<longrightarrow> fst y \<noteq> Left 0"
      and run: "(if data_size (data s) \<le> max_bytes (data s) then
        (case size_body A V' s of
           None \<Rightarrow> None
         | Some (Some e, s') \<Rightarrow> Some (e, s')
         | Some (None, s') \<Rightarrow>
             (case next_size (data s') of None \<Rightarrow> None | Some d \<Rightarrow> f A V' (s'\<lparr>data := d\<rparr>)))
      else Some (Left 0, s)) = Some y"
    show "step_bytes (data s) = 0 \<and> f64_le (step_factor (data s)) (f64_of_int 1) \<and>
      data_size (data s) \<le> max_bytes (data s) \<and> V' = V \<longrightarrow> fst y \<noteq> Left 0"
    proof (intro impI, elim conjE)
      assume z: "step_bytes (data s) = 0" "f64_le (step_factor (data s)) (f64_of_int 1)"
        "data_size (data s) \<le> max_bytes (data s)" and V: "V' = V"
      from run z(3) obtain x s' where b: "size_body A V s = Some (x, s')"
        by (auto simp: V split: option.splits)
      show "fst y \<noteq> Left 0"
      proof (cases x)
        case None
        have l: "loop_data (data s') = loop_data (data s)" by (rule size_body_loop_data [OF b])
        then have f: "f A V (s'\<lparr>data := data s'\<lparr>data_size := data_size (data s)\<rparr>\<rparr>) = Some y"
          using run z b None by (simp add: V next_size_def loop_data_def)
        from IH [OF f] l z show ?thesis by (auto simp: loop_data_def)
      next
        case (Some e)
        then have "y = (e, s')" using run z(3) b by (simp add: V)
        with size_body_exit [of A V s e s'] b Some show ?thesis by simp
      qed
    qed
  qed
  with assms show ?thesis by blast
qed

end

end
