(* ===== verification/Reduce_Tests.thy ===== *)
theory Reduce_Tests
  imports Collective_Run
begin

text \<open>
  The tests of the reductions: \<open>hccl_allreduce_rootinfo_test\<close>, \<open>hccl_reduce_rootinfo_test\<close>,
  \<open>hccl_reducescatter_rootinfo_test\<close> and \<open>hccl_reducescatterv_rootinfo_test\<close> (\<open>.cc\<close> and \<open>.h\<close>) under
  \<open>opbase_test/\<close>.
\<close>

subsection \<open>When verification is given up\<close>

text \<open>\<open>HcclDataTypePrecision\<close>; the other types have no enumerator and are never looked up.\<close>

fun precision :: "HcclDataType \<Rightarrow> nat" where
  "precision HCCL_DATA_TYPE_INT8 = 7"
| "precision HCCL_DATA_TYPE_INT16 = 15"
| "precision HCCL_DATA_TYPE_INT32 = 31"
| "precision HCCL_DATA_TYPE_INT64 = 63"
| "precision HCCL_DATA_TYPE_FP16 = 10"
| "precision HCCL_DATA_TYPE_FP32 = 23"
| "precision HCCL_DATA_TYPE_BFP16 = 7"
| "precision _ = 0"

definition ALLREDUCE_SUM_MAX_RANKSIZE :: "HcclDataType \<Rightarrow> int" where
  "ALLREDUCE_SUM_MAX_RANKSIZE t = c_div (2 ^ precision t - 1) 2"

definition REDUCE_SUM_MAX_RANKSIZE :: "HcclDataType \<Rightarrow> int" where
  "REDUCE_SUM_MAX_RANKSIZE t = c_div (2 ^ precision t - 1) 2"

definition REDUCESCATTER_SUM_MAX_RANKSIZE :: "HcclDataType \<Rightarrow> int" where
  "REDUCESCATTER_SUM_MAX_RANKSIZE t = the (f64_to_s 64 (f64_sqrt (f64_of_int (2 ^ precision t - 1))))"

definition REDUCESCATTERV_SUM_MAX_RANKSIZE :: "HcclDataType \<Rightarrow> int" where
  "REDUCESCATTERV_SUM_MAX_RANKSIZE t = the (f64_to_s 64 (f64_sqrt (f64_of_int (2 ^ precision t - 1))))"

text \<open>
  The branch for products, equal in the four overrides, and the chain of \<open>else if\<close> for sums, all
  of whose branches call \<open>no_verification\<close>.
\<close>

definition prod_guards :: "'a HcclTest_scheme \<Rightarrow> 'a HcclTest_scheme" where
  "prod_guards =
     guard [HCCL_DATA_TYPE_INT64] RANKSIZE_TH_INT64 \<circ>
     guard [HCCL_DATA_TYPE_INT32] RANKSIZE_TH_INT32 \<circ>
     guard [HCCL_DATA_TYPE_INT8] RANKSIZE_TH_INT8 \<circ>
     guard [HCCL_DATA_TYPE_FP32] RANKSIZE_TH_FP32 \<circ>
     guard [HCCL_DATA_TYPE_FP16] RANKSIZE_TH_FP16"

definition sum_guard ::
    "HcclDataType list \<Rightarrow> (HcclDataType \<Rightarrow> int) \<Rightarrow> 'a HcclTest_scheme \<Rightarrow> 'a HcclTest_scheme" where
  "sum_guard ts max_ranksize s =
     (if list_ex (\<lambda>t. has_dtype s [t] \<and> rank_size s > max_ranksize t) ts then no_verification s else s)"

definition allreduce_is_data_overflow :: "'a HcclTest_scheme \<Rightarrow> 'a HcclTest_scheme" where
  "allreduce_is_data_overflow s =
     (if has_op s HCCL_REDUCE_PROD then prod_guards s
      else if has_op s HCCL_REDUCE_SUM then
        sum_guard [HCCL_DATA_TYPE_INT8, HCCL_DATA_TYPE_INT16, HCCL_DATA_TYPE_FP16, HCCL_DATA_TYPE_BFP16]
          ALLREDUCE_SUM_MAX_RANKSIZE s
      else s)"

definition reduce_is_data_overflow :: "'a HcclTest_scheme \<Rightarrow> 'a HcclTest_scheme" where
  "reduce_is_data_overflow s =
     (if has_op s HCCL_REDUCE_PROD then prod_guards s
      else if has_op s HCCL_REDUCE_SUM then
        sum_guard [HCCL_DATA_TYPE_INT8, HCCL_DATA_TYPE_INT16, HCCL_DATA_TYPE_FP16, HCCL_DATA_TYPE_BFP16]
          REDUCE_SUM_MAX_RANKSIZE s
      else s)"

definition reducescatter_is_data_overflow :: "'a HcclTest_scheme \<Rightarrow> 'a HcclTest_scheme" where
  "reducescatter_is_data_overflow s =
     (if has_op s HCCL_REDUCE_PROD then prod_guards s
      else if has_op s HCCL_REDUCE_SUM then
        sum_guard [HCCL_DATA_TYPE_INT8, HCCL_DATA_TYPE_INT16, HCCL_DATA_TYPE_INT32, HCCL_DATA_TYPE_FP16,
            HCCL_DATA_TYPE_BFP16, HCCL_DATA_TYPE_FP32] REDUCESCATTER_SUM_MAX_RANKSIZE s
      else s)"

definition reducescatterv_is_data_overflow :: "'a HcclTest_scheme \<Rightarrow> 'a HcclTest_scheme" where
  "reducescatterv_is_data_overflow s =
     (if has_op s HCCL_REDUCE_PROD then prod_guards s
      else if has_op s HCCL_REDUCE_SUM then
        sum_guard [HCCL_DATA_TYPE_INT8, HCCL_DATA_TYPE_INT16, HCCL_DATA_TYPE_INT32, HCCL_DATA_TYPE_FP16,
            HCCL_DATA_TYPE_BFP16, HCCL_DATA_TYPE_FP32] REDUCESCATTERV_SUM_MAX_RANKSIZE s
      else s)"

subsection \<open>Allreduce\<close>

definition allreduce_init_opbase_ptr :: "'a HcclOpBaseTest_scheme \<Rightarrow> 'a HcclOpBaseTest_scheme" where
  "allreduce_init_opbase_ptr s =
     (construct_HcclOpBaseTest s)\<lparr>host_buf := nullptr, recv_buff_temp := nullptr, check_buf := nullptr,
        send_buff := nullptr, recv_buff := nullptr\<rparr>"

definition allreduce_init_buf_val :: "api \<Rightarrow> 'a HcclOpBaseTest_scheme cmd" where
  "allreduce_init_buf_val A =
     steps
      [with_state (\<lambda>s. malloc_check_buf A (malloc_kSize s)),
       with_state (\<lambda>s. fill_expected (check_buf s) (count (data s)) (val s))]"

definition allreduce_check_buf_result :: "api \<Rightarrow> 'a HcclOpBaseTest_scheme cmd" where
  "allreduce_check_buf_result A =
     steps
      [with_state (\<lambda>s. fetch_result A (malloc_kSize s) (recv_buff s)),
       with_state (\<lambda>s. compare_result reduce_checker (count (data s)))]"

definition allreduce_cal_execution_time :: "u32 \<Rightarrow> 'a HcclOpBaseTest_scheme cmd" where
  "allreduce_cal_execution_time time = with_state (\<lambda>s. report_time (malloc_kSize s) time)"

definition allreduce_init_malloc_Ksize_by_data ::
    "'a HcclTest_scheme \<Rightarrow> (u64 \<times> 'a HcclTest_scheme) option" where
  "allreduce_init_malloc_Ksize_by_data s = Some (count (data s) * type_size (data s), s)"

definition allreduce_init_send_recv_size_by_data :: "'a HcclTest_scheme \<Rightarrow> u64 \<times> u64" where
  "allreduce_init_send_recv_size_by_data s = (malloc_kSize s, malloc_kSize s)"

definition HcclAllReduce :: "api \<Rightarrow> 'a HcclTest_scheme cmd" where
  "HcclAllReduce A = with_state (\<lambda>s. call A (Hccl (AllReduce (send_buff s) (recv_buff s)
     (count (data s)) (dtype s) (op_type s) (hccl_comm s) (stream s))))"

definition allreduce_hccl_op_base_test :: "api \<Rightarrow> 'a HcclOpBaseTest_scheme cmd" where
  "allreduce_hccl_op_base_test A =
     steps
      [assign allreduce_is_data_overflow,
       with_state (\<lambda>s. malloc_host_buf A (malloc_kSize s)),
       with_state (\<lambda>s. fill_host (host_buf s) (count (data s)) (val s)),
       with_state (\<lambda>s. host_to_send A (malloc_kSize s)),
       when_do (\<lambda>s. check s = 1) (allreduce_init_buf_val A),
       timed_run A CCU_LIMIT (HcclAllReduce A),
       measured A (\<lambda>time. steps
         [when_do (\<lambda>s. check s = 1)
            (steps
              [when_do (\<lambda>s. enable_zero_copy s \<and> (iters s \<noteq> 0 \<or> warmup_iters s \<noteq> 0))
                 (steps
                   [with_state (\<lambda>s. host_to_send A (malloc_kSize s)),
                    HcclAllReduce A,
                    with_state (\<lambda>s. aclrtSynchronizeStream A (stream s))]),
               allreduce_check_buf_result A]),
          allreduce_cal_execution_time time])]"

subsection \<open>Reduce\<close>

definition reduce_init_opbase_ptr :: "'a HcclOpBaseTest_scheme \<Rightarrow> 'a HcclOpBaseTest_scheme" where
  "reduce_init_opbase_ptr s =
     (construct_HcclOpBaseTest s)\<lparr>host_buf := nullptr, recv_buff_temp := nullptr, check_buf := nullptr,
        send_buff := nullptr, recv_buff := nullptr\<rparr>"

definition reduce_init_buf_val :: "api \<Rightarrow> 'a HcclOpBaseTest_scheme cmd" where
  "reduce_init_buf_val A =
     steps
      [with_state (\<lambda>s. malloc_check_buf A (malloc_kSize s)),
       when_do (\<lambda>s. rank_id s = root_rank s)
         (with_state (\<lambda>s. fill_expected (check_buf s) (count (data s)) (val s)))]"

definition reduce_check_buf_result :: "api \<Rightarrow> 'a HcclOpBaseTest_scheme cmd" where
  "reduce_check_buf_result A =
     steps
      [with_state (\<lambda>s. fetch_result A (malloc_kSize s) (recv_buff s)),
       when_do (\<lambda>s. rank_id s = root_rank s)
         (with_state (\<lambda>s. compare_result reduce_checker (count (data s))))]"

definition reduce_cal_execution_time :: "u32 \<Rightarrow> 'a HcclOpBaseTest_scheme cmd" where
  "reduce_cal_execution_time time = with_state (\<lambda>s. report_time (malloc_kSize s) time)"

definition reduce_init_malloc_Ksize_by_data ::
    "'a HcclTest_scheme \<Rightarrow> (u64 \<times> 'a HcclTest_scheme) option" where
  "reduce_init_malloc_Ksize_by_data s = Some (count (data s) * type_size (data s), s)"

definition reduce_init_send_recv_size_by_data :: "'a HcclTest_scheme \<Rightarrow> u64 \<times> u64" where
  "reduce_init_send_recv_size_by_data s = (malloc_kSize s, malloc_kSize s)"

definition HcclReduce :: "api \<Rightarrow> 'a HcclTest_scheme cmd" where
  "HcclReduce A = with_state (\<lambda>s. call A (Hccl (Reduce (send_buff s) (recv_buff s)
     (count (data s)) (dtype s) (op_type s) (root_rank s) (hccl_comm s) (stream s))))"

definition reduce_hccl_op_base_test :: "api \<Rightarrow> 'a HcclOpBaseTest_scheme cmd" where
  "reduce_hccl_op_base_test A =
     steps
      [assign reduce_is_data_overflow,
       with_state (\<lambda>s. malloc_host_buf A (malloc_kSize s)),
       with_state (\<lambda>s. fill_host (host_buf s) (count (data s)) (val s)),
       with_state (\<lambda>s. host_to_send A (malloc_kSize s)),
       when_do (\<lambda>s. check s = 1) (reduce_init_buf_val A),
       timed_run A CCU_LIMIT (HcclReduce A),
       measured A (\<lambda>time. steps
         [when_do (\<lambda>s. check s = 1) (reduce_check_buf_result A),
          reduce_cal_execution_time time])]"

subsection \<open>Reducescatter\<close>

definition reducescatter_init_opbase_ptr :: "'a HcclOpBaseTest_scheme \<Rightarrow> 'a HcclOpBaseTest_scheme" where
  "reducescatter_init_opbase_ptr s =
     (construct_HcclOpBaseTest s)\<lparr>host_buf := nullptr, recv_buff_temp := nullptr, check_buf := nullptr,
        need_ranksize_alignment := True\<rparr>"

text \<open>\<open>op_type == HCCL_REDUCE_PROD || dtype == HCCL_DATA_TYPE_INT8\<close>: the same value for every rank.\<close>

definition same_value :: "'a HcclTest_scheme \<Rightarrow> bool" where
  "same_value s \<longleftrightarrow> has_op s HCCL_REDUCE_PROD \<or> has_dtype s [HCCL_DATA_TYPE_INT8]"

definition reducescatter_init_buf_val :: "api \<Rightarrow> 'a HcclOpBaseTest_scheme cmd" where
  "reducescatter_init_buf_val A =
     steps
      [with_state (\<lambda>s. malloc_check_buf A (malloc_kSize s)),
       if_else same_value
         (with_state (\<lambda>s. fill_expected (check_buf s) (count (data s)) (val s)))
         (with_state (\<lambda>s. fill_expected (check_buf s) (count (data s)) (rank_id s + 1)))]"

definition reducescatter_check_buf_result :: "api \<Rightarrow> 'a HcclOpBaseTest_scheme cmd" where
  "reducescatter_check_buf_result A =
     steps
      [with_state (\<lambda>s. fetch_result A (malloc_kSize s) (recv_buff s)),
       with_state (\<lambda>s. compare_result reduce_checker (count (data s)))]"

definition reducescatter_cal_execution_time :: "u32 \<Rightarrow> 'a HcclOpBaseTest_scheme cmd" where
  "reducescatter_cal_execution_time time = with_state (\<lambda>s. report_time (malloc_kSize s * ranks s) time)"

text \<open>\<open>(data->count + rank_size - 1) / rank_size\<close>; a division by zero is undefined.\<close>

definition share_count :: "'a HcclTest_scheme \<Rightarrow> (u64 \<times> 'a HcclTest_scheme) option" where
  "share_count s =
     (if ranks s = 0 then None
      else let n = (count (data s) + ranks s - 1) div ranks s
           in Some (n * type_size (data s), s\<lparr>data := (data s)\<lparr>count := n\<rparr>\<rparr>))"

definition reducescatter_init_malloc_Ksize_by_data ::
    "'a HcclTest_scheme \<Rightarrow> (u64 \<times> 'a HcclTest_scheme) option" where
  "reducescatter_init_malloc_Ksize_by_data = share_count"

definition reducescatter_init_send_recv_size_by_data :: "'a HcclTest_scheme \<Rightarrow> u64 \<times> u64" where
  "reducescatter_init_send_recv_size_by_data s = (malloc_kSize s * ranks s, malloc_kSize s)"

definition HcclReduceScatter :: "api \<Rightarrow> 'a HcclTest_scheme cmd" where
  "HcclReduceScatter A = with_state (\<lambda>s. call A (Hccl (ReduceScatter (send_buff s) (recv_buff s)
     (count (data s)) (dtype s) (op_type s) (hccl_comm s) (stream s))))"

text \<open>The values of the send buffer: \<open>i + 1\<close> in the block for rank \<open>i\<close>, or \<open>val\<close> everywhere.\<close>

definition fill_blocks :: "'a HcclOpBaseTest_scheme cmd" where
  "fill_blocks =
     if_else same_value
       (with_state (\<lambda>s. fill_host (host_buf s) (count (data s) * ranks s) (val s)))
       (for_ranks (\<lambda>i. with_state (\<lambda>s.
          fill_host (ptr_add (host_buf s) (unat (of_nat i * malloc_kSize s))) (count (data s)) (int i + 1))))"

definition reducescatter_hccl_op_base_test :: "api \<Rightarrow> 'a HcclOpBaseTest_scheme cmd" where
  "reducescatter_hccl_op_base_test A =
     steps
      [assign reducescatter_is_data_overflow,
       with_state (\<lambda>s. malloc_host_buf A (malloc_kSize s * ranks s)),
       fill_blocks,
       with_state (\<lambda>s. host_to_send A (malloc_kSize s * ranks s)),
       when_do (\<lambda>s. check s = 1) (reducescatter_init_buf_val A),
       timed_run A CCU_LIMIT (HcclReduceScatter A),
       measured A (\<lambda>time. steps
         [when_do (\<lambda>s. check s = 1)
            (steps
              [when_do (\<lambda>s. enable_zero_copy s \<and> (iters s \<noteq> 0 \<or> warmup_iters s \<noteq> 0))
                 (steps
                   [with_state (\<lambda>s. host_to_send A (malloc_kSize s * ranks s)),
                    HcclReduceScatter A,
                    with_state (\<lambda>s. aclrtSynchronizeStream A (stream s))]),
               reducescatter_check_buf_result A]),
          reducescatter_cal_execution_time time])]"

subsection \<open>Reducescatterv\<close>

record HcclOpBaseReducescatterVTest = HcclOpBaseTest +
  rsv_send_counts :: ptr
  rsv_send_disp :: ptr

definition reducescatterv_init_opbase_ptr ::
    "'a HcclOpBaseReducescatterVTest_scheme \<Rightarrow> 'a HcclOpBaseReducescatterVTest_scheme" where
  "reducescatterv_init_opbase_ptr s =
     (construct_HcclOpBaseTest s)\<lparr>host_buf := nullptr, recv_buff_temp := nullptr, check_buf := nullptr,
        send_buff := nullptr, recv_buff := nullptr, need_ranksize_alignment := True,
        rsv_send_counts := nullptr, rsv_send_disp := nullptr\<rparr>"

definition array_bytes :: "'a HcclTest_scheme \<Rightarrow> u64" where
  "array_bytes s = ranks s * 8"

definition malloc_send_buf :: "api \<Rightarrow> 'a HcclOpBaseReducescatterVTest_scheme cmd" where
  "malloc_send_buf A =
     steps
      [with_state (\<lambda>s. malloc A (array_bytes s) (\<lambda>p s. s\<lparr>rsv_send_counts := p\<rparr>)),
       when_do (\<lambda>s. rsv_send_counts s \<noteq> nullptr)
         (steps
           [with_state (\<lambda>s. malloc A (array_bytes s) (\<lambda>p s. s\<lparr>rsv_send_disp := p\<rparr>)),
            if_else (\<lambda>s. rsv_send_disp s = nullptr)
              (with_state (\<lambda>s. free (rsv_send_counts s)))
              (for_ranks (\<lambda>i. steps
                 [update_opt (\<lambda>s. store_u64 (rsv_send_counts s) i (count (data s)) s),
                  update_opt (\<lambda>s. Option.bind (load_u64 s (rsv_send_counts s) i)
                    (\<lambda>c. store_u64 (rsv_send_disp s) i (of_nat i * c) s))]))])]"

definition free_send_buf :: "'a HcclOpBaseReducescatterVTest_scheme cmd" where
  "free_send_buf =
     steps [with_state (\<lambda>s. free (rsv_send_counts s)), with_state (\<lambda>s. free (rsv_send_disp s))]"

definition reducescatterv_init_buf_val :: "api \<Rightarrow> 'a HcclOpBaseTest_scheme cmd" where
  "reducescatterv_init_buf_val A =
     steps
      [with_state (\<lambda>s. malloc_check_buf A (malloc_kSize s)),
       if_else same_value
         (with_state (\<lambda>s. fill_expected (check_buf s) (count (data s)) (val s)))
         (with_state (\<lambda>s. fill_expected (check_buf s) (count (data s)) (rank_id s + 1)))]"

definition reducescatterv_check_buf_result :: "api \<Rightarrow> 'a HcclOpBaseTest_scheme cmd" where
  "reducescatterv_check_buf_result A =
     steps
      [with_state (\<lambda>s. fetch_result A (malloc_kSize s) (recv_buff s)),
       with_state (\<lambda>s. compare_result reducescatterv_checker (count (data s)))]"

definition reducescatterv_cal_execution_time :: "u32 \<Rightarrow> 'a HcclOpBaseTest_scheme cmd" where
  "reducescatterv_cal_execution_time time = with_state (\<lambda>s. report_time (malloc_kSize s * ranks s) time)"

definition reducescatterv_init_malloc_Ksize_by_data ::
    "'a HcclTest_scheme \<Rightarrow> (u64 \<times> 'a HcclTest_scheme) option" where
  "reducescatterv_init_malloc_Ksize_by_data = share_count"

definition reducescatterv_init_send_recv_size_by_data :: "'a HcclTest_scheme \<Rightarrow> u64 \<times> u64" where
  "reducescatterv_init_send_recv_size_by_data s = (malloc_kSize s * ranks s, malloc_kSize s)"

definition HcclReduceScatterV :: "api \<Rightarrow> 'a HcclOpBaseReducescatterVTest_scheme cmd" where
  "HcclReduceScatterV A = with_state (\<lambda>s. call A (Hccl (ReduceScatterV (send_buff s)
     (rsv_send_counts s) (rsv_send_disp s) (recv_buff s) (count (data s)) (dtype s) (op_type s)
     (hccl_comm s) (stream s))))"

definition reducescatterv_hccl_op_base_test :: "api \<Rightarrow> 'a HcclOpBaseReducescatterVTest_scheme cmd" where
  "reducescatterv_hccl_op_base_test A =
     steps
      [assign reducescatterv_is_data_overflow,
       malloc_send_buf A,
       with_state (\<lambda>s. malloc_host_buf A (malloc_kSize s * ranks s)),
       fill_blocks,
       with_state (\<lambda>s. host_to_send A (malloc_kSize s * ranks s)),
       when_do (\<lambda>s. check s = 1) (reducescatterv_init_buf_val A),
       timed_run A CCU_LIMIT (HcclReduceScatterV A),
       measured A (\<lambda>time. steps
         [when_do (\<lambda>s. check s = 1) (reducescatterv_check_buf_result A),
          reducescatterv_cal_execution_time time,
          free_send_buf])]"

subsection \<open>What the tests leave alone\<close>

lemmas overflow_defs = allreduce_is_data_overflow_def reduce_is_data_overflow_def
  reducescatter_is_data_overflow_def reducescatterv_is_data_overflow_def prod_guards_def sum_guard_def

context quiet_object
begin

lemma fill_blocks [preserve_intros]: "preserves I fill_blocks"
  unfolding fill_blocks_def by (intro preserve_intros)

end

context quiet_test
begin

lemma overflow [simp]:
  "I s \<Longrightarrow> I (allreduce_is_data_overflow s)" "I s \<Longrightarrow> I (reduce_is_data_overflow s)"
  "I s \<Longrightarrow> I (reducescatter_is_data_overflow s)" "I s \<Longrightarrow> I (reducescatterv_is_data_overflow s)"
  by (simp_all add: overflow_defs)

end

context test_frame
begin

lemma allreduce_pieces [preserve_intros]:
  "preserves I (allreduce_init_buf_val A)" "preserves I (HcclAllReduce A)"
    "preserves I (allreduce_check_buf_result A)" "preserves I (allreduce_cal_execution_time t)"
  unfolding allreduce_init_buf_val_def HcclAllReduce_def allreduce_check_buf_result_def
    allreduce_cal_execution_time_def
  by (intro preserve_intros)+

lemma allreduce: "preserves I (allreduce_hccl_op_base_test A)"
  unfolding allreduce_hccl_op_base_test_def by (intro preserve_intros) simp

lemma reduce_pieces [preserve_intros]:
  "preserves I (reduce_init_buf_val A)" "preserves I (HcclReduce A)"
    "preserves I (reduce_check_buf_result A)" "preserves I (reduce_cal_execution_time t)"
  unfolding reduce_init_buf_val_def HcclReduce_def reduce_check_buf_result_def
    reduce_cal_execution_time_def
  by (intro preserve_intros)+

lemma reduce: "preserves I (reduce_hccl_op_base_test A)"
  unfolding reduce_hccl_op_base_test_def by (intro preserve_intros) simp

lemma reducescatter_pieces [preserve_intros]:
  "preserves I (reducescatter_init_buf_val A)" "preserves I (HcclReduceScatter A)"
    "preserves I (reducescatter_check_buf_result A)"
    "preserves I (reducescatter_cal_execution_time t)"
  unfolding reducescatter_init_buf_val_def HcclReduceScatter_def reducescatter_check_buf_result_def
    reducescatter_cal_execution_time_def
  by (intro preserve_intros)+

lemma reducescatter: "preserves I (reducescatter_hccl_op_base_test A)"
  unfolding reducescatter_hccl_op_base_test_def by (intro preserve_intros) simp

end

locale rsv_frame = test_frame I for I :: "'a HcclOpBaseReducescatterVTest_scheme \<Rightarrow> bool" +
  assumes arrays: "\<And>s p. I (s\<lparr>rsv_send_counts := p\<rparr>) \<longleftrightarrow> I s" "\<And>s p. I (s\<lparr>rsv_send_disp := p\<rparr>) \<longleftrightarrow> I s"
begin

lemma reducescatterv_pieces [preserve_intros]:
  "preserves I (malloc_send_buf A)" "preserves I free_send_buf"
    "preserves I (reducescatterv_init_buf_val A)" "preserves I (HcclReduceScatterV A)"
    "preserves I (reducescatterv_check_buf_result A)"
    "preserves I (reducescatterv_cal_execution_time t)"
  unfolding malloc_send_buf_def free_send_buf_def reducescatterv_init_buf_val_def
    HcclReduceScatterV_def reducescatterv_check_buf_result_def reducescatterv_cal_execution_time_def
  by (intro preserve_intros; simp add: arrays)+

lemma reducescatterv: "preserves I (reducescatterv_hccl_op_base_test A)"
  unfolding reducescatterv_hccl_op_base_test_def by (intro preserve_intros) simp

end

lemma frame_rsv [simp]:
  "frame (s\<lparr>rsv_send_counts := p\<rparr>) = frame s" "frame (s\<lparr>rsv_send_disp := p\<rparr>) = frame s"
  by (simp_all add: frame_def HcclTest.defs)

interpretation rsv_cfg: rsv_frame "\<lambda>s. frame s = k" for k
  by unfold_locales simp_all

interpretation rsv_chk: rsv_frame "\<lambda>s. check_kept k s" for k
  by unfold_locales (simp_all add: check_kept_def)

subsection \<open>What is measured\<close>

interpretation call_allreduce: measured_call HcclAllReduce
    "\<lambda>s. Hccl (AllReduce (send_buff s) (recv_buff s) (count (data s)) (dtype s) (op_type s) (hccl_comm s) (stream s))"
  by unfold_locales (simp_all add: HcclAllReduce_def with_state_def)

interpretation call_reduce: measured_call HcclReduce
    "\<lambda>s. Hccl (Reduce (send_buff s) (recv_buff s) (count (data s)) (dtype s) (op_type s) (root_rank s) (hccl_comm s) (stream s))"
  by unfold_locales (simp_all add: HcclReduce_def with_state_def)

interpretation call_reducescatter: measured_call HcclReduceScatter
    "\<lambda>s. Hccl (ReduceScatter (send_buff s) (recv_buff s) (count (data s)) (dtype s) (op_type s) (hccl_comm s) (stream s))"
  by unfold_locales (simp_all add: HcclReduceScatter_def with_state_def)

interpretation call_reducescatterv: measured_call HcclReduceScatterV
    "\<lambda>s. Hccl (ReduceScatterV (send_buff s) (rsv_send_counts s) (rsv_send_disp s) (recv_buff s) (count (data s))
       (dtype s) (op_type s) (hccl_comm s) (stream s))"
  by unfold_locales (simp_all add: HcclReduceScatterV_def with_state_def)


end
