(* ===== verification/Gather_Tests.thy ===== *)
theory Gather_Tests
  imports Reduce_Tests
begin

text \<open>
  The tests that move data without combining it: \<open>hccl_brocast_rootinfo_test\<close>,
  \<open>hccl_allgather_rootinfo_test\<close>, \<open>hccl_allgatherv_rootinfo_test\<close> and
  \<open>hccl_scatter_rootinfo_test\<close> (\<open>.cc\<close> and \<open>.h\<close>) under \<open>opbase_test/\<close>.
\<close>

subsection \<open>Broadcast\<close>

definition brocast_init_opbase_ptr :: "'a HcclOpBaseTest_scheme \<Rightarrow> 'a HcclOpBaseTest_scheme" where
  "brocast_init_opbase_ptr s =
     (construct_HcclOpBaseTest s)\<lparr>host_buf := nullptr, recv_buff_temp := nullptr, check_buf := nullptr\<rparr>"

definition brocast_init_buf_val :: "api \<Rightarrow> 'a HcclOpBaseTest_scheme cmd" where
  "brocast_init_buf_val A =
     steps
      [with_state (\<lambda>s. malloc_check_buf A (malloc_kSize s)),
       with_state (\<lambda>s. fill_host (check_buf s) (count (data s)) (val s))]"

definition brocast_check_buf_result :: "api \<Rightarrow> 'a HcclOpBaseTest_scheme cmd" where
  "brocast_check_buf_result A =
     steps
      [with_state (\<lambda>s. fetch_result A (malloc_kSize s) (send_buff s)),
       with_state (\<lambda>s. compare_result gather_checker (count (data s)))]"

definition brocast_cal_execution_time :: "u32 \<Rightarrow> 'a HcclOpBaseTest_scheme cmd" where
  "brocast_cal_execution_time time = with_state (\<lambda>s. report_time (malloc_kSize s) time)"

definition brocast_init_malloc_Ksize_by_data ::
    "'a HcclTest_scheme \<Rightarrow> (u64 \<times> 'a HcclTest_scheme) option" where
  "brocast_init_malloc_Ksize_by_data s = Some (count (data s) * type_size (data s), s)"

definition brocast_init_send_recv_size_by_data :: "'a HcclTest_scheme \<Rightarrow> u64 \<times> u64" where
  "brocast_init_send_recv_size_by_data s = (malloc_kSize s, 0)"

definition HcclBroadcast :: "api \<Rightarrow> 'a HcclTest_scheme cmd" where
  "HcclBroadcast A = with_state (\<lambda>s. call A (Hccl (Broadcast (send_buff s) (count (data s))
     (dtype s) (root_rank s) (hccl_comm s) (stream s))))"

definition brocast_hccl_op_base_test :: "api \<Rightarrow> 'a HcclOpBaseTest_scheme cmd" where
  "brocast_hccl_op_base_test A =
     steps
      [warn_op_flag,
       with_state (\<lambda>s. malloc_host_buf A (malloc_kSize s)),
       when_do (\<lambda>s. rank_id s = root_rank s)
         (steps
           [with_state (\<lambda>s. fill_host (host_buf s) (count (data s)) (val s)),
            with_state (\<lambda>s. host_to_send A (malloc_kSize s))]),
       when_do (\<lambda>s. check s = 1) (brocast_init_buf_val A),
       timed_run A CCU_LIMIT (HcclBroadcast A),
       measured A (\<lambda>time. steps
         [when_do (\<lambda>s. check s = 1) (brocast_check_buf_result A),
          brocast_cal_execution_time time])]"

subsection \<open>Allgather\<close>

definition allgather_init_opbase_ptr :: "'a HcclOpBaseTest_scheme \<Rightarrow> 'a HcclOpBaseTest_scheme" where
  "allgather_init_opbase_ptr s =
     (construct_HcclOpBaseTest s)\<lparr>host_buf := nullptr, recv_buff_temp := nullptr, check_buf := nullptr,
        send_buff := nullptr, recv_buff := nullptr, need_ranksize_alignment := True\<rparr>"

text \<open>
  The loop that writes \<open>i + 1\<close> into block \<open>i\<close>, at
  \<open>(char*)buffer + data->count * data->type_size * i\<close>.
\<close>

definition fill_rank_blocks :: "('a HcclTest_scheme \<Rightarrow> ptr) \<Rightarrow> 'a HcclTest_scheme cmd" where
  "fill_rank_blocks buffer =
     for_ranks (\<lambda>i. with_state (\<lambda>s.
       fill_host (ptr_add (buffer s) (unat (count (data s) * type_size (data s) * of_nat i)))
         (count (data s)) (int i + 1)))"

definition allgather_init_buf_val :: "api \<Rightarrow> 'a HcclOpBaseTest_scheme cmd" where
  "allgather_init_buf_val A =
     steps
      [with_state (\<lambda>s. malloc_check_buf A (malloc_kSize s * ranks s)),
       fill_rank_blocks check_buf]"

definition allgather_check_buf_result :: "api \<Rightarrow> 'a HcclOpBaseTest_scheme cmd" where
  "allgather_check_buf_result A =
     steps
      [with_state (\<lambda>s. fetch_result A (malloc_kSize s * ranks s) (recv_buff s)),
       with_state (\<lambda>s. compare_result gather_checker (count (data s) * ranks s))]"

definition allgather_cal_execution_time :: "u32 \<Rightarrow> 'a HcclOpBaseTest_scheme cmd" where
  "allgather_cal_execution_time time = with_state (\<lambda>s. report_time (malloc_kSize s * ranks s) time)"

definition allgather_init_malloc_Ksize_by_data ::
    "'a HcclTest_scheme \<Rightarrow> (u64 \<times> 'a HcclTest_scheme) option" where
  "allgather_init_malloc_Ksize_by_data = share_count"

definition allgather_init_send_recv_size_by_data :: "'a HcclTest_scheme \<Rightarrow> u64 \<times> u64" where
  "allgather_init_send_recv_size_by_data s = (malloc_kSize s, malloc_kSize s * ranks s)"

definition HcclAllGather :: "api \<Rightarrow> 'a HcclTest_scheme cmd" where
  "HcclAllGather A = with_state (\<lambda>s. call A (Hccl (AllGather (send_buff s) (recv_buff s)
     (count (data s)) (dtype s) (hccl_comm s) (stream s))))"

definition allgather_hccl_op_base_test :: "api \<Rightarrow> 'a HcclOpBaseTest_scheme cmd" where
  "allgather_hccl_op_base_test A =
     steps
      [warn_op_flag,
       assign is_initdata_overflow,
       with_state (\<lambda>s. malloc_host_buf A (malloc_kSize s)),
       with_state (\<lambda>s. fill_host (host_buf s) (count (data s)) (rank_id s + 1)),
       with_state (\<lambda>s. host_to_send A (malloc_kSize s)),
       when_do (\<lambda>s. check s = 1) (allgather_init_buf_val A),
       timed_run A CCU_LIMIT (HcclAllGather A),
       measured A (\<lambda>time. steps
         [when_do (\<lambda>s. check s = 1) (allgather_check_buf_result A),
          allgather_cal_execution_time time])]"

subsection \<open>Allgatherv\<close>

record HcclOpBaseAllgatherVTest = HcclOpBaseTest +
  agv_recv_counts :: ptr
  agv_recv_disp :: ptr

definition allgatherv_init_opbase_ptr ::
    "'a HcclOpBaseAllgatherVTest_scheme \<Rightarrow> 'a HcclOpBaseAllgatherVTest_scheme" where
  "allgatherv_init_opbase_ptr s =
     (construct_HcclOpBaseTest s)\<lparr>host_buf := nullptr, recv_buff_temp := nullptr, check_buf := nullptr,
        send_buff := nullptr, recv_buff := nullptr, need_ranksize_alignment := True,
        agv_recv_counts := nullptr, agv_recv_disp := nullptr\<rparr>"

definition malloc_recv_buf :: "api \<Rightarrow> 'a HcclOpBaseAllgatherVTest_scheme cmd" where
  "malloc_recv_buf A =
     steps
      [with_state (\<lambda>s. malloc A (array_bytes s) (\<lambda>p s. s\<lparr>agv_recv_counts := p\<rparr>)),
       when_do (\<lambda>s. agv_recv_counts s \<noteq> nullptr)
         (steps
           [with_state (\<lambda>s. malloc A (array_bytes s) (\<lambda>p s. s\<lparr>agv_recv_disp := p\<rparr>)),
            if_else (\<lambda>s. agv_recv_disp s = nullptr)
              (with_state (\<lambda>s. free (agv_recv_counts s)))
              (for_ranks (\<lambda>i. steps
                 [update_opt (\<lambda>s. store_u64 (agv_recv_counts s) i (count (data s)) s),
                  update_opt (\<lambda>s. Option.bind (load_u64 s (agv_recv_counts s) i)
                    (\<lambda>c. store_u64 (agv_recv_disp s) i (of_nat i * c) s))]))])]"

definition free_recv_buf :: "'a HcclOpBaseAllgatherVTest_scheme cmd" where
  "free_recv_buf =
     steps [with_state (\<lambda>s. free (agv_recv_counts s)), with_state (\<lambda>s. free (agv_recv_disp s))]"

definition allgatherv_init_buf_val :: "api \<Rightarrow> 'a HcclOpBaseTest_scheme cmd" where
  "allgatherv_init_buf_val A =
     steps
      [with_state (\<lambda>s. malloc_check_buf A (malloc_kSize s * ranks s)),
       fill_rank_blocks check_buf]"

definition allgatherv_check_buf_result :: "api \<Rightarrow> 'a HcclOpBaseTest_scheme cmd" where
  "allgatherv_check_buf_result A =
     steps
      [with_state (\<lambda>s. fetch_result A (malloc_kSize s * ranks s) (recv_buff s)),
       with_state (\<lambda>s. compare_result gather_checker (count (data s) * ranks s))]"

definition allgatherv_cal_execution_time :: "u32 \<Rightarrow> 'a HcclOpBaseTest_scheme cmd" where
  "allgatherv_cal_execution_time time = with_state (\<lambda>s. report_time (malloc_kSize s * ranks s) time)"

definition allgatherv_init_malloc_Ksize_by_data ::
    "'a HcclTest_scheme \<Rightarrow> (u64 \<times> 'a HcclTest_scheme) option" where
  "allgatherv_init_malloc_Ksize_by_data = share_count"

definition allgatherv_init_send_recv_size_by_data :: "'a HcclTest_scheme \<Rightarrow> u64 \<times> u64" where
  "allgatherv_init_send_recv_size_by_data s = (malloc_kSize s, malloc_kSize s * ranks s)"

definition HcclAllGatherV :: "api \<Rightarrow> 'a HcclOpBaseAllgatherVTest_scheme cmd" where
  "HcclAllGatherV A = with_state (\<lambda>s. call A (Hccl (AllGatherV (send_buff s) (count (data s))
     (recv_buff s) (agv_recv_counts s) (agv_recv_disp s) (dtype s) (hccl_comm s) (stream s))))"

definition allgatherv_hccl_op_base_test :: "api \<Rightarrow> 'a HcclOpBaseAllgatherVTest_scheme cmd" where
  "allgatherv_hccl_op_base_test A =
     steps
      [warn_op_flag,
       malloc_recv_buf A,
       assign is_initdata_overflow,
       with_state (\<lambda>s. malloc_host_buf A (malloc_kSize s)),
       with_state (\<lambda>s. fill_host (host_buf s) (count (data s)) (rank_id s + 1)),
       with_state (\<lambda>s. host_to_send A (malloc_kSize s)),
       when_do (\<lambda>s. check s = 1) (allgatherv_init_buf_val A),
       timed_run A CCU_LIMIT (HcclAllGatherV A),
       measured A (\<lambda>time. steps
         [when_do (\<lambda>s. check s = 1) (allgatherv_check_buf_result A),
          allgatherv_cal_execution_time time,
          free_recv_buf])]"

subsection \<open>Scatter\<close>

definition scatter_init_opbase_ptr :: "'a HcclOpBaseTest_scheme \<Rightarrow> 'a HcclOpBaseTest_scheme" where
  "scatter_init_opbase_ptr s =
     (construct_HcclOpBaseTest s)\<lparr>host_buf := nullptr, recv_buff_temp := nullptr, check_buf := nullptr,
        need_ranksize_alignment := True\<rparr>"

definition scatter_init_buf_val :: "api \<Rightarrow> 'a HcclOpBaseTest_scheme cmd" where
  "scatter_init_buf_val A =
     steps
      [with_state (\<lambda>s. malloc_check_buf A (malloc_kSize s)),
       with_state (\<lambda>s. fill_host (check_buf s) (count (data s)) (rank_id s + 1))]"

definition scatter_check_buf_result :: "api \<Rightarrow> 'a HcclOpBaseTest_scheme cmd" where
  "scatter_check_buf_result A =
     steps
      [with_state (\<lambda>s. fetch_result A (malloc_kSize s) (recv_buff s)),
       with_state (\<lambda>s. compare_result gather_checker (count (data s)))]"

definition scatter_cal_execution_time :: "u32 \<Rightarrow> 'a HcclOpBaseTest_scheme cmd" where
  "scatter_cal_execution_time time = with_state (\<lambda>s. report_time (malloc_kSize s * ranks s) time)"

definition scatter_init_malloc_Ksize_by_data ::
    "'a HcclTest_scheme \<Rightarrow> (u64 \<times> 'a HcclTest_scheme) option" where
  "scatter_init_malloc_Ksize_by_data = share_count"

definition scatter_init_send_recv_size_by_data :: "'a HcclTest_scheme \<Rightarrow> u64 \<times> u64" where
  "scatter_init_send_recv_size_by_data s = (malloc_kSize s * ranks s, malloc_kSize s)"

definition HcclScatter :: "api \<Rightarrow> 'a HcclTest_scheme cmd" where
  "HcclScatter A = with_state (\<lambda>s. call A (Hccl (Scatter (send_buff s) (recv_buff s)
     (count (data s)) (dtype s) (root_rank s) (hccl_comm s) (stream s))))"

definition scatter_hccl_op_base_test :: "api \<Rightarrow> 'a HcclOpBaseTest_scheme cmd" where
  "scatter_hccl_op_base_test A =
     steps
      [warn_op_flag,
       assign is_initdata_overflow,
       with_state (\<lambda>s. malloc_host_buf A (malloc_kSize s * ranks s)),
       when_do (\<lambda>s. rank_id s = root_rank s)
         (steps
           [fill_rank_blocks host_buf,
            with_state (\<lambda>s. host_to_send A (malloc_kSize s * ranks s))]),
       when_do (\<lambda>s. check s = 1) (scatter_init_buf_val A),
       timed_run A CCU_LIMIT (HcclScatter A),
       measured A (\<lambda>time. steps
         [when_do (\<lambda>s. check s = 1) (scatter_check_buf_result A),
          scatter_cal_execution_time time])]"

subsection \<open>What the tests leave alone\<close>

context quiet_object
begin

lemma fill_rank_blocks [preserve_intros]: "preserves I (fill_rank_blocks b)"
  unfolding fill_rank_blocks_def by (intro preserve_intros)

end

context test_frame
begin

lemma brocast_pieces [preserve_intros]:
  "preserves I (brocast_init_buf_val A)" "preserves I (HcclBroadcast A)"
    "preserves I (brocast_check_buf_result A)" "preserves I (brocast_cal_execution_time t)"
  unfolding brocast_init_buf_val_def HcclBroadcast_def brocast_check_buf_result_def
    brocast_cal_execution_time_def
  by (intro preserve_intros)+

lemma brocast: "preserves I (brocast_hccl_op_base_test A)"
  unfolding brocast_hccl_op_base_test_def by (intro preserve_intros)

lemma allgather_pieces [preserve_intros]:
  "preserves I (allgather_init_buf_val A)" "preserves I (HcclAllGather A)"
    "preserves I (allgather_check_buf_result A)" "preserves I (allgather_cal_execution_time t)"
  unfolding allgather_init_buf_val_def HcclAllGather_def allgather_check_buf_result_def
    allgather_cal_execution_time_def
  by (intro preserve_intros)+

lemma allgather: "preserves I (allgather_hccl_op_base_test A)"
  unfolding allgather_hccl_op_base_test_def by (intro preserve_intros) simp

lemma scatter_pieces [preserve_intros]:
  "preserves I (scatter_init_buf_val A)" "preserves I (HcclScatter A)"
    "preserves I (scatter_check_buf_result A)" "preserves I (scatter_cal_execution_time t)"
  unfolding scatter_init_buf_val_def HcclScatter_def scatter_check_buf_result_def
    scatter_cal_execution_time_def
  by (intro preserve_intros)+

lemma scatter: "preserves I (scatter_hccl_op_base_test A)"
  unfolding scatter_hccl_op_base_test_def by (intro preserve_intros) simp

end

locale agv_frame = test_frame I for I :: "'a HcclOpBaseAllgatherVTest_scheme \<Rightarrow> bool" +
  assumes arrays: "\<And>s p. I (s\<lparr>agv_recv_counts := p\<rparr>) \<longleftrightarrow> I s" "\<And>s p. I (s\<lparr>agv_recv_disp := p\<rparr>) \<longleftrightarrow> I s"
begin

lemma allgatherv_pieces [preserve_intros]:
  "preserves I (malloc_recv_buf A)" "preserves I free_recv_buf"
    "preserves I (allgatherv_init_buf_val A)" "preserves I (HcclAllGatherV A)"
    "preserves I (allgatherv_check_buf_result A)" "preserves I (allgatherv_cal_execution_time t)"
  unfolding malloc_recv_buf_def free_recv_buf_def allgatherv_init_buf_val_def HcclAllGatherV_def
    allgatherv_check_buf_result_def allgatherv_cal_execution_time_def
  by (intro preserve_intros; simp add: arrays)+

lemma allgatherv: "preserves I (allgatherv_hccl_op_base_test A)"
  unfolding allgatherv_hccl_op_base_test_def by (intro preserve_intros) simp

end

lemma frame_agv [simp]:
  "frame (s\<lparr>agv_recv_counts := p\<rparr>) = frame s" "frame (s\<lparr>agv_recv_disp := p\<rparr>) = frame s"
  by (simp_all add: frame_def HcclTest.defs)

interpretation agv_cfg: agv_frame "\<lambda>s. frame s = k" for k
  by unfold_locales simp_all

interpretation agv_chk: agv_frame "\<lambda>s. check_kept k s" for k
  by unfold_locales (simp_all add: check_kept_def)

subsection \<open>What is measured\<close>

interpretation call_brocast: measured_call HcclBroadcast
    "\<lambda>s. Hccl (Broadcast (send_buff s) (count (data s)) (dtype s) (root_rank s) (hccl_comm s) (stream s))"
  by unfold_locales (simp_all add: HcclBroadcast_def with_state_def)

interpretation call_allgather: measured_call HcclAllGather
    "\<lambda>s. Hccl (AllGather (send_buff s) (recv_buff s) (count (data s)) (dtype s) (hccl_comm s) (stream s))"
  by unfold_locales (simp_all add: HcclAllGather_def with_state_def)

interpretation call_allgatherv: measured_call HcclAllGatherV
    "\<lambda>s. Hccl (AllGatherV (send_buff s) (count (data s)) (recv_buff s) (agv_recv_counts s) (agv_recv_disp s)
       (dtype s) (hccl_comm s) (stream s))"
  by unfold_locales (simp_all add: HcclAllGatherV_def with_state_def)

interpretation call_scatter: measured_call HcclScatter
    "\<lambda>s. Hccl (Scatter (send_buff s) (recv_buff s) (count (data s)) (dtype s) (root_rank s) (hccl_comm s) (stream s))"
  by unfold_locales (simp_all add: HcclScatter_def with_state_def)


end
