(* ===== verification/Exchange_Tests.thy ===== *)
theory Exchange_Tests
  imports Reduce_Tests
begin

text \<open>
  The all-to-all tests: \<open>hccl_alltoall_rootinfo_test\<close>, \<open>hccl_alltoallv_rootinfo_test\<close> and
  \<open>hccl_alltoallvc_rootinfo_test\<close> (\<open>.cc\<close> and \<open>.h\<close>) under \<open>opbase_test/\<close>.
\<close>

subsection \<open>The pattern buffer\<close>

definition pattern :: "u8 list" where
  "pattern = [0x5a, 0x5a, 0x5a, 0x5a, 0xa5, 0xa5, 0xa5, 0xa5]"

text \<open>
  The array of the pattern is a constant of the program, not a block of the heap; its address
  only appears in the log of calls.
\<close>

definition pattern_data :: ptr where "pattern_data = (0, 8)"

definition copy_pattern :: "api \<Rightarrow> ptr \<Rightarrow> u64 \<Rightarrow> 'a world_scheme cmd" where
  "copy_pattern A dst n =
     invoke A (Acl (Memcpy dst n pattern_data n HOST_TO_HOST)) (write_mem dst (take (unat n) pattern))"

text \<open>\<open>while (copied < count)\<close>; \<open>None\<close> also when the loop does not end, which \<open>copied = 0\<close> would cause.\<close>

partial_function (option) double_copy ::
    "api \<Rightarrow> ptr \<Rightarrow> u64 \<Rightarrow> u64 \<Rightarrow> 'a world_scheme \<Rightarrow> (int \<times> 'a world_scheme) option" where
  "double_copy A dst_buf n copied s =
     (if copied < n then
        (let to_copy = (if copied + copied > n then n - copied else copied)
         in case aclrtMemcpy A (ptr_add dst_buf (unat copied)) to_copy dst_buf to_copy HOST_TO_HOST s of
              None \<Rightarrow> None
            | Some (r, s') \<Rightarrow>
                if r \<noteq> 0 then Some (r, s') else double_copy A dst_buf n (copied + to_copy) s')
      else Some (0, s))"

definition fill_alternating_pattern :: "api \<Rightarrow> ptr \<Rightarrow> u64 \<Rightarrow> 'a world_scheme cmd" where
  "fill_alternating_pattern A dst_buf n =
     (if n = 0 then skip
      else if n \<ge> 8 then steps [copy_pattern A dst_buf 8, double_copy A dst_buf n 8]
      else copy_pattern A dst_buf n)"

subsection \<open>Alltoall\<close>

record HcclOpBaseAlltoallTest = HcclOpBaseTest +
  sendCount :: u64
  recvCount :: u64

definition alltoall_init_opbase_ptr ::
    "'a HcclOpBaseAlltoallTest_scheme \<Rightarrow> 'a HcclOpBaseAlltoallTest_scheme" where
  "alltoall_init_opbase_ptr s =
     (construct_HcclOpBaseTest s)\<lparr>need_ranksize_alignment := True, sendCount := 0, recvCount := 0\<rparr>"

definition alltoall_check_buf_result :: "api \<Rightarrow> 'a HcclOpBaseTest_scheme cmd" where
  "alltoall_check_buf_result A =
     steps
      [with_state (\<lambda>s. malloc_check_buf A (malloc_kSize s)),
       with_state (\<lambda>s. aclrtMemcpy A (check_buf s) (malloc_kSize s) (recv_buff s) (malloc_kSize s) DEVICE_TO_HOST),
       with_state (\<lambda>s.
         (case hccl_alltoall_check_result (bytes_at s (check_buf s)) (malloc_kSize s) (rank_size s) (rank_id s) pattern of
            None \<Rightarrow> (\<lambda>_. None)
          | Some ok \<Rightarrow> count_failure (if ok then 0 else 1)))]"

definition alltoall_cal_execution_time :: "u32 \<Rightarrow> 'a HcclOpBaseTest_scheme cmd" where
  "alltoall_cal_execution_time time = with_state (\<lambda>s. report_time (malloc_kSize s) time)"

text \<open>The count is rounded up to a multiple of \<open>alignedData\<close>; a zero divisor is undefined.\<close>

definition round_count :: "u64 \<Rightarrow> 'a HcclTest_scheme \<Rightarrow> (u64 \<times> 'a HcclTest_scheme) option" where
  "round_count alignedData s =
     (if alignedData = 0 then None
      else let n = (count (data s) + alignedData - 1) div alignedData * alignedData
           in Some (n * type_size (data s), s\<lparr>data := (data s)\<lparr>count := n\<rparr>\<rparr>))"

definition alltoall_init_malloc_Ksize_by_data ::
    "'a HcclTest_scheme \<Rightarrow> (u64 \<times> 'a HcclTest_scheme) option" where
  "alltoall_init_malloc_Ksize_by_data s =
     round_count
       (if count (data s) \<ge> ranks s * granularity s \<or> enable_zero_copy s
        then ranks s * granularity s else ranks s) s"

definition alltoall_init_send_recv_size_by_data :: "'a HcclTest_scheme \<Rightarrow> u64 \<times> u64" where
  "alltoall_init_send_recv_size_by_data s = (malloc_kSize s, malloc_kSize s)"

definition HcclAlltoAll :: "api \<Rightarrow> 'a HcclOpBaseAlltoallTest_scheme cmd" where
  "HcclAlltoAll A = with_state (\<lambda>s. call A (Hccl (AlltoAll (send_buff s) (sendCount s) (dtype s)
     (recv_buff s) (recvCount s) (dtype s) (hccl_comm s) (stream s))))"

definition alltoall_hccl_op_base_test :: "api \<Rightarrow> 'a HcclOpBaseAlltoallTest_scheme cmd" where
  "alltoall_hccl_op_base_test A =
     steps
      [warn_op_flag,
       assign is_initdata_overflow,
       with_state (\<lambda>s. malloc_host_buf A (malloc_kSize s)),
       with_state (\<lambda>s. fill_alternating_pattern A (host_buf s) (malloc_kSize s)),
       with_state (\<lambda>s. host_to_send A (malloc_kSize s)),
       update_opt (\<lambda>s. if ranks s = 0 then None
         else Some (s\<lparr>sendCount := count (data s) div ranks s, recvCount := count (data s) div ranks s\<rparr>)),
       timed_run A CCU_LIMIT (HcclAlltoAll A),
       measured A (\<lambda>time. steps
         [when_do (\<lambda>s. check s = 1) (alltoall_check_buf_result A),
          alltoall_cal_execution_time time])]"

subsection \<open>Alltoallv\<close>

record HcclOpBaseAlltoallvTest = HcclOpBaseTest +
  send_counts :: ptr
  send_disp :: ptr
  recv_counts :: ptr
  recv_disp :: ptr

definition alltoallv_init_opbase_ptr ::
    "'a HcclOpBaseAlltoallvTest_scheme \<Rightarrow> 'a HcclOpBaseAlltoallvTest_scheme" where
  "alltoallv_init_opbase_ptr s =
     (construct_HcclOpBaseTest s)\<lparr>host_buf := nullptr, recv_buff_temp := nullptr, send_buff := nullptr,
        send_counts := nullptr, send_disp := nullptr, recv_buff := nullptr, recv_counts := nullptr,
        recv_disp := nullptr, need_ranksize_alignment := True\<rparr>"

text \<open>\<open>x / rank_size\<close> in \<open>unsigned long long\<close>.\<close>

definition div_ranks :: "'a HcclTest_scheme \<Rightarrow> u64 \<Rightarrow> u64 option" where
  "div_ranks s x = (if ranks s = 0 then None else Some (x div ranks s))"

text \<open>The body of the two loops that fill an array of counts and one of displacements.\<close>

definition store_share ::
    "('a HcclTest_scheme \<Rightarrow> ptr) \<Rightarrow> ('a HcclTest_scheme \<Rightarrow> ptr) \<Rightarrow> nat \<Rightarrow> 'a HcclTest_scheme cmd" where
  "store_share counts disp i =
     steps
      [update_opt (\<lambda>s. Option.bind (div_ranks s (count (data s))) (\<lambda>n. store_u64 (counts s) i n s)),
       update_opt (\<lambda>s. Option.bind (div_ranks s (of_nat i * count (data s))) (\<lambda>n. store_u64 (disp s) i n s))]"

definition malloc_send_recv_buf :: "api \<Rightarrow> 'a HcclOpBaseAlltoallvTest_scheme cmd" where
  "malloc_send_recv_buf A =
     steps
      [with_state (\<lambda>s. malloc A (array_bytes s) (\<lambda>p s. s\<lparr>send_counts := p\<rparr>)),
       when_do (\<lambda>s. send_counts s \<noteq> nullptr)
         (steps
           [with_state (\<lambda>s. malloc A (array_bytes s) (\<lambda>p s. s\<lparr>send_disp := p\<rparr>)),
            if_else (\<lambda>s. send_disp s = nullptr)
              (with_state (\<lambda>s. free (send_counts s)))
              (steps
                [for_ranks (store_share send_counts send_disp),
                 with_state (\<lambda>s. malloc A (array_bytes s) (\<lambda>p s. s\<lparr>recv_counts := p\<rparr>)),
                 when_do (\<lambda>s. recv_counts s \<noteq> nullptr)
                   (steps
                     [with_state (\<lambda>s. malloc A (array_bytes s) (\<lambda>p s. s\<lparr>recv_disp := p\<rparr>)),
                      if_else (\<lambda>s. recv_disp s = nullptr)
                        (with_state (\<lambda>s. free (recv_counts s)))
                        (for_ranks (store_share recv_counts recv_disp))])])])]"

text \<open>The call of \<open>hccl_alltoallv_check_result\<close> and the count of a failure.\<close>

definition check_exchange :: "ptr \<Rightarrow> ptr \<Rightarrow> 'a HcclOpBaseTest_scheme cmd" where
  "check_exchange counts disp s =
     (case bytes_at s (check_buf s) of
        None \<Rightarrow> None
      | Some m \<Rightarrow>
          (case hccl_alltoallv_check_result m (load_array s counts 0 (nat (rank_size s)))
                  (load_array s disp 0 (nat (rank_size s))) (rank_size s) (dtype s) of
             None \<Rightarrow> None
           | Some err \<Rightarrow> count_failure err s))"

definition alltoallv_check_buf_result :: "api \<Rightarrow> 'a HcclOpBaseAlltoallvTest_scheme cmd" where
  "alltoallv_check_buf_result A =
     steps
      [with_state (\<lambda>s. malloc_check_buf A (malloc_kSize s)),
       with_state (\<lambda>s. aclrtMemcpy A (check_buf s) (malloc_kSize s) (recv_buff s) (malloc_kSize s) DEVICE_TO_HOST),
       with_state (\<lambda>s. check_exchange (recv_counts s) (recv_disp s))]"

definition alltoallv_cal_execution_time :: "u32 \<Rightarrow> 'a HcclOpBaseTest_scheme cmd" where
  "alltoallv_cal_execution_time time = with_state (\<lambda>s. report_time (malloc_kSize s) time)"

definition free_send_recv_buf :: "'a HcclOpBaseAlltoallvTest_scheme cmd" where
  "free_send_recv_buf =
     steps [with_state (\<lambda>s. free (send_counts s)), with_state (\<lambda>s. free (send_disp s)),
            with_state (\<lambda>s. free (recv_counts s)), with_state (\<lambda>s. free (recv_disp s))]"

definition alltoallv_init_malloc_Ksize_by_data ::
    "'a HcclTest_scheme \<Rightarrow> (u64 \<times> 'a HcclTest_scheme) option" where
  "alltoallv_init_malloc_Ksize_by_data s =
     round_count
       (if count (data s) \<ge> ranks s * granularity s then ranks s * granularity s else ranks s) s"

definition alltoallv_init_send_recv_size_by_data :: "'a HcclTest_scheme \<Rightarrow> u64 \<times> u64" where
  "alltoallv_init_send_recv_size_by_data s = (malloc_kSize s, malloc_kSize s)"

definition HcclAlltoAllV :: "api \<Rightarrow> 'a HcclOpBaseAlltoallvTest_scheme cmd" where
  "HcclAlltoAllV A = with_state (\<lambda>s. call A (Hccl (AlltoAllV (send_buff s) (send_counts s)
     (send_disp s) (dtype s) (recv_buff s) (recv_counts s) (recv_disp s) (dtype s) (hccl_comm s) (stream s))))"

definition alltoallv_hccl_op_base_test :: "api \<Rightarrow> 'a HcclOpBaseAlltoallvTest_scheme cmd" where
  "alltoallv_hccl_op_base_test A =
     steps
      [warn_op_flag,
       assign is_initdata_overflow,
       malloc_send_recv_buf A,
       with_state (\<lambda>s. malloc_host_buf A (malloc_kSize s)),
       with_state (\<lambda>s. fill_host (host_buf s) (count (data s)) (rank_id s + 1)),
       with_state (\<lambda>s. host_to_send A (malloc_kSize s)),
       timed_run A CCU_LIMIT (HcclAlltoAllV A),
       measured A (\<lambda>time. steps
         [when_do (\<lambda>s. check s = 1) (alltoallv_check_buf_result A),
          alltoallv_cal_execution_time time,
          free_send_recv_buf])]"

subsection \<open>Alltoallvc\<close>

record HcclOpBaseAlltoallvcTest = HcclOpBaseTest +
  send_count_matrix :: ptr
  vc_recv_counts :: ptr

definition alltoallvc_init_opbase_ptr ::
    "'a HcclOpBaseAlltoallvcTest_scheme \<Rightarrow> 'a HcclOpBaseAlltoallvcTest_scheme" where
  "alltoallvc_init_opbase_ptr s =
     (construct_HcclOpBaseTest s)\<lparr>send_count_matrix := nullptr, vc_recv_counts := nullptr,
        need_ranksize_alignment := True\<rparr>"

text \<open>\<open>rank_size * rank_size\<close> is computed in \<open>int\<close>.\<close>

definition vc_malloc_send_recv_buf :: "api \<Rightarrow> 'a HcclOpBaseAlltoallvcTest_scheme cmd" where
  "vc_malloc_send_recv_buf A =
     steps
      [with_state (\<lambda>s. case s32_mul (rank_size s) (rank_size s) of
          None \<Rightarrow> (\<lambda>_. None)
        | Some n \<Rightarrow> malloc A (word_of_int n * 8) (\<lambda>p s. s\<lparr>send_count_matrix := p\<rparr>)),
       when_do (\<lambda>s. send_count_matrix s \<noteq> nullptr)
         (steps
           [with_state (\<lambda>s. malloc A (array_bytes s) (\<lambda>p s. s\<lparr>vc_recv_counts := p\<rparr>)),
            if_else (\<lambda>s. vc_recv_counts s = nullptr)
              (with_state (\<lambda>s. free (send_count_matrix s)))
              (steps
                [for_ranks (\<lambda>i. for_ranks (\<lambda>j. update_opt (\<lambda>s.
                   Option.bind (div_ranks s (count (data s)))
                     (\<lambda>n. store_u64 (send_count_matrix s) (i * nat (rank_size s) + j) n s)))),
                 for_ranks (\<lambda>i. update_opt (\<lambda>s.
                   if rank_id s < 0 then None
                   else Option.bind (load_u64 s (send_count_matrix s) (i * nat (rank_size s) + nat (rank_id s)))
                     (\<lambda>n. store_u64 (vc_recv_counts s) i n s)))])])]"

definition vc_free_send_recv_buf :: "'a HcclOpBaseAlltoallvcTest_scheme cmd" where
  "vc_free_send_recv_buf =
     steps [with_state (\<lambda>s. free (send_count_matrix s)), with_state (\<lambda>s. free (vc_recv_counts s))]"

definition alltoallvc_check_buf_result :: "api \<Rightarrow> 'a HcclOpBaseAlltoallvcTest_scheme cmd" where
  "alltoallvc_check_buf_result A =
     steps
      [with_state (\<lambda>s. malloc_check_buf A (malloc_kSize s)),
       with_state (\<lambda>s. aclrtMemcpy A (check_buf s) (malloc_kSize s) (recv_buff s) (malloc_kSize s) DEVICE_TO_HOST),
       with_state (\<lambda>s. malloc_then A (array_bytes s) (\<lambda>disp.
         if disp = nullptr then ret (HCCL_E_PTR A)
         else steps
          [update_opt (store_u64 disp 0 0),
           with_state (\<lambda>s. steps (map (\<lambda>i. update_opt (\<lambda>s.
              case (load_u64 s disp (i - 1), load_u64 s (vc_recv_counts s) (i - 1)) of
                (Some d, Some c) \<Rightarrow> store_u64 disp i (d + c) s
              | _ \<Rightarrow> None)) [1..<nat (rank_size s)])),
           with_state (\<lambda>s. check_exchange (vc_recv_counts s) disp),
           free disp]))]"

definition alltoallvc_init_malloc_Ksize_by_data ::
    "'a HcclTest_scheme \<Rightarrow> (u64 \<times> 'a HcclTest_scheme) option" where
  "alltoallvc_init_malloc_Ksize_by_data s =
     round_count
       (if count (data s) \<ge> ranks s * granularity s then ranks s * granularity s else ranks s) s"

definition alltoallvc_init_send_recv_size_by_data :: "'a HcclTest_scheme \<Rightarrow> u64 \<times> u64" where
  "alltoallvc_init_send_recv_size_by_data s = (malloc_kSize s, malloc_kSize s)"

definition alltoallvc_cal_execution_time :: "u32 \<Rightarrow> 'a HcclOpBaseTest_scheme cmd" where
  "alltoallvc_cal_execution_time time = with_state (\<lambda>s. report_time (malloc_kSize s) time)"

definition HcclAlltoAllVC :: "api \<Rightarrow> 'a HcclOpBaseAlltoallvcTest_scheme cmd" where
  "HcclAlltoAllVC A = with_state (\<lambda>s. call A (Hccl (AlltoAllVC (send_buff s) (send_count_matrix s)
     (dtype s) (recv_buff s) (dtype s) (hccl_comm s) (stream s))))"

definition alltoallvc_hccl_op_base_test :: "api \<Rightarrow> 'a HcclOpBaseAlltoallvcTest_scheme cmd" where
  "alltoallvc_hccl_op_base_test A =
     steps
      [warn_op_flag,
       assign is_initdata_overflow,
       vc_malloc_send_recv_buf A,
       with_state (\<lambda>s. malloc_host_buf A (malloc_kSize s)),
       with_state (\<lambda>s. fill_host (host_buf s) (count (data s)) (rank_id s + 1)),
       with_state (\<lambda>s. host_to_send A (malloc_kSize s)),
       timed_run A CCU_LIMIT_VC (HcclAlltoAllVC A),
       measured A (\<lambda>time. steps
         [when_do (\<lambda>s. check s = 1) (alltoallvc_check_buf_result A),
          alltoallvc_cal_execution_time time,
          vc_free_send_recv_buf])]"

subsection \<open>What the tests leave alone\<close>

context quiet_test
begin

lemma copy_pattern [preserve_intros]: "preserves I (copy_pattern A dst n)"
  unfolding copy_pattern_def by (intro preserve_intros) (simp add: write_mem)

lemma double_copy_kept:
  assumes "double_copy A dst n copied s = Some y"
  shows "I s \<longrightarrow> I (snd y)"
proof (rule double_copy.raw_induct [where P = "\<lambda>A dst n copied s y. I s \<longrightarrow> I (snd y)", OF _ assms])
  fix f A dst_buf n copied s y
  assume IH: "\<And>A dst_buf n copied s y. f A dst_buf n copied s = Some y \<Longrightarrow> I s \<longrightarrow> I (snd y)"
    and run: "(if copied < n then
        (let to_copy = (if copied + copied > n then n - copied else copied)
         in case aclrtMemcpy A (ptr_add dst_buf (unat copied)) to_copy dst_buf to_copy HOST_TO_HOST s of
              None \<Rightarrow> None
            | Some (r, s') \<Rightarrow> if r \<noteq> 0 then Some (r, s') else f A dst_buf n (copied + to_copy) s')
      else Some (0, s)) = Some y"
  show "I s \<longrightarrow> I (snd y)"
  proof
    assume I: "I s"
    show "I (snd y)"
    proof (cases "copied < n")
      case False
      then show ?thesis using run I by auto
    next
      case True
      define k where "k = (if copied + copied > n then n - copied else copied)"
      from True run have "(case aclrtMemcpy A (ptr_add dst_buf (unat copied)) k dst_buf k HOST_TO_HOST s of
          None \<Rightarrow> None | Some (r, s') \<Rightarrow> if r \<noteq> 0 then Some (r, s') else f A dst_buf n (copied + k) s') = Some y"
        by (simp only: if_True Let_def k_def [symmetric])
      then obtain r s' where c: "aclrtMemcpy A (ptr_add dst_buf (unat copied)) k dst_buf k HOST_TO_HOST s = Some (r, s')"
        and d: "(if r \<noteq> 0 then Some (r, s') else f A dst_buf n (copied + k) s') = Some y"
        by (auto split: option.splits)
      have "I s'" by (rule preservesD [OF aclrtMemcpy I c])
      with d show ?thesis by (auto split: if_splits dest!: IH)
    qed
  qed
qed

lemma fill_alternating_pattern [preserve_intros]: "preserves I (fill_alternating_pattern A dst n)"
proof -
  have "preserves I (double_copy A dst n 8)"
    by (rule preservesI) (auto dest: double_copy_kept)
  then have "preserves I (steps [copy_pattern A dst 8, double_copy A dst n 8])"
    by (intro preserve_intros)
  then show ?thesis
    unfolding fill_alternating_pattern_def
    by (cases "n = 0"; cases "8 \<le> n") (auto intro: preserve_intros)
qed

lemma check_exchange [preserve_intros]: "preserves I (check_exchange counts disp)"
  by (rule preservesI) (auto simp: check_exchange_def split: option.splits dest: preservesD [OF count_failure])

lemma pattern_check [preserve_intros]:
  "preserves I (case x of None \<Rightarrow> (\<lambda>_. None) | Some ok \<Rightarrow> count_failure (if ok then 0 else 1))"
  by (cases x) (simp_all only: option.case undefined_cmd count_failure)

end

locale a2a_frame = test_frame I for I :: "'a HcclOpBaseAlltoallTest_scheme \<Rightarrow> bool" +
  assumes counts: "\<And>s n. I (s\<lparr>sendCount := n\<rparr>) \<longleftrightarrow> I s" "\<And>s n. I (s\<lparr>recvCount := n\<rparr>) \<longleftrightarrow> I s"
begin

lemma alltoall_pieces [preserve_intros]:
  "preserves I (HcclAlltoAll A)" "preserves I (alltoall_check_buf_result A)"
    "preserves I (alltoall_cal_execution_time t)"
  unfolding HcclAlltoAll_def alltoall_check_buf_result_def alltoall_cal_execution_time_def
  by (intro preserve_intros)+

lemma alltoall: "preserves I (alltoall_hccl_op_base_test A)"
  unfolding alltoall_hccl_op_base_test_def by (intro preserve_intros) (auto simp: counts split: if_splits)

end

locale a2av_frame = test_frame I for I :: "'a HcclOpBaseAlltoallvTest_scheme \<Rightarrow> bool" +
  assumes arrays: "\<And>s p. I (s\<lparr>send_counts := p\<rparr>) \<longleftrightarrow> I s" "\<And>s p. I (s\<lparr>send_disp := p\<rparr>) \<longleftrightarrow> I s"
    "\<And>s p. I (s\<lparr>recv_counts := p\<rparr>) \<longleftrightarrow> I s" "\<And>s p. I (s\<lparr>recv_disp := p\<rparr>) \<longleftrightarrow> I s"
begin

lemma alltoallv_pieces [preserve_intros]:
  "preserves I (store_share c d i)" "preserves I (malloc_send_recv_buf A)"
    "preserves I free_send_recv_buf" "preserves I (HcclAlltoAllV A)"
    "preserves I (alltoallv_check_buf_result A)" "preserves I (alltoallv_cal_execution_time t)"
  unfolding store_share_def malloc_send_recv_buf_def free_send_recv_buf_def HcclAlltoAllV_def
    alltoallv_check_buf_result_def alltoallv_cal_execution_time_def
  by (intro preserve_intros; simp add: arrays)+

lemma alltoallv: "preserves I (alltoallv_hccl_op_base_test A)"
  unfolding alltoallv_hccl_op_base_test_def by (intro preserve_intros) simp

end

locale a2avc_frame = test_frame I for I :: "'a HcclOpBaseAlltoallvcTest_scheme \<Rightarrow> bool" +
  assumes arrays: "\<And>s p. I (s\<lparr>send_count_matrix := p\<rparr>) \<longleftrightarrow> I s" "\<And>s p. I (s\<lparr>vc_recv_counts := p\<rparr>) \<longleftrightarrow> I s"
begin

lemma vc_malloc [preserve_intros]:
  "preserves I (case x of None \<Rightarrow> (\<lambda>_. None)
     | Some n \<Rightarrow> malloc A (word_of_int n * 8) (\<lambda>p s. s\<lparr>send_count_matrix := p\<rparr>))"
  by (cases x) (auto intro!: preserve_intros simp: arrays)

lemma vc_store [preserve_intros]:
  "preserves I (update_opt (\<lambda>s. if b s then None else Option.bind (f s) (\<lambda>n. store_u64 (p s) i n s)))"
  by (rule preserves_update_opt) (auto simp: store_u64_def write_mem split: bind_splits if_splits)

lemma vc_sum [preserve_intros]:
  "preserves I (update_opt (\<lambda>s. case (f s, g s) of (Some d, Some c) \<Rightarrow> store_u64 p i (d + c) s | _ \<Rightarrow> None))"
  by (rule preserves_update_opt) (auto simp: store_u64_def write_mem split: option.splits)

lemma vc_first [preserve_intros]: "preserves I (update_opt (store_u64 p i v))"
  by (rule preserves_update_opt) (simp add: store_u64_def write_mem)

lemma alltoallvc_check [preserve_intros]: "preserves I (alltoallvc_check_buf_result A)"
  unfolding alltoallvc_check_buf_result_def by (intro preserve_intros)

lemma alltoallvc_pieces [preserve_intros]:
  "preserves I (vc_malloc_send_recv_buf A)" "preserves I vc_free_send_recv_buf"
    "preserves I (HcclAlltoAllVC A)" "preserves I (alltoallvc_cal_execution_time t)"
  unfolding vc_malloc_send_recv_buf_def vc_free_send_recv_buf_def HcclAlltoAllVC_def
    alltoallvc_cal_execution_time_def
  by (intro preserve_intros; auto simp: arrays store_u64_def write_mem split: bind_splits)+

lemma alltoallvc: "preserves I (alltoallvc_hccl_op_base_test A)"
  unfolding alltoallvc_hccl_op_base_test_def by (intro preserve_intros) simp

end

lemma frame_exchange [simp]:
  "frame (u\<lparr>sendCount := n\<rparr>) = frame u" "frame (u\<lparr>recvCount := n\<rparr>) = frame u"
  "frame (s\<lparr>send_counts := p\<rparr>) = frame s" "frame (s\<lparr>send_disp := p\<rparr>) = frame s"
  "frame (s\<lparr>recv_counts := p\<rparr>) = frame s" "frame (s\<lparr>recv_disp := p\<rparr>) = frame s"
  "frame (v\<lparr>send_count_matrix := p\<rparr>) = frame v" "frame (v\<lparr>vc_recv_counts := p\<rparr>) = frame v"
  by (simp_all add: frame_def HcclTest.defs)

interpretation a2a_cfg: a2a_frame "\<lambda>s. frame s = k" for k
  by unfold_locales simp_all

interpretation a2av_cfg: a2av_frame "\<lambda>s. frame s = k" for k
  by unfold_locales simp_all

interpretation a2avc_cfg: a2avc_frame "\<lambda>s. frame s = k" for k
  by unfold_locales simp_all

interpretation a2a_chk: a2a_frame "\<lambda>s. check_kept k s" for k
  by unfold_locales (simp_all add: check_kept_def)

interpretation a2av_chk: a2av_frame "\<lambda>s. check_kept k s" for k
  by unfold_locales (simp_all add: check_kept_def)

interpretation a2avc_chk: a2avc_frame "\<lambda>s. check_kept k s" for k
  by unfold_locales (simp_all add: check_kept_def)

subsection \<open>What is measured\<close>

interpretation call_alltoall: measured_call HcclAlltoAll
    "\<lambda>s. Hccl (AlltoAll (send_buff s) (sendCount s) (dtype s) (recv_buff s) (recvCount s) (dtype s) (hccl_comm s) (stream s))"
  by unfold_locales (simp_all add: HcclAlltoAll_def with_state_def)

interpretation call_alltoallv: measured_call HcclAlltoAllV
    "\<lambda>s. Hccl (AlltoAllV (send_buff s) (send_counts s) (send_disp s) (dtype s) (recv_buff s) (recv_counts s)
       (recv_disp s) (dtype s) (hccl_comm s) (stream s))"
  by unfold_locales (simp_all add: HcclAlltoAllV_def with_state_def)

interpretation call_alltoallvc: measured_call HcclAlltoAllVC
    "\<lambda>s. Hccl (AlltoAllVC (send_buff s) (send_count_matrix s) (dtype s) (recv_buff s) (dtype s) (hccl_comm s) (stream s))"
  by unfold_locales (simp_all add: HcclAlltoAllVC_def with_state_def)

end
