(* ===== verification/Test_Programs.thy ===== *)
theory Test_Programs
  imports Driver Gather_Tests Exchange_Tests
begin

text \<open>
  The eleven test programs: the functions each overrides as a \<open>vtable\<close>, the proof that they meet
  the interface \<open>tester\<close> of the driver, and what the driver does with them.
\<close>

subsection \<open>The overridden functions\<close>

definition allreduce_vtable :: "api \<Rightarrow> ('a HcclOpBaseTest_scheme) vtable" where
  "allreduce_vtable A =
     \<lparr>hccl_op_base_test = allreduce_hccl_op_base_test A,
      init_malloc_Ksize_by_data = allreduce_init_malloc_Ksize_by_data,
      init_send_recv_size_by_data = allreduce_init_send_recv_size_by_data\<rparr>"

definition reduce_vtable :: "api \<Rightarrow> ('a HcclOpBaseTest_scheme) vtable" where
  "reduce_vtable A =
     \<lparr>hccl_op_base_test = reduce_hccl_op_base_test A,
      init_malloc_Ksize_by_data = reduce_init_malloc_Ksize_by_data,
      init_send_recv_size_by_data = reduce_init_send_recv_size_by_data\<rparr>"

definition reducescatter_vtable :: "api \<Rightarrow> ('a HcclOpBaseTest_scheme) vtable" where
  "reducescatter_vtable A =
     \<lparr>hccl_op_base_test = reducescatter_hccl_op_base_test A,
      init_malloc_Ksize_by_data = reducescatter_init_malloc_Ksize_by_data,
      init_send_recv_size_by_data = reducescatter_init_send_recv_size_by_data\<rparr>"

definition reducescatterv_vtable :: "api \<Rightarrow> ('a HcclOpBaseReducescatterVTest_scheme) vtable" where
  "reducescatterv_vtable A =
     \<lparr>hccl_op_base_test = reducescatterv_hccl_op_base_test A,
      init_malloc_Ksize_by_data = reducescatterv_init_malloc_Ksize_by_data,
      init_send_recv_size_by_data = reducescatterv_init_send_recv_size_by_data\<rparr>"

definition brocast_vtable :: "api \<Rightarrow> ('a HcclOpBaseTest_scheme) vtable" where
  "brocast_vtable A =
     \<lparr>hccl_op_base_test = brocast_hccl_op_base_test A,
      init_malloc_Ksize_by_data = brocast_init_malloc_Ksize_by_data,
      init_send_recv_size_by_data = brocast_init_send_recv_size_by_data\<rparr>"

definition allgather_vtable :: "api \<Rightarrow> ('a HcclOpBaseTest_scheme) vtable" where
  "allgather_vtable A =
     \<lparr>hccl_op_base_test = allgather_hccl_op_base_test A,
      init_malloc_Ksize_by_data = allgather_init_malloc_Ksize_by_data,
      init_send_recv_size_by_data = allgather_init_send_recv_size_by_data\<rparr>"

definition allgatherv_vtable :: "api \<Rightarrow> ('a HcclOpBaseAllgatherVTest_scheme) vtable" where
  "allgatherv_vtable A =
     \<lparr>hccl_op_base_test = allgatherv_hccl_op_base_test A,
      init_malloc_Ksize_by_data = allgatherv_init_malloc_Ksize_by_data,
      init_send_recv_size_by_data = allgatherv_init_send_recv_size_by_data\<rparr>"

definition scatter_vtable :: "api \<Rightarrow> ('a HcclOpBaseTest_scheme) vtable" where
  "scatter_vtable A =
     \<lparr>hccl_op_base_test = scatter_hccl_op_base_test A,
      init_malloc_Ksize_by_data = scatter_init_malloc_Ksize_by_data,
      init_send_recv_size_by_data = scatter_init_send_recv_size_by_data\<rparr>"

definition alltoall_vtable :: "api \<Rightarrow> ('a HcclOpBaseAlltoallTest_scheme) vtable" where
  "alltoall_vtable A =
     \<lparr>hccl_op_base_test = alltoall_hccl_op_base_test A,
      init_malloc_Ksize_by_data = alltoall_init_malloc_Ksize_by_data,
      init_send_recv_size_by_data = alltoall_init_send_recv_size_by_data\<rparr>"

definition alltoallv_vtable :: "api \<Rightarrow> ('a HcclOpBaseAlltoallvTest_scheme) vtable" where
  "alltoallv_vtable A =
     \<lparr>hccl_op_base_test = alltoallv_hccl_op_base_test A,
      init_malloc_Ksize_by_data = alltoallv_init_malloc_Ksize_by_data,
      init_send_recv_size_by_data = alltoallv_init_send_recv_size_by_data\<rparr>"

definition alltoallvc_vtable :: "api \<Rightarrow> ('a HcclOpBaseAlltoallvcTest_scheme) vtable" where
  "alltoallvc_vtable A =
     \<lparr>hccl_op_base_test = alltoallvc_hccl_op_base_test A,
      init_malloc_Ksize_by_data = alltoallvc_init_malloc_Ksize_by_data,
      init_send_recv_size_by_data = alltoallvc_init_send_recv_size_by_data\<rparr>"

subsection \<open>They meet the interface\<close>

lemma same_count: "s = s\<lparr>data := (data s)\<lparr>count := count (data s)\<rparr>\<rparr>"
  by simp

lemma share_count_frame: "share_count s = Some (k, t) \<Longrightarrow> \<exists>n. t = s\<lparr>data := (data s)\<lparr>count := n\<rparr>\<rparr>"
  by (auto simp: share_count_def Let_def split: if_splits)

lemma round_count_frame: "round_count a s = Some (k, t) \<Longrightarrow> \<exists>n. t = s\<lparr>data := (data s)\<lparr>count := n\<rparr>\<rparr>"
  by (auto simp: round_count_def Let_def split: if_splits)

interpretation allreduce: tester "allreduce_vtable A" for A
  by unfold_locales (auto simp: allreduce_vtable_def allreduce_init_malloc_Ksize_by_data_def
      intro: same_count dest: preservesD [OF cfg.allreduce refl] preservesD [OF chk.allreduce check_kept_self])

interpretation reduce_test: tester "reduce_vtable A" for A
  by unfold_locales (auto simp: reduce_vtable_def reduce_init_malloc_Ksize_by_data_def
      intro: same_count dest: preservesD [OF cfg.reduce refl] preservesD [OF chk.reduce check_kept_self])

interpretation reducescatter: tester "reducescatter_vtable A" for A
  by unfold_locales (auto simp: reducescatter_vtable_def reducescatter_init_malloc_Ksize_by_data_def
      dest: share_count_frame preservesD [OF cfg.reducescatter refl] preservesD [OF chk.reducescatter check_kept_self])

interpretation reducescatterv: tester "reducescatterv_vtable A" for A
  by unfold_locales (auto simp: reducescatterv_vtable_def reducescatterv_init_malloc_Ksize_by_data_def
      dest: share_count_frame preservesD [OF rsv_cfg.reducescatterv refl] preservesD [OF rsv_chk.reducescatterv check_kept_self])

interpretation brocast: tester "brocast_vtable A" for A
  by unfold_locales (auto simp: brocast_vtable_def brocast_init_malloc_Ksize_by_data_def
      intro: same_count dest: preservesD [OF cfg.brocast refl] preservesD [OF chk.brocast check_kept_self])

interpretation allgather: tester "allgather_vtable A" for A
  by unfold_locales (auto simp: allgather_vtable_def allgather_init_malloc_Ksize_by_data_def
      dest: share_count_frame preservesD [OF cfg.allgather refl] preservesD [OF chk.allgather check_kept_self])

interpretation allgatherv: tester "allgatherv_vtable A" for A
  by unfold_locales (auto simp: allgatherv_vtable_def allgatherv_init_malloc_Ksize_by_data_def
      dest: share_count_frame preservesD [OF agv_cfg.allgatherv refl] preservesD [OF agv_chk.allgatherv check_kept_self])

interpretation scatter: tester "scatter_vtable A" for A
  by unfold_locales (auto simp: scatter_vtable_def scatter_init_malloc_Ksize_by_data_def
      dest: share_count_frame preservesD [OF cfg.scatter refl] preservesD [OF chk.scatter check_kept_self])

interpretation alltoall: tester "alltoall_vtable A" for A
  by unfold_locales (auto simp: alltoall_vtable_def alltoall_init_malloc_Ksize_by_data_def
      dest: round_count_frame preservesD [OF a2a_cfg.alltoall refl] preservesD [OF a2a_chk.alltoall check_kept_self])

interpretation alltoallv: tester "alltoallv_vtable A" for A
  by unfold_locales (auto simp: alltoallv_vtable_def alltoallv_init_malloc_Ksize_by_data_def
      dest: round_count_frame preservesD [OF a2av_cfg.alltoallv refl] preservesD [OF a2av_chk.alltoallv check_kept_self])

interpretation alltoallvc: tester "alltoallvc_vtable A" for A
  by unfold_locales (auto simp: alltoallvc_vtable_def alltoallvc_init_malloc_Ksize_by_data_def
      dest: round_count_frame preservesD [OF a2avc_cfg.alltoallvc refl] preservesD [OF a2avc_chk.alltoallvc check_kept_self])

subsection \<open>Frames\<close>

text \<open>
  C25.  Whatever status a test of a collective returns, it leaves the settings of the object as they
  were: sizes, counts, buffers, iterations, handles of streams, events and the communicator, and
  the options; only the host buffers, the error count, the verification switch, the once-only
  printing flags and the outside world change.
\<close>
theorem op_tests_keep_settings:
  "(allreduce_hccl_op_base_test A s = Some (r, t) \<longrightarrow> frame t = frame s) \<and>
   (reduce_hccl_op_base_test A s = Some (r, t) \<longrightarrow> frame t = frame s) \<and>
   (reducescatter_hccl_op_base_test A s = Some (r, t) \<longrightarrow> frame t = frame s) \<and>
   (reducescatterv_hccl_op_base_test A s1 = Some (r, t1) \<longrightarrow> frame t1 = frame s1) \<and>
   (brocast_hccl_op_base_test A s = Some (r, t) \<longrightarrow> frame t = frame s) \<and>
   (allgather_hccl_op_base_test A s = Some (r, t) \<longrightarrow> frame t = frame s) \<and>
   (allgatherv_hccl_op_base_test A s2 = Some (r, t2) \<longrightarrow> frame t2 = frame s2) \<and>
   (scatter_hccl_op_base_test A s = Some (r, t) \<longrightarrow> frame t = frame s) \<and>
   (alltoall_hccl_op_base_test A s3 = Some (r, t3) \<longrightarrow> frame t3 = frame s3) \<and>
   (alltoallv_hccl_op_base_test A s4 = Some (r, t4) \<longrightarrow> frame t4 = frame s4) \<and>
   (alltoallvc_hccl_op_base_test A s5 = Some (r, t5) \<longrightarrow> frame t5 = frame s5)"
  by (intro conjI impI; (erule preservesD [OF cfg.allreduce refl] preservesD [OF cfg.reduce refl]
        preservesD [OF cfg.reducescatter refl] preservesD [OF rsv_cfg.reducescatterv refl]
        preservesD [OF cfg.brocast refl] preservesD [OF cfg.allgather refl]
        preservesD [OF agv_cfg.allgatherv refl] preservesD [OF cfg.scatter refl]
        preservesD [OF a2a_cfg.alltoall refl] preservesD [OF a2av_cfg.alltoallv refl]
        preservesD [OF a2avc_cfg.alltoallvc refl] preservesD [OF a2avc_chk.alltoallvc check_kept_self]))

text \<open>An environment in which every call fails with the same status.\<close>

definition broken_api :: "int \<Rightarrow> api" where
  "broken_api n = (ideal_api (\<lambda>_ _. 0))\<lparr>status := (\<lambda>_ _. n)\<rparr>"

lemma op_tests_keep_settings_witness:
  "\<exists>t. allreduce_hccl_op_base_test (broken_api 7) new_tester = Some (7, t) \<and> frame t = frame new_tester"
proof -
  obtain t where t: "allreduce_hccl_op_base_test (broken_api 7) new_tester = Some (7, t)"
    by (simp add: allreduce_hccl_op_base_test_def cmd_defs malloc_host_buf_def aclrtMallocHost_def invoke_def
        broken_api_def Let_def)
  with op_tests_keep_settings [of "broken_api 7" new_tester 7 t] show ?thesis by blast
qed

subsection \<open>The loop over the sizes\<close>

text \<open>
  C8.  In step mode, with a step that is not zero and a largest size that does not wrap, the loop of
  \<open>opbase_test_by_data_size\<close> refines its specification: it runs one iteration for each of the
  sizes \<open>minbytes\<close>, \<open>minbytes + step\<close>, ... up to \<open>maxbytes\<close>, in this order, until one fails.
\<close>
theorem size_loop_refines_list:
  assumes "steps_safely (data s)"
  shows "size_loop A (allreduce_vtable A) (start_at_min s) =
      for_sizes A (allreduce_vtable A)
        (map (\<lambda>k. min_bytes (data s) + of_nat k * step_bytes (data s))
          [0..<(if min_bytes (data s) \<le> max_bytes (data s)
                then (unat (max_bytes (data s)) - unat (min_bytes (data s))) div unat (step_bytes (data s)) + 1
                else 0)])
        (last_size (data (start_at_min s))) (start_at_min s)"
proof -
  have "steps_safely (data (start_at_min s))" using assms by (simp add: start_at_min_def steps_safely_def)
  from allreduce.size_loop_visits [OF this] show ?thesis
    by (simp add: visited_sizes_def start_at_min_def)
qed

definition sized_loop :: "u64 \<Rightarrow> u64 \<Rightarrow> u64 \<Rightarrow> HcclOpBaseTest" where
  "sized_loop mi ma st = new_tester\<lparr>data := zero_data\<lparr>min_bytes := mi, max_bytes := ma, step_bytes := st,
     step_factor := f64_of_int 1\<rparr>\<rparr>"

lemma factor_one: "f64_le (f64_of_int 1) (f64_of_int 1)"
  by (simp add: f64_le_def v_eq.simps fp_eval)

lemma size_loop_refines_list_witness:
  "\<forall>A. size_loop A (allreduce_vtable A) (start_at_min (sized_loop 8 20 6)) =
     for_sizes A (allreduce_vtable A) [8, 14, 20] 26 (start_at_min (sized_loop 8 20 6))"
  (is "\<forall>A. ?P A")
proof (rule allI)
  fix A
  have "steps_safely (data (sized_loop 8 20 6))"
    by (simp add: steps_safely_def sized_loop_def factor_one)
  moreover have "[0..<3] = [0, 1, 2::nat]" by (simp add: upt_rec)
  ultimately show "?P A"
    using size_loop_refines_list [of "sized_loop 8 20 6" A]
    by (simp add: sized_loop_def last_size_def visited_sizes_def start_at_min_def zero_data_def)
qed

text \<open>
  C21.  With the step of zero bytes that the default can compute, the loop never ends by itself: when
  \<open>opbase_test_by_data_size\<close> returns at all, it returns the status of a failure.
\<close>
theorem step_zero_never_succeeds:
  assumes "opbase_test_by_data_size A (allreduce_vtable A) s = Some (r, t)"
    and "step_bytes (data s) = 0" "f64_le (step_factor (data s)) (f64_of_int 1)"
    and "min_bytes (data s) \<le> max_bytes (data s)"
  shows "r \<noteq> 0"
proof -
  from assms(1) obtain e u where l: "size_loop A (allreduce_vtable A) (start_at_min s) = Some (e, u)"
    by (auto simp: opbase_test_by_data_size_def split: option.splits)
  have "e \<noteq> Left 0"
    using allreduce.size_loop_step_zero [OF l] assms(2-4) by (simp add: start_at_min_def)
  moreover have "e \<noteq> Returned 0" using size_loop_returned [OF l] by simp
  ultimately show ?thesis
    using assms(1) l by (auto simp: opbase_test_by_data_size_def steps.simps ret_def
        split: loop_exit.splits option.splits if_splits)
qed


lemma step_zero_never_succeeds_witness:
  "\<exists>t. opbase_test_by_data_size (broken_api 7) (allreduce_vtable (broken_api 7)) (sized_loop 8 16 0) = Some (7, t)
     \<and> (7 :: int) \<noteq> 0"
proof -
  let ?A = "broken_api 7"
  let ?s = "start_at_min (sized_loop 8 16 0)"
  have n: "dtype new_tester = dtype_value HCCL_DATA_TYPE_FP32" "\<not> enable_zero_copy new_tester"
    by (simp_all add: tester_defs)
  then have d: "dtype ?s = dtype_value HCCL_DATA_TYPE_FP32" "\<not> enable_zero_copy ?s"
    by (simp_all add: start_at_min_def sized_loop_def)
  have "data_size (data ?s) = 8" by (simp add: start_at_min_def sized_loop_def)
  with d have "\<exists>s1. get_buff_size (allreduce_vtable ?A) ?s = Some ((8, 8), s1) \<and> \<not> enable_zero_copy s1"
    by (simp add: get_buff_size_def init_data_count_eq elem_width_def allreduce_vtable_def Let_def
        allreduce_init_malloc_Ksize_by_data_def allreduce_init_send_recv_size_by_data_def del: dtype_value.simps)
  then obtain t where b: "size_body ?A (allreduce_vtable ?A) ?s = Some (Some (Returned 7), t)"
    by (auto simp: size_body_def prepare_zero_copy_def alloc_hccl_send_recv_buffer_def cmd_defs aclrtMalloc_def
        invoke_def broken_api_def Let_def)
  have "data_size (data ?s) \<le> max_bytes (data ?s)" by (simp add: start_at_min_def sized_loop_def)
  with b have "size_loop ?A (allreduce_vtable ?A) ?s = Some (Returned 7, t)"
    by (subst size_loop.simps) simp
  then have t: "opbase_test_by_data_size ?A (allreduce_vtable ?A) (sized_loop 8 16 0) = Some (7, t)"
    by (simp add: opbase_test_by_data_size_def)
  have "step_bytes (data (sized_loop 8 16 0)) = 0" "f64_le (step_factor (data (sized_loop 8 16 0))) (f64_of_int 1)"
    "min_bytes (data (sized_loop 8 16 0)) \<le> max_bytes (data (sized_loop 8 16 0))"
    by (simp_all add: sized_loop_def factor_one)
  with step_zero_never_succeeds [OF t] t show ?thesis by blast
qed

end
