(* ===== verification/Measurement.thy ===== *)
theory Measurement
  imports Test_Programs
begin

text \<open>
  What the time between the two events measures: the calls the timed run of a test queues.
\<close>

subsection \<open>The measured statements\<close>

text \<open>The statement each test measures and the call it makes.\<close>

definition measured_statements :: "api \<Rightarrow> 'a HcclTest_scheme \<Rightarrow> ('a HcclTest_scheme cmd \<times> call) list" where
  "measured_statements A s =
     [(HcclAllReduce A, Hccl (AllReduce (send_buff s) (recv_buff s) (count (data s)) (dtype s) (op_type s)
         (hccl_comm s) (stream s))),
      (HcclReduce A, Hccl (Reduce (send_buff s) (recv_buff s) (count (data s)) (dtype s) (op_type s)
         (root_rank s) (hccl_comm s) (stream s))),
      (HcclReduceScatter A, Hccl (ReduceScatter (send_buff s) (recv_buff s) (count (data s)) (dtype s)
         (op_type s) (hccl_comm s) (stream s))),
      (HcclBroadcast A, Hccl (Broadcast (send_buff s) (count (data s)) (dtype s) (root_rank s)
         (hccl_comm s) (stream s))),
      (HcclAllGather A, Hccl (AllGather (send_buff s) (recv_buff s) (count (data s)) (dtype s)
         (hccl_comm s) (stream s))),
      (HcclScatter A, Hccl (Scatter (send_buff s) (recv_buff s) (count (data s)) (dtype s) (root_rank s)
         (hccl_comm s) (stream s)))]"

lemma measured_statements_run:
  assumes "(collective, c) \<in> set (measured_statements A s)" "timed_run A limit collective s = Some (0, t)"
  shows "t = after_run A limit s c"
  using assms unfolding measured_statements_def
  by (auto dest: call_allreduce.timed_run_ok call_reduce.timed_run_ok call_reducescatter.timed_run_ok
      call_brocast.timed_run_ok call_allgather.timed_run_ok call_scatter.timed_run_ok)

lemma after_run_fields [simp]:
  "call_log (after_run A limit s c) = Acl (SynchronizeStream (stream s)) # timed_log limit s c @ call_log s"
  by (simp add: after_run_def synced_def)

text \<open>
  C4.  When the timed run of a test succeeds, exactly \<open>iters\<close> calls of its collective lie between the
  record of the start event and the record of the end event, and the \<open>warmup_iters\<close> warm-up calls lie
  before the start event; the barrier of \<open>sync_event\<close> is set before them and released after the end
  event, when only device time is measured; the last call waits for the stream.  (The log has the
  latest call first.)
\<close>
theorem timed_run_measures:
  assumes "(collective, c) \<in> set (measured_statements A s)"
    and "timed_run A limit collective s = Some (0, t)"
  shows "call_log t =
     [Acl (SynchronizeStream (stream s))] @ post_calls s @
     [Acl (RecordEvent (end_event s) (stream s))] @ replicate (nat (iters s)) c @
     [Acl (RecordEvent (start_event s) (stream s))] @ replicate (nat (warmup_iters s)) c @
     sync_calls limit s @ call_log s
   \<and> (post_calls s = [] \<longleftrightarrow> only_device_exec_time s = 0)
   \<and> (sync_calls limit s \<noteq> [] \<longrightarrow> post_calls s \<noteq> [])"
  unfolding measured_statements_run [OF assms]
  by (simp add: timed_log_def post_calls_def sync_calls_def)

text \<open>A run of five iterations after one warm-up.\<close>

definition short_run :: HcclOpBaseTest where
  "short_run = new_tester\<lparr>iters := 5, warmup_iters := 1\<rparr>"

lemma timed_run_measures_witness:
  "\<exists>t c. timed_run (ideal_api (\<lambda>_ _. 0)) CCU_LIMIT (HcclAllReduce (ideal_api (\<lambda>_ _. 0))) short_run = Some (0, t)
     \<and> (\<exists>xs ys. call_log t = xs @ replicate 5 c @ ys)"
proof -
  let ?A = "ideal_api (\<lambda>_ _. 0)" and ?s = short_run
  let ?c = "Hccl (AllReduce (send_buff ?s) (recv_buff ?s) (count (data ?s)) (dtype ?s) (op_type ?s)
         (hccl_comm ?s) (stream ?s))"
  have "only_device_exec_time ?s = 0" by (simp add: short_run_def tester_defs)
  then have t: "timed_run ?A CCU_LIMIT (HcclAllReduce ?A) ?s = Some (0, after_run ?A CCU_LIMIT ?s ?c)"
    by (intro call_allreduce.timed_run_returns) (simp_all add: ideal_api_def)
  have i: "iters ?s = 5" by (simp add: short_run_def)
  have "(HcclAllReduce ?A, ?c) \<in> set (measured_statements ?A ?s)" by (simp add: measured_statements_def)
  from timed_run_measures [OF this t] obtain xs ys
    where "call_log (after_run ?A CCU_LIMIT ?s ?c) = xs @ replicate 5 ?c @ ys"
    unfolding i by (metis append_assoc nat_numeral)
  with t show ?thesis by blast
qed

end
