(* ===== verification/Reduce_Verdict.thy ===== *)
theory Reduce_Verdict
  imports Test_Programs
begin

text \<open>
  What the verdict of a reduction test is worth: when the test keeps its verification switched on,
  the value it expects is the exact result of the reduction (with one gap), and the number of
  errors grows exactly when the device delivered something else.
\<close>

subsection \<open>When verification stays on\<close>

lemma guard_fields [simp]:
  "dtype (guard ts th s) = dtype s" "op_type (guard ts th s) = op_type s" "rank_size (guard ts th s) = rank_size s"
  "has_dtype (guard ts th s) us = has_dtype s us"
  by (simp_all add: guard_def no_verification_def warn_once_def has_dtype_def)

lemma check_no_verification [simp]: "check (no_verification s) = 0"
  by (simp add: no_verification_def warn_once_def)

lemma check_guard: "check (guard ts th s) = 1 \<longleftrightarrow> check s = 1 \<and> \<not> (has_dtype s ts \<and> th \<le> rank_size s)"
  by (simp add: guard_def)

lemma check_sum_guard:
  "check (sum_guard ts mx s) = 1 \<longleftrightarrow> check s = 1 \<and> \<not> (\<exists>t \<in> set ts. has_dtype s [t] \<and> mx t < rank_size s)"
  by (auto simp: sum_guard_def list_ex_iff)

lemma has_dtype_value: "dtype s = dtype_value t \<Longrightarrow> has_dtype s ts \<longleftrightarrow> t \<in> set ts"
  by (auto simp: has_dtype_def dtype_value_inj)

lemmas thresholds = RANKSIZE_TH_INT64_def RANKSIZE_TH_INT32_def RANKSIZE_TH_INT8_def RANKSIZE_TH_FP32_def
  RANKSIZE_TH_FP16_def ALLREDUCE_SUM_MAX_RANKSIZE_def REDUCE_SUM_MAX_RANKSIZE_def

abbreviation exact_types :: "HcclDataType set" where
  "exact_types \<equiv> {HCCL_DATA_TYPE_INT8, HCCL_DATA_TYPE_INT16, HCCL_DATA_TYPE_INT32, HCCL_DATA_TYPE_INT64}"

lemma allreduce_verified:
  assumes "dtype s = dtype_value t" "op_type s = op_value p" "t \<in> exact_types"
    and "check (allreduce_is_data_overflow s) = 1"
  shows "p = HCCL_REDUCE_PROD \<Longrightarrow> t \<noteq> HCCL_DATA_TYPE_INT16 \<Longrightarrow> rank_size s < 8 * int (elem_width t) - 1"
    and "p = HCCL_REDUCE_SUM \<Longrightarrow> rank_size s < 2 ^ 30 \<Longrightarrow> 2 * rank_size s < 2 ^ min 31 (8 * elem_width t - 1)"
proof -
  show "rank_size s < 8 * int (elem_width t) - 1" if "p = HCCL_REDUCE_PROD" "t \<noteq> HCCL_DATA_TYPE_INT16"
    using assms that
    by (auto simp: allreduce_is_data_overflow_def has_op_def prod_guards_def check_guard has_dtype_value
        elem_width_def thresholds)
  show "2 * rank_size s < 2 ^ min 31 (8 * elem_width t - 1)" if "p = HCCL_REDUCE_SUM" "rank_size s < 2 ^ 30"
    using assms that
    by (auto simp: allreduce_is_data_overflow_def has_op_def check_sum_guard has_dtype_value
        elem_width_def thresholds c_div_def)
qed

lemma reduction_of_twos:
  assumes "1 \<le> n"
  shows "reduction HCCL_REDUCE_SUM (replicate (nat n) 2) = 2 * n"
    and "reduction HCCL_REDUCE_PROD (replicate (nat n) 2) = 2 ^ nat n"
    and "reduction HCCL_REDUCE_MAX (replicate (nat n) 2) = 2"
    and "reduction HCCL_REDUCE_MIN (replicate (nat n) 2) = 2"
  using assms by (simp_all add: sum_list_replicate prod_list_replicate)

lemma pow_in_s: "n < int w - 1 \<Longrightarrow> 0 \<le> n \<Longrightarrow> in_s w (2 ^ nat n)"
proof -
  assume "n < int w - 1" "0 \<le> n"
  then have "(2::int) ^ nat n < 2 ^ (w - 1)" by (intro power_strict_increasing) auto
  then show ?thesis
    using order_trans [of "- (2 ^ (w - 1))" 0 "(2::int) ^ nat n"] by (simp add: in_s_def)
qed

subsection \<open>The expected value is exact\<close>

lemma clamp_small: "n < 128 \<Longrightarrow> clamp_int8 n = n"
  by (simp add: clamp_int8_def)

lemma s_enc_one: "s_enc (Suc 0) v = s_enc 1 v"
  by simp

lemma content_exact:
  assumes t: "t \<in> exact_types" and n: "1 \<le> n" and v: "0 \<le> v" "t = HCCL_DATA_TYPE_INT8 \<Longrightarrow> v < 128"
    and r: "r = reduction p (replicate (nat n) v)" and fits: "in_s (8 * elem_width t) r"
    and sum: "p = HCCL_REDUCE_SUM \<Longrightarrow> in_s 32 r"
    and prod: "p = HCCL_REDUCE_PROD \<Longrightarrow> in_s 32 r \<or> t \<noteq> HCCL_DATA_TYPE_INT8"
      "p = HCCL_REDUCE_PROD \<Longrightarrow> v_trunc (f64_decode (c_pow v n)) = Some r"
  shows "reduce_content t v (op_value p) n = Fill (s_enc (elem_width t) r)"
proof (cases "t = HCCL_DATA_TYPE_INT8")
  case False
  then have "t \<in> {HCCL_DATA_TYPE_INT16, HCCL_DATA_TYPE_INT32, HCCL_DATA_TYPE_INT64}" using t by simp
  from reduce_expected [OF this n r fits sum prod(2)] show ?thesis .
next
  case True
  then have small: "r < 128" using fits by (simp add: in_s_def elem_width_def)
  have m: "c_mod v 128 = v" using v True by (simp add: c_mod_nonneg)
  show ?thesis
  proof (cases p)
    case HCCL_REDUCE_SUM
    then have "v * n = r" using n by (simp add: r sum_list_replicate mult.commute)
    with sum HCCL_REDUCE_SUM True small m show ?thesis
      by (simp add: reduce_content_def Let_def elem_width_def s32_mul_def clamp_small)
  next
    case HCCL_REDUCE_PROD
    with prod True small m show ?thesis
      by (simp add: reduce_content_def Let_def elem_width_def f64_to_s_def clamp_small)
  next
    case HCCL_REDUCE_MAX
    with n r True small m show ?thesis by (simp add: reduce_content_def Let_def elem_width_def clamp_small)
  next
    case HCCL_REDUCE_MIN
    with n r True small m show ?thesis by (simp add: reduce_content_def Let_def elem_width_def clamp_small)
  qed
qed

lemma twos_exact:
  assumes t: "t \<in> exact_types" and n: "1 \<le> n"
    and prod: "p = HCCL_REDUCE_PROD \<Longrightarrow> n < 8 * int (elem_width t) - 1"
    and sum: "p = HCCL_REDUCE_SUM \<Longrightarrow> 2 * n < 2 ^ min 31 (8 * elem_width t - 1)"
  defines "r \<equiv> reduction p (replicate (nat n) 2)"
  shows "reduce_content t 2 (op_value p) n = Fill (s_enc (elem_width t) r) \<and> in_s (8 * elem_width t) r"
proof -
  have w: "8 * elem_width t \<le> 64" "8 \<le> 8 * elem_width t" using t by (auto simp: elem_width_def)
  note ns = reduction_of_twos [OF n]
  have fits: "in_s (8 * elem_width t) r"
  proof (cases p)
    case HCCL_REDUCE_SUM
    then show ?thesis using t sum n ns by (auto simp: r_def in_s_def elem_width_def)
  next
    case HCCL_REDUCE_PROD
    then show ?thesis using prod n ns pow_in_s [of n "8 * elem_width t"] by (simp add: r_def)
  qed (use t ns in \<open>auto simp: r_def in_s_def elem_width_def\<close>)
  have "p = HCCL_REDUCE_SUM \<Longrightarrow> in_s 32 r"
    using t sum n ns by (auto simp: r_def in_s_def elem_width_def)
  moreover have "p = HCCL_REDUCE_PROD \<Longrightarrow> in_s 32 r \<or> t \<noteq> HCCL_DATA_TYPE_INT8"
    using fits by (auto simp: in_s_def elem_width_def)
  moreover have "p = HCCL_REDUCE_PROD \<Longrightarrow> v_trunc (f64_decode (c_pow 2 n)) = Some r"
    using prod n w ns c_pow_two [of n] by (simp add: r_def)
  ultimately show ?thesis
    using content_exact [OF t n, of 2 r p] fits by (simp add: r_def)
qed

text \<open>
  C12.  The overflow guards of the allreduce test are sound: for the signed integer types, but for the
  product of \<open>int16\<close>, whenever verification is still on after \<open>is_data_overflow\<close>,
  \<open>hccl_reduce_check_buf_init\<close> fills the check buffer with elements that, read as signed integers, are
  the reduction of one copy of \<open>val = 2\<close> per rank, which has not overflowed.
\<close>
theorem allreduce_guards_sound:
  assumes "dtype s = dtype_value t" "op_type s = op_value p" "t \<in> exact_types" "val s = 2"
    and "1 \<le> rank_size s" "rank_size s < 2 ^ 30" "\<not> (t = HCCL_DATA_TYPE_INT16 \<and> p = HCCL_REDUCE_PROD)"
    and "check (allreduce_is_data_overflow s) = 1" and "base + unat n * type_bytes t \<le> length m"
  shows "\<exists>m'. hccl_reduce_check_buf_init m base n (dtype s) (op_type s) (val s) (rank_size s) = Some m'
    \<and> length m' = length m
    \<and> (\<forall>j < unat n. \<exists>x. load_elem (type_bytes t) base j m' = Some x
         \<and> wrap_s (8 * type_bytes t) (int x) = reduction p (replicate (nat (rank_size s)) 2))"
proof -
  have w: "type_bytes t = elem_width t" using assms(3) by (auto simp: elem_width_bytes)
  have "reduce_content t 2 (op_value p) (rank_size s) =
        Fill (s_enc (elem_width t) (reduction p (replicate (nat (rank_size s)) 2)))
     \<and> in_s (8 * elem_width t) (reduction p (replicate (nat (rank_size s)) 2))"
    by (rule twos_exact [OF assms(3,5)])
      (use allreduce_verified [OF assms(1-3,8)] assms(6,7) in auto)
  then show ?thesis unfolding assms(1,2,4) w by (intro expected_buffer assms(9) [unfolded w]) simp_all
qed

definition reduce_settings :: "HcclDataType \<Rightarrow> HcclReduceOp \<Rightarrow> int \<Rightarrow> HcclOpBaseTest" where
  "reduce_settings t p n = new_tester\<lparr>dtype := dtype_value t, op_type := op_value p, rank_size := n\<rparr>"

lemma allreduce_guards_sound_witness:
  "\<exists>m' x. hccl_reduce_check_buf_init [0, 0, 0, 0] 0 1 (dtype_value HCCL_DATA_TYPE_INT32) (op_value HCCL_REDUCE_PROD) 2 30 = Some m'
    \<and> load_elem 4 0 0 m' = Some x \<and> wrap_s 32 (int x) = 2 ^ 30"
proof -
  let ?s = "reduce_settings HCCL_DATA_TYPE_INT32 HCCL_REDUCE_PROD 30"
  have s: "dtype ?s = dtype_value HCCL_DATA_TYPE_INT32" "op_type ?s = op_value HCCL_REDUCE_PROD"
      "rank_size ?s = 30" "val ?s = 2" "check ?s = 1"
    by (simp_all add: reduce_settings_def tester_defs)
  have "check (allreduce_is_data_overflow ?s) = 1"
    using s(3,5) by (simp add: allreduce_is_data_overflow_def has_op_def s(2) prod_guards_def check_guard
        has_dtype_value [OF s(1)] thresholds del: op_value.simps)
  from allreduce_guards_sound [OF s(1,2) _ s(4) _ _ _ this, of 0 1 "[0, 0, 0, 0]"] s show ?thesis
    by (auto simp: prod_list_replicate simp del: dtype_value.simps op_value.simps)
qed

text \<open>
  C31.  The product of \<open>int16\<close> has no guard: from 15 ranks on, verification stays on although the
  product of the ranks' twos does not fit, and the conversion in \<open>reduce_check_buf_init_int16\<close> is
  undefined as soon as there is an element to check.
\<close>
theorem int16_product_unguarded:
  assumes "dtype s = dtype_value HCCL_DATA_TYPE_INT16" "op_type s = op_value HCCL_REDUCE_PROD" "val s = 2"
    and "15 \<le> rank_size s" "rank_size s < 1024" "n \<noteq> 0"
  shows "allreduce_is_data_overflow s = s
     \<and> hccl_reduce_check_buf_init m base n (dtype s) (op_type s) (val s) (rank_size s) = None"
proof
  show "allreduce_is_data_overflow s = s"
    by (simp add: allreduce_is_data_overflow_def has_op_def assms(2) prod_guards_def guard_def
        has_dtype_value [OF assms(1)] del: op_value.simps)
  have "f64_to_s 16 (c_pow 2 (rank_size s)) = None"
  proof -
    have "(2::int) ^ 15 \<le> 2 ^ nat (rank_size s)" using assms(4) by (intro power_increasing) auto
    then show ?thesis using c_pow_two [of "rank_size s"] assms(4,5) by (simp add: f64_to_s_def in_s_def)
  qed
  then have "reduce_content HCCL_DATA_TYPE_INT16 2 (op_value HCCL_REDUCE_PROD) (rank_size s) = Undefined"
    by (simp add: reduce_content_def Let_def elem_width_def)
  moreover have "unat n \<noteq> 0" using assms(6) by (simp add: unat_eq_0)
  ultimately show "hccl_reduce_check_buf_init m base n (dtype s) (op_type s) (val s) (rank_size s) = None"
    using reduce.fills [of m base n HCCL_DATA_TYPE_INT16 "(2, op_value HCCL_REDUCE_PROD, rank_size s)"]
    by (simp add: assms(1-3) filled_def del: op_value.simps dtype_value.simps)
qed

lemma int16_product_unguarded_witness:
  "hccl_reduce_check_buf_init [0, 0] 0 1 (dtype_value HCCL_DATA_TYPE_INT16) (op_value HCCL_REDUCE_PROD) 2 16 = None"
  using int16_product_unguarded [of "reduce_settings HCCL_DATA_TYPE_INT16 HCCL_REDUCE_PROD 16" 1 "[0, 0]" 0]
  by (simp add: reduce_settings_def tester_defs del: dtype_value.simps op_value.simps)

end
