(* ===== verification/Allreduce_Verdict.thy ===== *)
theory Allreduce_Verdict
  imports Reduce_Verdict
begin

text \<open>
  The allreduce test from its start to the printed row, in an environment whose calls succeed: how
  the verdict depends on what the device delivers.
\<close>

subsection \<open>Calls that succeed\<close>

definition obliging :: "api \<Rightarrow> bool" where
  "obliging A \<longleftrightarrow> (\<forall>log c. status A log c = 0)"

text \<open>After waiting for the stream, block \<open>b\<close> holds \<open>R\<close>.\<close>

definition delivers :: "api \<Rightarrow> nat \<Rightarrow> mem \<Rightarrow> bool" where
  "delivers A b R \<longleftrightarrow> (\<forall>log m i. i < length R \<longrightarrow> sync_byte A log m b i = R ! i)"

lemma call_obliging: "obliging A \<Longrightarrow> call A c s = Some (0, s\<lparr>call_log := c # call_log s\<rparr>)"
  by (simp add: obliging_def call_ok)

lemma malloc_host_obliging:
  assumes "obliging A"
  shows "\<exists>l m. length m = unat n \<and> aclrtMallocHost A n upd s =
    Some (0, (upd (next_block s, 0)
      (s\<lparr>blocks := (blocks s)(next_block s \<mapsto> (Host, m)), next_block := Suc (next_block s)\<rparr>))\<lparr>call_log := l\<rparr>)"
  using assms
  by (intro exI [of _ "Acl (MallocHost n) # call_log _"] exI
      [of _ "map (fresh_byte A (call_log s) (Acl (MallocHost n))) [0..<unat n]"])
    (auto simp: aclrtMallocHost_def invoke_def alloc_def logged_def obliging_def Let_def)

lemma whole_block: "blocks s b = Some (k, m) \<Longrightarrow> k \<noteq> Reserved \<Longrightarrow> n \<le> length m \<Longrightarrow>
    readable s (b, 0) n \<and> read_mem s (b, 0) n = Some (take n m)"
  by (simp add: readable_def read_mem_def block_bytes_def)

lemma memcpy_obliging:
  assumes "obliging A" and "blocks s b = Some (k, m)" "k \<noteq> Reserved" "length m = unat n"
    and "blocks s d = Some (kd, md)" "kd \<noteq> Reserved" "unat n \<le> length md"
  shows "\<exists>l. aclrtMemcpy A (d, 0) n (b, 0) n kind s =
    Some (0, s\<lparr>blocks := (blocks s)(d \<mapsto> (kd, write_at 0 m md)), call_log := l\<rparr>)"
  using assms whole_block [of s b k m "unat n"] whole_block [of s d kd md "unat n"]
  by (auto simp: aclrtMemcpy_def invoke_def obliging_def write_mem_def set_block_def block_bytes_def logged_def Let_def)

lemma update_buffer_run:
  "blocks s b = Some (k, m) \<Longrightarrow> f m 0 = Some m' \<Longrightarrow>
     update_buffer (b, 0) f s = Some (s\<lparr>blocks := (blocks s)(b \<mapsto> (k, m'))\<rparr>)"
  by (simp add: update_buffer_def set_block_def)

lemma write_at_all: "length bs = length m \<Longrightarrow> write_at 0 bs m = bs"
  by (simp add: write_at_def)

subsection \<open>A state the driver hands to the test\<close>

text \<open>
  The buffers of the device are live, different and large enough; the size in bytes is the count
  times the width, as \<open>get_buff_size\<close> computes it.
\<close>

definition ready :: "HcclDataType \<Rightarrow> nat \<Rightarrow> nat \<Rightarrow> 'a HcclTest_scheme \<Rightarrow> bool" where
  "ready t sb rb s \<longleftrightarrow>
     dtype s = dtype_value t \<and> send_buff s = (sb, 0) \<and> recv_buff s = (rb, 0) \<and> sb \<noteq> rb \<and>
     sb < next_block s \<and> rb < next_block s \<and>
     unat (malloc_kSize s) = unat (count (data s)) * elem_width t \<and>
     (\<exists>m. blocks s sb = Some (Device, m) \<and> length m = unat (malloc_kSize s)) \<and>
     (\<exists>m. blocks s rb = Some (Device, m) \<and> length m = unat (malloc_kSize s)) \<and>
     \<not> enable_zero_copy s \<and> only_device_exec_time s = 0"

lemma guard_on: "check (guard ts th s) = 1 \<Longrightarrow> guard ts th s = s"
  by (auto simp: guard_def)

lemma prod_guards_on:
  assumes "check (prod_guards s) = 1"
  shows "prod_guards s = s"
proof -
  have "check (guard [HCCL_DATA_TYPE_FP16] RANKSIZE_TH_FP16 s) = 1"
    "check (guard [HCCL_DATA_TYPE_FP32] RANKSIZE_TH_FP32 s) = 1"
    "check (guard [HCCL_DATA_TYPE_INT8] RANKSIZE_TH_INT8 s) = 1"
    "check (guard [HCCL_DATA_TYPE_INT32] RANKSIZE_TH_INT32 s) = 1"
    "check (guard [HCCL_DATA_TYPE_INT64] RANKSIZE_TH_INT64 s) = 1"
    using assms by (simp_all add: prod_guards_def check_guard)
  then show ?thesis by (simp add: prod_guards_def guard_on)
qed

lemma allreduce_guard_on: "check (allreduce_is_data_overflow s) = 1 \<Longrightarrow> allreduce_is_data_overflow s = s"
  using prod_guards_on [of s]
  by (auto simp: allreduce_is_data_overflow_def sum_guard_def split: if_splits)

lemma fill_fresh:
  "length m = n * w \<Longrightarrow> filled w (Fill x) m 0 n = Some (elems w (\<lambda>_. x) n)"
  by (auto simp: filled_def write_at_all)

text \<open>The first part of the test: the host buffer, the copy to the device, the expected values.\<close>

lemma prepare_run:
  assumes A: "obliging A" and r: "ready t sb rb s"
    and h: "host_content t (val s) = Fill y" and e: "reduce_content t (val s) (op_type s) (rank_size s) = Fill x"
    and on: "check (allreduce_is_data_overflow s) = 1"
  shows "\<exists>l f. steps
      [assign allreduce_is_data_overflow,
       with_state (\<lambda>s. malloc_host_buf A (malloc_kSize s)),
       with_state (\<lambda>s. fill_host (host_buf s) (count (data s)) (val s)),
       with_state (\<lambda>s. host_to_send A (malloc_kSize s)),
       when_do (\<lambda>s. check s = 1) (allreduce_init_buf_val A)] s =
     Some (0, s\<lparr>call_log := l, blocks := f, next_block := next_block s + 2,
       host_buf := (next_block s, 0), check_buf := (next_block s + 1, 0)\<rparr>)
    \<and> f (next_block s + 1) = Some (Host, elems (elem_width t) (\<lambda>_. x) (unat (count (data s))))
    \<and> f rb = blocks s rb"
proof -
  let ?k = "malloc_kSize s" and ?nb = "next_block s" and ?n = "unat (count (data s))" and ?w = "elem_width t"
  from r obtain ms where sb: "blocks s sb = Some (Device, ms)" "length ms = unat ?k"
    and d: "dtype s = dtype_value t" "send_buff s = (sb, 0)" "sb \<noteq> rb" "sb < ?nb" "rb < ?nb" "unat ?k = ?n * ?w"
    unfolding ready_def by blast
  note g = allreduce_guard_on [OF on]
  have c1: "check s = 1" using on g by simp
  obtain l1 m1 where 1: "length m1 = unat ?k" "malloc_host_buf A ?k s = Some (0, s\<lparr>blocks := (blocks s)(?nb \<mapsto> (Host, m1)), next_block := Suc ?nb, host_buf := (?nb, 0), call_log := l1\<rparr>)"
    using malloc_host_obliging [OF A, of ?k upd_host_buf s]
    by (auto simp: malloc_host_buf_def upd_host_buf_def)
  define s1 where "s1 = s\<lparr>blocks := (blocks s)(?nb \<mapsto> (Host, m1)), next_block := Suc ?nb, host_buf := (?nb, 0), call_log := l1\<rparr>"
  define hb where "hb = elems ?w (\<lambda>_. y) ?n"
  have len_hb: "length hb = unat ?k" by (simp add: hb_def d(6))
  have "hccl_host_buf_init m1 0 (count (data s)) (dtype s) (val s) = Some hb"
    using host.fills [of m1 0 "count (data s)" t "val s"] 1(1) d(6) by (simp add: d(1) h fill_fresh hb_def)
  then have 2: "fill_host (?nb, 0) (count (data s)) (val s) s1 = Some (0, s1\<lparr>blocks := (blocks s1)(?nb \<mapsto> (Host, hb))\<rparr>)"
    by (simp add: fill_host_def cmd_defs s1_def update_buffer_run [where m' = hb])
  define s2 where "s2 = s1\<lparr>blocks := (blocks s1)(?nb \<mapsto> (Host, hb))\<rparr>"
  obtain l3 where 3: "host_to_send A ?k s2 = Some (0, s2\<lparr>blocks := (blocks s2)(sb \<mapsto> (Device, write_at 0 hb ms)), call_log := l3\<rparr>)"
    using memcpy_obliging [OF A, of s2 ?nb Host hb ?k sb Device ms HOST_TO_DEVICE] sb d len_hb
    by (auto simp: host_to_send_def cmd_defs s2_def s1_def)
  define s3 where "s3 = s2\<lparr>blocks := (blocks s2)(sb \<mapsto> (Device, write_at 0 hb ms)), call_log := l3\<rparr>"
  obtain l4 m4 where 4: "length m4 = unat ?k" "malloc_check_buf A ?k s3 = Some (0, s3\<lparr>blocks := (blocks s3)(next_block s3 \<mapsto> (Host, m4)), next_block := Suc (next_block s3), check_buf := (next_block s3, 0), call_log := l4\<rparr>)"
    using malloc_host_obliging [OF A, of ?k upd_check_buf s3]
    by (auto simp: malloc_check_buf_def upd_check_buf_def)
  define s4 where "s4 = s3\<lparr>blocks := (blocks s3)(next_block s3 \<mapsto> (Host, m4)),
      next_block := Suc (next_block s3), check_buf := (next_block s3, 0), call_log := l4\<rparr>"
  define cb where "cb = elems ?w (\<lambda>_. x) ?n"
  have "hccl_reduce_check_buf_init m4 0 (count (data s)) (dtype s) (op_type s) (val s) (rank_size s) = Some cb"
    using reduce.fills [of m4 0 "count (data s)" t "(val s, op_type s, rank_size s)"] 4(1) d(6)
    by (simp add: d(1) e fill_fresh cb_def)
  then have 5: "fill_expected (Suc ?nb, 0) (count (data s)) (val s) s4 =
      Some (0, s4\<lparr>blocks := (blocks s4)(Suc ?nb \<mapsto> (Host, cb))\<rparr>)"
    by (simp add: fill_expected_def cmd_defs s4_def s3_def s2_def s1_def update_buffer_run [where m' = cb])
  define s5 where "s5 = s4\<lparr>blocks := (blocks s4)(Suc ?nb \<mapsto> (Host, cb))\<rparr>"
  have same: "malloc_kSize s1 = ?k" "count (data s1) = count (data s)" "val s1 = val s" "host_buf s1 = (?nb, 0)"
    "malloc_kSize s2 = ?k" "check s3 = 1" "malloc_kSize s3 = ?k"
    "count (data s4) = count (data s)" "val s4 = val s" "check_buf s4 = (Suc ?nb, 0)"
    by (simp_all add: s1_def s2_def s3_def s4_def c1)
  note folds = s1_def [symmetric] s2_def [symmetric] s3_def [symmetric] s4_def [symmetric] s5_def [symmetric]
  have run: "steps
      [assign allreduce_is_data_overflow,
       with_state (\<lambda>s. malloc_host_buf A (malloc_kSize s)),
       with_state (\<lambda>s. fill_host (host_buf s) (count (data s)) (val s)),
       with_state (\<lambda>s. host_to_send A (malloc_kSize s)),
       when_do (\<lambda>s. check s = 1) (allreduce_init_buf_val A)] s = Some (0, s5)"
    using 1(2) 2 3 4(2) 5 unfolding folds
    by (simp add: cmd_defs g same allreduce_init_buf_val_def)
  have s5: "s5 = s\<lparr>call_log := l4, blocks := blocks s5, next_block := ?nb + 2, host_buf := (?nb, 0), check_buf := (?nb + 1, 0)\<rparr>"
    by (simp add: s1_def s2_def s3_def s4_def s5_def)
  have "blocks s5 (?nb + 1) = Some (Host, cb)" "blocks s5 rb = blocks s rb"
    using d by (simp_all add: s1_def s2_def s3_def s4_def s5_def)
  with s5 show ?thesis unfolding run cb_def [symmetric] by blast
qed

text \<open>The run: the receive buffer holds what the device delivers, host buffers are as they were.\<close>

lemma delivers_map: "delivers A b R \<Longrightarrow> map (sync_byte A l m b) [0..<length R] = R"
  by (rule nth_equalityI) (simp_all add: delivers_def)

lemma run_delivers:
  fixes u :: "'a HcclTest_scheme"
  assumes A: "obliging A" "delivers A rb R" and o: "only_device_exec_time u = 0"
    and b: "blocks u rb = Some (Device, m)" "length m = length R" "blocks u c = Some (Host, cm)"
  shows "\<exists>l f. timed_run A CCU_LIMIT (HcclAllReduce A) u = Some (0, u\<lparr>call_log := l, blocks := f\<rparr>)
    \<and> f rb = Some (Device, R) \<and> f c = Some (Host, cm)"
proof -
  let ?c = "Hccl (AllReduce (send_buff u) (recv_buff u) (count (data u)) (dtype u) (op_type u) (hccl_comm u) (stream u))"
  define t where "t = after_run A CCU_LIMIT u ?c"
  have run: "timed_run A CCU_LIMIT (HcclAllReduce A) u = Some (0, t)"
    unfolding t_def using A(1) o by (intro call_allreduce.timed_run_returns) (simp_all add: obliging_def)
  have t: "t = u\<lparr>call_log := call_log t, blocks := blocks t\<rparr>"
    by (simp add: t_def after_run_def logged_def synced_def)
  have "blocks t rb = Some (Device, R)"
    using b by (simp add: t_def after_run_def logged_def synced_def delivers_map [OF A(2)])
  moreover have "blocks t c = Some (Host, cm)"
    using b by (simp add: t_def after_run_def logged_def synced_def)
  ultimately show ?thesis using t unfolding run by blast
qed

subsection \<open>The verdict\<close>

lemma exact_checker:
  "t \<in> exact_types \<Longrightarrow> reduce_checker t = Some (integer_check (elem_width t)) \<and> elem_width t \<in> {1, 2, 4, 8}"
  by (auto simp: integer_check_def elem_width_def)

lemma compare_run:
  assumes t: "t \<in> exact_types" "dtype v = dtype_value t"
    and b: "recv_buff_temp v = (x, 0)" "blocks v x = Some (Host, R)" "check_buf v = (y, 0)" "blocks v y = Some (Host, cb)"
    and n: "length R = unat n * elem_width t" "length cb = unat n * elem_width t" "unat n < 2147483648"
    and e: "check_err v < 2147483647"
  shows "\<exists>pr. compare_result reduce_checker n v =
    Some (0, v\<lparr>printed := pr, check_err := check_err v + (if R = cb then 0 else 1)\<rparr>)"
proof -
  have few: "length (filter P [0..<unat n]) < 2147483648" for P
    using n(3) length_filter_le [of P "[0..<unat n]"] by simp
  obtain err rep where c: "integer_check (elem_width t) R cb n = Some (err, rep)" "err = 0 \<longleftrightarrow> R = cb"
    using integer_check_spec [of "elem_width t" n R cb] exact_checker [OF t(1)] n few by auto
  have run: "compare_result reduce_checker n v = steps [print_report rep, count_failure err] v"
    using exact_checker [OF t(1)] c b
    by (simp add: compare_result_def t(2) bytes_at_def del: dtype_value.simps)
  show ?thesis
  proof (cases rep)
    case None
    then show ?thesis using c(2) e unfolding run
      by (intro exI [of _ "printed v"]) (simp add: print_report_def cmd_defs count_failure_def s32_inc_def)
  next
    case (Some q)
    then show ?thesis using c(2) e unfolding run
      by (cases q) (auto simp: print_report_def cmd_defs count_failure_def s32_inc_def say_def print_def)
  qed
qed

lemma report_run:
  assumes "check v = 1" "0 \<le> rank_id v" "rank_id v < rank_size v"
  shows "\<exists>u. report_time bytes time v = Some (0, u) \<and> check_err u = check_err v
    \<and> (rank_id v = root_rank v \<longrightarrow> (\<exists>a b. last (printed u) =
          ResultRow (data_size (data v)) a b (if check_err v = 0 then ''success'' else ''failed'')))"
proof (cases "rank_id v = root_rank v")
  case False
  then show ?thesis
    using assms by (simp add: report_time_def print_execution_time_def cmd_defs print_def Let_def)
next
  case True
  then show ?thesis
    using assms by (simp add: report_time_def print_execution_time_def print_header_once_def cmd_defs print_def Let_def)
qed

lemma fetch_run:
  assumes "obliging A" "blocks v b = Some (Device, R)" "length R = unat n" "b < next_block v"
  shows "\<exists>l. fetch_result A n (b, 0) v = Some (0, v\<lparr>call_log := l,
    blocks := (blocks v)(next_block v \<mapsto> (Host, R)), next_block := Suc (next_block v), recv_buff_temp := (next_block v, 0)\<rparr>)"
proof -
  obtain l m where 1: "length m = unat n" "aclrtMallocHost A n upd_recv_buff_temp v =
      Some (0, v\<lparr>blocks := (blocks v)(next_block v \<mapsto> (Host, m)), next_block := Suc (next_block v),
        recv_buff_temp := (next_block v, 0), call_log := l\<rparr>)"
    using malloc_host_obliging [OF assms(1), of n upd_recv_buff_temp v] by (auto simp: upd_recv_buff_temp_def)
  define v1 where "v1 = v\<lparr>blocks := (blocks v)(next_block v \<mapsto> (Host, m)), next_block := Suc (next_block v),
        recv_buff_temp := (next_block v, 0), call_log := l\<rparr>"
  have b1: "blocks v1 b = Some (Device, R)" "blocks v1 (next_block v) = Some (Host, m)"
      "recv_buff_temp v1 = (next_block v, 0)"
    using assms by (auto simp: v1_def)
  obtain l2 where 2: "aclrtMemcpy A (next_block v, 0) n (b, 0) n DEVICE_TO_HOST v1 =
      Some (0, v1\<lparr>blocks := (blocks v1)(next_block v \<mapsto> (Host, write_at 0 R m)), call_log := l2\<rparr>)"
    using memcpy_obliging [OF assms(1) b1(1) _ _ b1(2), of n DEVICE_TO_HOST] assms(3) 1(1) by auto
  have "fetch_result A n (b, 0) v =
      Some (0, v1\<lparr>blocks := (blocks v1)(next_block v \<mapsto> (Host, write_at 0 R m)), call_log := l2\<rparr>)"
    using 1(2) 2 unfolding v1_def [symmetric] by (simp add: fetch_result_def cmd_defs b1(3))
  then show ?thesis
    by (intro exI [of _ l2]) (simp add: v1_def write_at_all assms(3) 1(1))
qed

text \<open>The last part of the test, from the answer of the timer to the printed row.\<close>

definition check_and_report :: "api \<Rightarrow> u32 \<Rightarrow> 'a HcclOpBaseTest_scheme cmd" where
  "check_and_report A time =
     steps
       [when_do (\<lambda>s. check s = 1)
          (steps
            [when_do (\<lambda>s. enable_zero_copy s \<and> (iters s \<noteq> 0 \<or> warmup_iters s \<noteq> 0))
               (steps
                 [with_state (\<lambda>s. host_to_send A (malloc_kSize s)),
                  HcclAllReduce A,
                  with_state (\<lambda>s. aclrtSynchronizeStream A (stream s))]),
             allreduce_check_buf_result A]),
        allreduce_cal_execution_time time]"

lemma allreduce_stages:
  "allreduce_hccl_op_base_test A = steps
     ([assign allreduce_is_data_overflow,
       with_state (\<lambda>s. malloc_host_buf A (malloc_kSize s)),
       with_state (\<lambda>s. fill_host (host_buf s) (count (data s)) (val s)),
       with_state (\<lambda>s. host_to_send A (malloc_kSize s)),
       when_do (\<lambda>s. check s = 1) (allreduce_init_buf_val A)] @
      [timed_run A CCU_LIMIT (HcclAllReduce A), measured A (check_and_report A)])"
  by (simp add: allreduce_hccl_op_base_test_def check_and_report_def [abs_def])

lemma stages: "steps xs s = Some (0, u) \<Longrightarrow> c u = Some (0, v) \<Longrightarrow> steps (xs @ [c, d]) s = d v"
  by (simp add: steps_append steps.simps split: option.split)

lemma check_and_report_run:
  assumes A: "obliging A" and t: "t \<in> exact_types" "dtype v = dtype_value t"
    and b: "recv_buff v = (rb, 0)" "blocks v rb = Some (Device, R)" "rb < next_block v"
      "check_buf v = (c, 0)" "blocks v c = Some (Host, cb)" "c < next_block v"
    and n: "length R = unat (malloc_kSize v)" "length R = unat (count (data v)) * elem_width t"
      "length cb = unat (count (data v)) * elem_width t" "unat (count (data v)) < 2147483648"
    and e: "check v = 1" "\<not> enable_zero_copy v" "check_err v < 2147483647" "0 \<le> rank_id v" "rank_id v < rank_size v"
  shows "\<exists>u. check_and_report A time v = Some (0, u)
    \<and> check_err u = check_err v + (if R = cb then 0 else 1)
    \<and> (rank_id v = root_rank v \<longrightarrow> (\<exists>a b. last (printed u) =
          ResultRow (data_size (data v)) a b (if check_err u = 0 then ''success'' else ''failed'')))"
proof -
  let ?n = "count (data v)" and ?nb = "next_block v"
  from fetch_run [OF A b(2) n(1) b(3)] obtain l where 1: "fetch_result A (malloc_kSize v) (rb, 0) v =
      Some (0, v\<lparr>call_log := l, blocks := (blocks v)(?nb \<mapsto> (Host, R)), next_block := Suc ?nb, recv_buff_temp := (?nb, 0)\<rparr>)"
    by blast
  define v1 where "v1 = v\<lparr>call_log := l, blocks := (blocks v)(?nb \<mapsto> (Host, R)), next_block := Suc ?nb, recv_buff_temp := (?nb, 0)\<rparr>"
  have v1: "dtype v1 = dtype_value t" "recv_buff_temp v1 = (?nb, 0)" "blocks v1 ?nb = Some (Host, R)"
    "check_buf v1 = (c, 0)" "blocks v1 c = Some (Host, cb)" "check_err v1 < 2147483647" "data v1 = data v"
    using t b e by (simp_all add: v1_def)
  from compare_run [OF t(1) v1(1-5) n(2-4) v1(6)] obtain pr where 2: "compare_result reduce_checker ?n v1 =
       Some (0, v1\<lparr>printed := pr, check_err := check_err v1 + (if R = cb then 0 else 1)\<rparr>)" by blast
  define v2 where "v2 = v1\<lparr>printed := pr, check_err := check_err v1 + (if R = cb then 0 else 1)\<rparr>"
  have v2: "check v2 = 1" "rank_id v2 = rank_id v" "rank_size v2 = rank_size v" "root_rank v2 = root_rank v"
    "data v2 = data v" "malloc_kSize v2 = malloc_kSize v" "check_err v2 = check_err v + (if R = cb then 0 else 1)"
    using e by (simp_all add: v2_def v1_def)
  from report_run [of v2 "malloc_kSize v" time] v2 e obtain u where 3:
    "report_time (malloc_kSize v) time v2 = Some (0, u)" "check_err u = check_err v2"
    "rank_id v = root_rank v \<longrightarrow> (\<exists>a b. last (printed u) =
          ResultRow (data_size (data v)) a b (if check_err v2 = 0 then ''success'' else ''failed''))" by auto
  have "allreduce_check_buf_result A v = Some (0, v2)"
    using 1 2 unfolding v1_def [symmetric] v2_def [symmetric]
    by (simp add: allreduce_check_buf_result_def cmd_defs b(1) v1(7))
  then have "check_and_report A time v = Some (0, u)"
    using 3(1) e by (simp add: check_and_report_def cmd_defs allreduce_cal_execution_time_def v2)
  then show ?thesis using 3(2,3) v2(7) by (intro exI [of _ u]) simp
qed

text \<open>
  C1.  In an environment whose calls succeed, the allreduce test of a signed integer type returns
  success and its verdict is right: the error count stays as it was if the device delivers, in
  every element, the exact reduction of the ranks' values, and grows by one if any byte is
  different.  The row of the root rank reads \<open>success\<close> exactly when that count is zero; since no
  function ever resets it, a failure at one size also marks every later size.
\<close>
theorem allreduce_verdict:
  assumes "obliging A" "delivers A rb R" "ready t sb rb s"
    and "t \<in> exact_types" "op_type s = op_value p" "val s = 2"
    and "1 \<le> rank_size s" "rank_size s < 2 ^ 30" "\<not> (t = HCCL_DATA_TYPE_INT16 \<and> p = HCCL_REDUCE_PROD)"
    and "check (allreduce_is_data_overflow s) = 1" "length R = unat (malloc_kSize s)"
    and "unat (count (data s)) < 2 ^ 31" "check_err s < 2147483647" "0 \<le> rank_id s" "rank_id s < rank_size s"
  shows "\<exists>u. allreduce_hccl_op_base_test A s = Some (0, u)
    \<and> check_err u = check_err s + (if R = elems (elem_width t) (\<lambda>_. s_enc (elem_width t)
          (reduction p (replicate (nat (rank_size s)) 2))) (unat (count (data s))) then 0 else 1)
    \<and> (rank_id s = root_rank s \<longrightarrow> (\<exists>a b. last (printed u) =
          ResultRow (data_size (data s)) a b (if check_err u = 0 then ''success'' else ''failed'')))"
proof -
  let ?n = "count (data s)" and ?w = "elem_width t" and ?nb = "next_block s"
  define r where "r = s_enc ?w (reduction p (replicate (nat (rank_size s)) 2))"
  have dt: "dtype s = dtype_value t" using assms(3) by (simp add: ready_def)
  have e: "reduce_content t (val s) (op_type s) (rank_size s) = Fill r"
    unfolding assms(5,6) r_def
    by (rule twos_exact [THEN conjunct1, OF assms(4,7)])
      (use allreduce_verified [OF dt assms(5,4,10)] assms(8,9) in auto)
  obtain y where y: "host_content t (val s) = Fill y"
    using assms(4) by (auto simp: host_content_def elem_width_def)
  from assms(3) obtain mr where k: "recv_buff s = (rb, 0)" "unat (malloc_kSize s) = unat ?n * ?w"
      "only_device_exec_time s = 0" "\<not> enable_zero_copy s" "rb < ?nb"
      "blocks s rb = Some (Device, mr)" "length mr = length R"
    using assms(11) unfolding ready_def by auto
  define cb where "cb = elems ?w (\<lambda>_. r) (unat ?n)"
  from prepare_run [OF assms(1,3) y e assms(10)] obtain l f where 1: "steps
      [assign allreduce_is_data_overflow,
       with_state (\<lambda>s. malloc_host_buf A (malloc_kSize s)),
       with_state (\<lambda>s. fill_host (host_buf s) (count (data s)) (val s)),
       with_state (\<lambda>s. host_to_send A (malloc_kSize s)),
       when_do (\<lambda>s. check s = 1) (allreduce_init_buf_val A)] s =
     Some (0, s\<lparr>call_log := l, blocks := f, next_block := ?nb + 2, host_buf := (?nb, 0), check_buf := (?nb + 1, 0)\<rparr>)"
    "f (?nb + 1) = Some (Host, cb)" "f rb = Some (Device, mr)"
    unfolding cb_def k(6) by blast
  define s1 where "s1 = s\<lparr>call_log := l, blocks := f, next_block := ?nb + 2, host_buf := (?nb, 0), check_buf := (?nb + 1, 0)\<rparr>"
  have s1: "only_device_exec_time s1 = 0" "blocks s1 rb = Some (Device, mr)" "blocks s1 (?nb + 1) = Some (Host, cb)"
    using 1(2,3) by (simp_all add: s1_def k(3))
  from run_delivers [OF assms(1,2) s1(1,2) k(7) s1(3)] obtain l2 f2 where 2:
    "timed_run A CCU_LIMIT (HcclAllReduce A) s1 = Some (0, s1\<lparr>call_log := l2, blocks := f2\<rparr>)"
    "f2 rb = Some (Device, R)" "f2 (?nb + 1) = Some (Host, cb)" by blast
  define s2 where "s2 = s1\<lparr>call_log := l2, blocks := f2\<rparr>"
  let ?ev = "Acl (EventElapsedTime (start_event s2) (end_event s2))"
  define s3 where "s3 = logged ?ev s2"
  define time :: u32 where "time = of_nat (delivered A (call_log s2) ?ev)"
  have "check s = 1" using assms(10) allreduce_guard_on [OF assms(10)] by simp
  then have s3: "blocks s3 = f2" "next_block s3 = ?nb + 2" "recv_buff s3 = (rb, 0)" "malloc_kSize s3 = malloc_kSize s"
    "check s3 = 1" "\<not> enable_zero_copy s3" "data s3 = data s" "dtype s3 = dtype_value t" "check_err s3 = check_err s"
    "check_buf s3 = (?nb + 1, 0)" "rank_id s3 = rank_id s" "rank_size s3 = rank_size s" "root_rank s3 = root_rank s"
    using k dt by (simp_all add: s3_def s2_def s1_def logged_def)
  have "measured A (check_and_report A) s2 = check_and_report A time s3"
    using assms(1) by (simp add: measured_def with_state_def call_then_def obliging_def Let_def time_def s3_def)
  then have run: "allreduce_hccl_op_base_test A s = check_and_report A time s3"
    using stages [where c = "timed_run A CCU_LIMIT (HcclAllReduce A)", OF 1(1) [folded s1_def] 2(1) [folded s2_def]] unfolding allreduce_stages by simp
  have "length cb = unat ?n * ?w" by (simp add: cb_def)
  with check_and_report_run [OF assms(1,4) s3(8,3), of R "?nb + 1" cb time] k(2,5) 2(2,3) assms(11-15)
  show ?thesis unfolding run cb_def [symmetric] r_def [symmetric] by (simp add: s3)
qed

text \<open>Rank 0 of two, one \<open>int32\<close>; the device delivers the bytes \<open>R\<close>.\<close>

definition two_ranks :: HcclOpBaseTest where
  "two_ranks = (reduce_settings HCCL_DATA_TYPE_INT32 HCCL_REDUCE_SUM 2)
     \<lparr>blocks := [1 \<mapsto> (Device, [0, 0, 0, 0]), 2 \<mapsto> (Device, [0, 0, 0, 0])], next_block := 3,
      send_buff := (1, 0), recv_buff := (2, 0), malloc_kSize := 4, data := zero_data\<lparr>count := 1\<rparr>\<rparr>"

definition device_api :: "mem \<Rightarrow> api" where
  "device_api R = (ideal_api (\<lambda>_ _. 0))\<lparr>sync_byte := (\<lambda>_ _ _ i. R ! i)\<rparr>"

lemma allreduce_verdict_witness:
  "(\<exists>u. allreduce_hccl_op_base_test (device_api [4, 0, 0, 0]) two_ranks = Some (0, u) \<and> check_err u = 0)
   \<and> (\<exists>u. allreduce_hccl_op_base_test (device_api [5, 0, 0, 0]) two_ranks = Some (0, u) \<and> check_err u = 1)"
proof -
  have A: "obliging (device_api R)" "delivers (device_api R) b R" for b R
    by (simp_all add: obliging_def delivers_def device_api_def ideal_api_def)
  have s: "dtype two_ranks = dtype_value HCCL_DATA_TYPE_INT32" "op_type two_ranks = op_value HCCL_REDUCE_SUM"
    "rank_size two_ranks = 2" "rank_id two_ranks = 0" "val two_ranks = 2" "check two_ranks = 1"
    "malloc_kSize two_ranks = 4" "count (data two_ranks) = 1" "check_err two_ranks = 0"
    by (simp_all add: two_ranks_def reduce_settings_def tester_defs)
  have r: "ready HCCL_DATA_TYPE_INT32 1 2 two_ranks"
    by (simp add: ready_def two_ranks_def reduce_settings_def tester_defs elem_width_def)
  have g: "check (allreduce_is_data_overflow two_ranks) = 1"
    by (simp add: allreduce_is_data_overflow_def has_op_def s(2) check_sum_guard s(6) has_dtype_value [OF s(1)])
  have v: "length R = 4 \<Longrightarrow> \<exists>u. allreduce_hccl_op_base_test (device_api R) two_ranks = Some (0, u)
      \<and> check_err u = (if R = [4, 0, 0, 0] then 0 else 1)" for R
    using allreduce_verdict [OF A(1) A(2) r _ s(2,5) _ _ _ g, of R] s
    by (auto simp: elem_width_def s_enc_def mem_eval sum_list_replicate)
  from v [of "[4, 0, 0, 0]"] v [of "[5, 0, 0, 0]"] show ?thesis by simp
qed

end
