(* ===== verification/Host_Buffers.thy ===== *)
theory Host_Buffers
  imports Test_Programs
begin

text \<open>
  The host buffers of the tests without heap arrays: whatever goes wrong, every block that is live
  after a test was there before it or is one of the three buffers the object remembers, so that
  \<open>destory_alloc_buf\<close> can release all of them.
\<close>

subsection \<open>An invariant of the statements\<close>

text \<open>
  \<open>acc B h r c\<close>: the live blocks are accounted for, and the members \<open>host_buf\<close>, \<open>recv_buff_temp\<close> and
  \<open>check_buf\<close> are null unless \<open>h\<close>, \<open>r\<close> and \<open>c\<close>.
\<close>

definition acc :: "nat set \<Rightarrow> bool \<Rightarrow> bool \<Rightarrow> bool \<Rightarrow> 'a HcclOpBaseTest_scheme \<Rightarrow> bool" where
  "acc B h r c s \<longleftrightarrow> accounts B s \<and> (h \<or> host_buf s = nullptr) \<and> (r \<or> recv_buff_temp s = nullptr) \<and>
     (c \<or> check_buf s = nullptr)"

lemma accD: "acc B h r c s \<Longrightarrow> accounts B s"
  by (simp add: acc_def)

lemma acc_weaken: "acc B h r c s \<Longrightarrow> acc B (h \<or> h') (r \<or> r') (c \<or> c') s"
  by (auto simp: acc_def)

lemma host_ptrs_members [simp]:
  "host_ptrs (s\<lparr>check := n\<rparr>) = host_ptrs s" "host_ptrs (s\<lparr>print_header := b\<rparr>) = host_ptrs s"
  "host_ptrs (s\<lparr>print_dump := b\<rparr>) = host_ptrs s" "host_ptrs (s\<lparr>check_err := n\<rparr>) = host_ptrs s"
  "host_ptrs (s\<lparr>printed := p\<rparr>) = host_ptrs s" "host_ptrs (s\<lparr>call_log := l\<rparr>) = host_ptrs s"
  by (simp_all add: host_ptrs_def)

text \<open>What \<open>accounts\<close> sees of the blocks: which are live, and which of them are host buffers.\<close>

lemma accounts_cong:
  assumes "host_ptrs s = host_ptrs t" "dom (blocks s) = dom (blocks t)" "next_block s = next_block t"
    and "\<And>b. (\<exists>m. blocks s b = Some (Host, m)) = (\<exists>m. blocks t b = Some (Host, m))"
  shows "accounts B s = accounts B t"
  unfolding accounts_def assms by simp

lemma accounts_set_block: "accounts B (set_block b m s) = accounts B s"
proof (rule accounts_cong)
  show "(\<exists>m'. blocks (set_block b m s) b' = Some (Host, m')) = (\<exists>m'. blocks s b' = Some (Host, m'))" for b'
    by (auto simp: set_block_def split: option.splits)
qed (auto simp: set_block_def split: option.splits)

lemma accounts_synced: "accounts B (synced A s) = accounts B s"
proof (rule accounts_cong)
  show "(\<exists>m'. blocks (synced A s) b' = Some (Host, m')) = (\<exists>m'. blocks s b' = Some (Host, m'))" for b'
    by (auto simp: synced_def split: option.splits)
qed (auto simp: synced_def split: option.splits)

lemma slots_set_block [simp]:
  "host_buf (set_block b m s) = host_buf s" "recv_buff_temp (set_block b m s) = recv_buff_temp s"
  "check_buf (set_block b m s) = check_buf s"
  by (simp_all add: set_block_def split: option.split)

interpretation acc: quiet_test "acc B h r c" for B h r c
  by unfold_locales
    (auto simp: acc_def accounts_set_block accounts_synced intro!: accounts_cong,
     auto simp: acc_def synced_def accounts_def)

subsection \<open>Allocation\<close>

context host_slot
begin

lemma malloc_accounts:
  assumes acc: "accounts B s" and null: "slot s = nullptr" and run: "aclrtMallocHost A n put s = Some (r, t)"
  shows "accounts B t"
proof (cases "status A (call_log s) (Acl (MallocHost n)) = 0")
  case False
  then have "t = logged (Acl (MallocHost n)) s" using run by (simp add: aclrtMallocHost_def invoke_def Let_def)
  then show ?thesis using acc by simp
next
  case True
  let ?nb = "next_block s" and ?p = "(next_block s, 0)"
  let ?m = "map (fresh_byte A (call_log s) (Acl (MallocHost n))) [0..<unat n]"
  let ?u = "s\<lparr>blocks := (blocks s)(?nb \<mapsto> (Host, ?m)), next_block := Suc ?nb\<rparr>"
  have t: "t = logged (Acl (MallocHost n)) (put ?p ?u)"
    using run True by (simp add: aclrtMallocHost_def invoke_def alloc_def Let_def)
  have "\<forall>b \<in> dom (blocks s). b < ?nb" "0 < ?nb" using acc unfolding accounts_def by blast+
  then have fresh: "?nb \<notin> dom (blocks s)" "?p \<noteq> nullptr" by auto
  have u: "slot ?u = nullptr" "host_ptrs ?u = host_ptrs s" by (simp_all add: world null)
  from stored [OF u(1) fresh(2)] have h: "set (host_ptrs (put ?p ?u)) = insert ?p (set (host_ptrs s))"
    "distinct (map fst (host_ptrs (put ?p ?u))) = (distinct (map fst (host_ptrs s)) \<and> ?nb \<notin> fst ` set (host_ptrs s))"
    by (simp_all add: u(2))
  have "fst ` set (host_ptrs s) \<subseteq> dom (blocks s)" using acc by (simp add: accounts_def)
  then have new: "?nb \<notin> fst ` set (host_ptrs s)" using fresh(1) by blast
  then have "accounts B (put ?p ?u)"
    using acc fresh(1) unfolding accounts_def h by (auto simp: world less_Suc_eq)
  then show ?thesis unfolding t by simp
qed

end

interpretation in_host: world_frame "\<lambda>s :: 'a HcclOpBaseTest_scheme. host_buf s = k" for k
  by unfold_locales simp_all

interpretation in_recv: world_frame "\<lambda>s :: 'a HcclOpBaseTest_scheme. recv_buff_temp s = k" for k
  by unfold_locales simp_all

interpretation in_check: world_frame "\<lambda>s :: 'a HcclOpBaseTest_scheme. check_buf s = k" for k
  by unfold_locales simp_all

lemma malloc_host_slots:
  "aclrtMallocHost A n upd_host_buf s = Some (q, t) \<Longrightarrow> recv_buff_temp t = recv_buff_temp s \<and> check_buf t = check_buf s"
  "aclrtMallocHost A n upd_recv_buff_temp s = Some (q, t) \<Longrightarrow> host_buf t = host_buf s \<and> check_buf t = check_buf s"
  "aclrtMallocHost A n upd_check_buf s = Some (q, t) \<Longrightarrow> host_buf t = host_buf s \<and> recv_buff_temp t = recv_buff_temp s"
  by (intro conjI; erule preservesD [OF in_host.aclrtMallocHost refl, rotated]
      preservesD [OF in_recv.aclrtMallocHost refl, rotated] preservesD [OF in_check.aclrtMallocHost refl, rotated];
      simp add: upd_defs)+

lemma leads_malloc:
  "leads (accounts B) (acc B False r c) (aclrtMallocHost A n upd_host_buf) (acc B True r c)"
  "leads (accounts B) (acc B h False c) (aclrtMallocHost A n upd_recv_buff_temp) (acc B h True c)"
  "leads (accounts B) (acc B h r False) (aclrtMallocHost A n upd_check_buf) (acc B h r True)"
  unfolding leads_def acc_def
  by (auto dest: malloc_host_slots slot_host.malloc_accounts slot_recv.malloc_accounts slot_check.malloc_accounts)

lemma leads_fetch: "leads (accounts B) (acc B h False c) (fetch_result A n src) (acc B h True c)"
  unfolding fetch_result_def
  by (rule leads_Cons [OF leads_malloc(2)] leads_Cons [OF leads_keep] leads_Nil leads_with_state
      | intro preserve_intros | simp add: accD)+

subsection \<open>The stages of a test\<close>

lemma quiet_stage:
  "preserves (acc B h r c) d \<Longrightarrow> leads (accounts B) (acc B h r c) (steps cs) Q \<Longrightarrow>
     leads (accounts B) (acc B h r c) (steps (d # cs)) Q"
  by (rule leads_Cons, rule leads_keep) (simp_all add: accD)

lemma last_stage: "leads (accounts B) (acc B h r c) (steps []) (accounts B)"
  by (rule leads_Nil) (simp add: accD)

lemma host_stage:
  "leads (accounts B) (acc B True r c) (steps cs) Q \<Longrightarrow>
     leads (accounts B) (acc B False r c) (steps (with_state (\<lambda>s. malloc_host_buf A (n s)) # cs)) Q"
  unfolding malloc_host_buf_def by (rule leads_Cons, rule leads_with_state, rule leads_malloc)

lemma check_stage:
  "leads (accounts B) (acc B h r True) (steps cs) Q \<Longrightarrow>
     leads (accounts B) (acc B h r False) (steps (with_state (\<lambda>s. malloc_check_buf A (n s)) # cs)) Q"
  unfolding malloc_check_buf_def by (rule leads_Cons, rule leads_with_state, rule leads_malloc)

lemma fetch_stage:
  "leads (accounts B) (acc B h True c) (steps cs) Q \<Longrightarrow>
     leads (accounts B) (acc B h False c) (steps (with_state (\<lambda>s. fetch_result A (n s) (p s)) # cs)) Q"
  by (rule leads_Cons, rule leads_with_state, rule leads_fetch)

text \<open>An optional stage that may allocate the check buffer or the buffer for the result.\<close>

lemma when_check_stage:
  assumes "preserves (acc B h r True) (steps ds)" "leads (accounts B) (acc B h r True) (steps cs) Q"
  shows "leads (accounts B) (acc B h r False)
    (steps (when_do b (steps (with_state (\<lambda>s. malloc_check_buf A (n s)) # ds)) # cs)) Q"
proof (rule leads_Cons [OF leads_when assms(2)])
  show "leads (accounts B) (\<lambda>s. acc B h r False s \<and> b s)
      (steps (with_state (\<lambda>s. malloc_check_buf A (n s)) # ds)) (acc B h r True)"
    unfolding malloc_check_buf_def
    by (rule leads_weaken, rule leads_Cons, rule leads_with_state, rule leads_malloc, rule leads_keep, rule assms)
      (simp_all add: accD)
qed (auto simp: acc_def)

lemma fetch_quiet:
  assumes "preserves (acc B h True c) (steps ds)"
  shows "leads (accounts B) (acc B h False c) (steps (with_state (\<lambda>s. fetch_result A (n s) (p s)) # ds)) (acc B h True c)"
  by (rule leads_Cons, rule leads_with_state, rule leads_fetch, rule leads_keep, rule assms) (rule accD)

lemma when_result_stage:
  assumes "preserves (acc B h True c) (steps ds)" "leads (accounts B) (acc B h True c) (steps cs) Q"
  shows "leads (accounts B) (acc B h False c)
    (steps (when_do b (steps (with_state (\<lambda>s. fetch_result A (n s) (p s)) # ds)) # cs)) Q"
proof (rule leads_Cons [OF leads_when assms(2)])
  show "leads (accounts B) (\<lambda>s. acc B h False c s \<and> b s)
      (steps (with_state (\<lambda>s. fetch_result A (n s) (p s)) # ds)) (acc B h True c)"
    by (rule leads_weaken, rule fetch_quiet, rule assms) auto
qed (auto simp: acc_def)

lemma when_again_stage:
  assumes "preserves (acc B h False c) e" "preserves (acc B h True c) (steps ds)"
    "leads (accounts B) (acc B h True c) (steps cs) Q"
  shows "leads (accounts B) (acc B h False c)
    (steps (when_do b (steps [e, steps (with_state (\<lambda>s. fetch_result A (n s) (p s)) # ds)]) # cs)) Q"
proof (rule leads_Cons [OF leads_when assms(3)])
  have "leads (accounts B) (acc B h False c)
      (steps [e, steps (with_state (\<lambda>s. fetch_result A (n s) (p s)) # ds)]) (acc B h True c)"
    by (rule leads_Cons, rule leads_keep, rule assms, rule accD, assumption,
        rule leads_Cons, rule fetch_quiet, rule assms, rule leads_Nil, simp add: accD)
  then show "leads (accounts B) (\<lambda>s. acc B h False c s \<and> b s)
      (steps [e, steps (with_state (\<lambda>s. fetch_result A (n s) (p s)) # ds)]) (acc B h True c)"
    by (rule leads_weaken) auto
qed (auto simp: acc_def)

lemma measured_stage:
  assumes "\<And>t. leads (accounts B) (acc B h r c) (k t) (accounts B)"
  shows "leads (accounts B) (acc B h r c) (steps [measured A k]) (accounts B)"
proof -
  have "leads (accounts B) (acc B h r c) (measured A k) (accounts B)"
  proof (rule leadsI)
    fix s q t assume P: "acc B h r c s" and run: "measured A k s = Some (q, t)"
    from P have l: "acc B h r c (logged e s)" for e by (simp add: acc.logged)
    show "accounts B t \<and> (q = 0 \<longrightarrow> accounts B t)"
      using run l assms accD unfolding measured_def with_state_def call_then_def Let_def leads_def
      by (metis option.inject prod.inject)
  qed
  then show ?thesis by (rule leads_Cons) (auto intro: leads_Nil)
qed

lemmas stages = host_stage check_stage fetch_stage when_check_stage when_result_stage when_again_stage
  measured_stage last_stage quiet_stage

lemma allreduce_accounts: "leads (accounts B) (acc B False False False) (allreduce_hccl_op_base_test A) (accounts B)"
  unfolding allreduce_hccl_op_base_test_def allreduce_init_buf_val_def HcclAllReduce_def
    allreduce_check_buf_result_def allreduce_cal_execution_time_def
  by (rule stages | intro preserve_intros | simp)+

lemma reduce_accounts: "leads (accounts B) (acc B False False False) (reduce_hccl_op_base_test A) (accounts B)"
  unfolding reduce_hccl_op_base_test_def reduce_init_buf_val_def HcclReduce_def
    reduce_check_buf_result_def reduce_cal_execution_time_def
  by (rule stages | intro preserve_intros | simp)+

lemma reducescatter_accounts:
  "leads (accounts B) (acc B False False False) (reducescatter_hccl_op_base_test A) (accounts B)"
  unfolding reducescatter_hccl_op_base_test_def reducescatter_init_buf_val_def HcclReduceScatter_def
    reducescatter_check_buf_result_def reducescatter_cal_execution_time_def
  by (rule stages | intro preserve_intros | simp)+

lemma brocast_accounts: "leads (accounts B) (acc B False False False) (brocast_hccl_op_base_test A) (accounts B)"
  unfolding brocast_hccl_op_base_test_def brocast_init_buf_val_def HcclBroadcast_def
    brocast_check_buf_result_def brocast_cal_execution_time_def
  by (rule stages | intro preserve_intros | simp)+

lemma allgather_accounts: "leads (accounts B) (acc B False False False) (allgather_hccl_op_base_test A) (accounts B)"
  unfolding allgather_hccl_op_base_test_def allgather_init_buf_val_def HcclAllGather_def
    allgather_check_buf_result_def allgather_cal_execution_time_def
  by (rule stages | intro preserve_intros | simp)+

lemma scatter_accounts: "leads (accounts B) (acc B False False False) (scatter_hccl_op_base_test A) (accounts B)"
  unfolding scatter_hccl_op_base_test_def scatter_init_buf_val_def HcclScatter_def
    scatter_check_buf_result_def scatter_cal_execution_time_def
  by (rule stages | intro preserve_intros | simp)+

lemma acc_exchange [simp]:
  "acc B h r c (s\<lparr>sendCount := n\<rparr>) = acc B h r c s" "acc B h r c (s\<lparr>recvCount := n\<rparr>) = acc B h r c s"
  by (auto simp: acc_def accounts_def host_ptrs_def)

lemma alltoall_accounts: "leads (accounts B) (acc B False False False) (alltoall_hccl_op_base_test A) (accounts B)"
  unfolding alltoall_hccl_op_base_test_def HcclAlltoAll_def
    alltoall_check_buf_result_def alltoall_cal_execution_time_def
  by (rule stages | intro preserve_intros | (auto split: if_splits)[1])+

subsection \<open>Nothing is lost\<close>

text \<open>
  Everything live is in \<open>B\<close> or remembered, and \<open>destory_alloc_buf\<close> has a result; if it succeeds,
  exactly \<open>B\<close> is left.
\<close>

definition releasable :: "nat set \<Rightarrow> api \<Rightarrow> 'a HcclOpBaseTest_scheme \<Rightarrow> bool" where
  "releasable B A t \<longleftrightarrow> accounts B t \<and>
     (\<exists>q u. destory_alloc_buf A t = Some (q, u) \<and> (q = 0 \<longrightarrow> host_ptrs u = [] \<and> dom (blocks u) = B))"

lemma leads_releasable:
  assumes "leads (accounts B) (acc B False False False) c (accounts B)" "accounts B s" "host_ptrs s = []"
    and "c s = Some (r, t)"
  shows "releasable B A t"
proof -
  have "acc B False False False s"
    using assms(2,3) by (auto simp: acc_def host_ptrs_def split: if_splits)
  with leadsD [OF assms(1) _ assms(4)] have "accounts B t" by blast
  then show ?thesis using destory_alloc_buf_spec [of B t A] unfolding releasable_def by blast
qed

text \<open>
  C2.  A test without heap arrays never loses a host buffer, whatever status it returns and wherever it
  stops: started without host buffers, every block that is live afterwards was live before or is one
  of the buffers the object remembers, and \<open>destory_alloc_buf\<close> releases those without freeing any
  block twice, so that exactly the blocks from before are left.
\<close>
theorem host_buffers_never_lost:
  assumes "accounts B s" "host_ptrs s = []" "accounts B s'" "host_ptrs s' = []"
  shows "(\<forall>test \<in> {allreduce_hccl_op_base_test A, reduce_hccl_op_base_test A, reducescatter_hccl_op_base_test A,
        brocast_hccl_op_base_test A, allgather_hccl_op_base_test A, scatter_hccl_op_base_test A}.
      \<forall>r t. test s = Some (r, t) \<longrightarrow> releasable B A t)
    \<and> (\<forall>r t. alltoall_hccl_op_base_test A s' = Some (r, t) \<longrightarrow> releasable B A t)"
  using assms
  by (auto dest: leads_releasable [OF allreduce_accounts] leads_releasable [OF reduce_accounts]
      leads_releasable [OF reducescatter_accounts] leads_releasable [OF brocast_accounts]
      leads_releasable [OF allgather_accounts] leads_releasable [OF scatter_accounts]
      leads_releasable [OF alltoall_accounts])

lemma new_tester_accounts: "accounts {} new_tester" "host_ptrs new_tester = []"
  by (simp_all add: accounts_def host_ptrs_def tester_defs)

lemma host_buffers_never_lost_witness:
  "\<exists>t. allreduce_hccl_op_base_test (broken_api 7) new_tester = Some (7, t) \<and> releasable {} (broken_api 7) t"
proof -
  obtain t where t: "allreduce_hccl_op_base_test (broken_api 7) new_tester = Some (7, t)"
    by (simp add: allreduce_hccl_op_base_test_def cmd_defs malloc_host_buf_def aclrtMallocHost_def invoke_def
        broken_api_def Let_def)
  let ?s' = "HcclOpBaseTest.extend new_tester (HcclOpBaseAlltoallTest.fields 0 0)"
  have "accounts {} ?s'" "host_ptrs ?s' = []"
    using new_tester_accounts by (simp_all add: accounts_def host_ptrs_def HcclOpBaseTest.extend_def)
  with host_buffers_never_lost [OF new_tester_accounts, of ?s' "broken_api 7"] t show ?thesis by blast
qed

end
