(* ===== verification/Exchange_Laws.thy ===== *)
theory Exchange_Laws
  imports Test_Programs
begin

text \<open>
  Laws of the all-to-all tests: the rounding of the element count, the pattern buffer and its
  exchange, and what becomes of the heap arrays when memory runs out.
\<close>

subsection \<open>The pattern buffer\<close>

definition pattern_byte :: "nat \<Rightarrow> u8" where "pattern_byte i = pattern ! (i mod 8)"

definition pattern_bytes :: "nat \<Rightarrow> mem" where "pattern_bytes n = map pattern_byte [0..<n]"

lemma length_pattern_bytes [simp]: "length (pattern_bytes n) = n"
  by (simp add: pattern_bytes_def)

lemma take_pattern: "n \<le> 8 \<Longrightarrow> take n pattern = pattern_bytes n"
proof -
  assume n: "n \<le> 8"
  have "length pattern = 8" by (simp add: pattern_def)
  then show ?thesis using n by (intro nth_equalityI) (simp_all add: pattern_bytes_def pattern_byte_def)
qed

lemma pattern_bytes_add: "8 dvd c \<Longrightarrow> pattern_bytes (c + k) = pattern_bytes c @ pattern_bytes k"
proof -
  assume "8 dvd c"
  then obtain q where c: "c = 8 * q" ..
  have "pattern_byte (c + i) = pattern_byte i" for i by (simp add: c pattern_byte_def)
  then have "map pattern_byte [c..<c + k] = map pattern_byte [0..<k]"
    by (intro nth_equalityI) simp_all
  then show ?thesis by (simp add: pattern_bytes_def upt_add_eq_append [of 0 c k, simplified])
qed

lemma memcpy_within:
  assumes "blocks s b = Some (Host, m)" "unat k \<le> c" "c + unat k \<le> length m"
  shows "aclrtMemcpy A (b, c) k (b, 0) k kind s =
    (let e = Acl (Memcpy (b, c) k (b, 0) k kind); r = status A (call_log s) e in
     if r = 0 then Some (0, logged e (set_block b (write_at c (take (unat k) m) m) s))
     else Some (r, logged e s))"
  using assms
  by (simp add: aclrtMemcpy_def invoke_def read_mem_def write_mem_def readable_def block_bytes_def Let_def)

text \<open>What the buffer at block \<open>b\<close> holds after the first \<open>c\<close> bytes of the pattern were written.\<close>

definition holds_pattern :: "nat \<Rightarrow> nat \<Rightarrow> mem \<Rightarrow> 'a world_scheme \<Rightarrow> bool" where
  "holds_pattern b c m s \<longleftrightarrow> blocks s b = Some (Host, pattern_bytes c @ drop c m)"

lemma write_pattern:
  assumes "8 dvd c" "k \<le> c" "c + k \<le> length m"
  shows "write_at c (take k (pattern_bytes c @ drop c m)) (pattern_bytes c @ drop c m) =
    pattern_bytes (c + k) @ drop (c + k) m"
proof -
  have "take k (pattern_bytes c) = pattern_bytes k"
    using assms(2) by (simp add: pattern_bytes_def take_map)
  then show ?thesis using assms by (simp add: write_at_def pattern_bytes_add add.commute)
qed

lemma set_block_holds:
  "blocks s b = Some (Host, m0) \<Longrightarrow> holds_pattern b c m (logged e (set_block b (pattern_bytes c @ drop c m) s))"
  by (simp add: holds_pattern_def set_block_def logged_def)

lemma double_copy_fills:
  assumes "unat n < 2 ^ 63" "unat n \<le> length m" "0 < unat copied" "8 dvd unat copied \<or> copied = n"
    "unat copied \<le> unat n" "holds_pattern b (unat copied) m s"
  shows "\<exists>r t. double_copy A (b, 0) n copied s = Some (r, t) \<and> (r = 0 \<longrightarrow> holds_pattern b (unat n) m t)"
  using assms
proof (induction "unat n - unat copied" arbitrary: copied s rule: less_induct)
  case less
  show ?case
  proof (cases "copied < n")
    case False
    then have "unat copied = unat n" using less.prems(5) by (simp add: word_less_nat_alt)
    then show ?thesis using False less.prems(6) by (simp add: double_copy.simps)
  next
    case True
    let ?c = "unat copied"
    define k where "k = (if copied + copied > n then n - copied else copied)"
    have lt: "?c < unat n" using True by (simp add: word_less_nat_alt)
    have dbl: "unat (copied + copied) = ?c + ?c" using less.prems(1) lt by (intro unat_add_small) simp
    have k: "unat k = (if ?c + ?c > unat n then unat n - ?c else ?c)"
      using lt dbl unat_sub_small [of copied n] True by (simp add: k_def word_less_nat_alt order_less_imp_le)
    then have k': "unat k \<le> ?c" "?c + unat k \<le> unat n" "0 < unat k" using lt less.prems(3) by auto
    have dvd: "8 dvd ?c" using less.prems(4) True by auto
    have next_c: "unat (copied + k) = ?c + unat k" using k' less.prems(1) by (intro unat_add_small) simp
    let ?e = "Acl (Memcpy (b, ?c) k (b, 0) k HOST_TO_HOST)"
    let ?t = "logged ?e (set_block b (pattern_bytes (?c + unat k) @ drop (?c + unat k) m) s)"
    have len: "?c + unat k \<le> length m" using k'(2) less.prems(2) by linarith
    have bl: "blocks s b = Some (Host, pattern_bytes ?c @ drop ?c m)" using less.prems(6) by (simp add: holds_pattern_def)
    have cp: "aclrtMemcpy A (b, ?c) k (b, 0) k HOST_TO_HOST s =
        (if status A (call_log s) ?e = 0 then Some (0, ?t) else Some (status A (call_log s) ?e, logged ?e s))"
      using memcpy_within [OF bl k'(1), of A HOST_TO_HOST] len write_pattern [OF dvd k'(1) len]
      by (simp add: Let_def)
    have step: "double_copy A (b, 0) n copied s =
        (if status A (call_log s) ?e = 0 then double_copy A (b, 0) n (copied + k) ?t
         else Some (status A (call_log s) ?e, logged ?e s))"
      by (simp only: double_copy.simps [of A "(b, 0)" n copied s] True if_True Let_def k_def [symmetric]
          ptr_add_def fst_conv snd_conv add_0 cp) simp
    have "8 dvd unat (copied + k) \<or> copied + k = n"
      using dvd next_c k by (auto simp: word_unat_eq_iff)
    then have "\<exists>r t. double_copy A (b, 0) n (copied + k) ?t = Some (r, t) \<and> (r = 0 \<longrightarrow> holds_pattern b (unat n) m t)"
      using less.hyps [of "copied + k" ?t] less.prems(1,2) k' next_c lt set_block_holds [OF bl] by simp
    then show ?thesis using step by auto
  qed
qed

lemma length_concat_replicate: "length (concat (replicate k xs)) = k * length xs"
  by (induction k) simp_all

lemma nth_concat_replicate: "i < k \<Longrightarrow> j < length xs \<Longrightarrow> concat (replicate k xs) ! (i * length xs + j) = xs ! j"
proof (induction k arbitrary: i)
  case (Suc k)
  then show ?case by (cases i) (simp_all add: nth_append)
qed simp

text \<open>Started on a live buffer with at least \<open>n\<close> bytes, the fill has a result, and if it succeeds the pattern.\<close>

lemma fill_pattern_total:
  assumes "blocks s b = Some (Host, m)" "unat n \<le> length m" "unat n < 2 ^ 63"
  shows "\<exists>r t. fill_alternating_pattern A (b, 0) n s = Some (r, t) \<and> (r = 0 \<longrightarrow> holds_pattern b (unat n) m t)"
proof -
  have copy: "\<exists>r t. copy_pattern A (b, 0) k s = Some (r, t) \<and> (r = 0 \<longrightarrow> holds_pattern b (unat k) m t)"
    if "unat k \<le> length m" "unat k \<le> 8" for k
  proof -
    let ?t = "set_block b (write_at 0 (take (unat k) pattern) m) s"
    have "length (take (unat k) pattern) = unat k" using that by (simp add: take_pattern)
    then have w: "write_mem (b, 0) (take (unat k) pattern) s = Some ?t"
      using that assms(1) by (simp add: write_mem_def readable_def block_bytes_def)
    have "write_at 0 (take (unat k) pattern) m = pattern_bytes (unat k) @ drop (unat k) m"
      using that by (simp add: write_at_def take_pattern)
    then have "holds_pattern b (unat k) m (logged c ?t)" for c
      using set_block_holds [OF assms(1), of "unat k" m c] by simp
    with w show ?thesis by (simp add: copy_pattern_def invoke_def Let_def)
  qed
  consider (none) "n = 0" | (short) "n \<noteq> 0" "\<not> 8 \<le> n" | (long) "8 \<le> n" by blast
  then show ?thesis
  proof cases
    case none
    then show ?thesis using assms(1) by (simp add: fill_alternating_pattern_def skip_def holds_pattern_def pattern_bytes_def)
  next
    case short
    then show ?thesis using copy [of n] assms(2) by (simp add: fill_alternating_pattern_def word_le_nat_alt)
  next
    case long
    then have l: "8 \<le> unat n" "n \<noteq> 0" by (auto simp: word_le_nat_alt)
    obtain r1 s1 where 1: "copy_pattern A (b, 0) 8 s = Some (r1, s1)" "r1 = 0 \<longrightarrow> holds_pattern b 8 m s1"
      using copy [of 8] l assms(2) by auto
    show ?thesis
    proof (cases "r1 = 0")
      case False
      then show ?thesis using 1 long l by (simp add: fill_alternating_pattern_def steps.simps)
    next
      case True
      then obtain r2 s2 where "double_copy A (b, 0) n 8 s1 = Some (r2, s2)" "r2 = 0 \<longrightarrow> holds_pattern b (unat n) m s2"
        using double_copy_fills [of n m 8 b s1 A] assms(2,3) l 1(2) by auto
      then show ?thesis using 1 True long l by (simp add: fill_alternating_pattern_def steps.simps)
    qed
  qed
qed

text \<open>
  C9.  \<open>fill_alternating_pattern\<close> on a live host buffer always ends without touching memory it does not
  own, whatever the copies return; if it succeeds, the first \<open>count\<close> bytes of the buffer are the
  repeated pattern and the bytes after them are as before.  And when every rank sends such a buffer
  and the exchange delivers block \<open>rank\<close> of the buffer of rank \<open>i\<close> as block \<open>i\<close>, the check of the
  alltoall test accepts what this rank received.
\<close>
theorem alltoall_pattern_accepted:
  assumes "blocks s b = Some (Host, m)" "unat n \<le> length m" "unat n < 2 ^ 63"
    and "0 < nRanks" "nRanks < 2147483648" "0 \<le> rank" "rank < nRanks" "unat n = nat nRanks * block"
  shows "\<exists>r t. fill_alternating_pattern A (b, 0) n s = Some (r, t)
    \<and> (r = 0 \<longrightarrow> blocks t b = Some (Host, map (\<lambda>i. pattern ! (i mod 8)) [0..<unat n] @ drop (unat n) m)
      \<and> hccl_alltoall_check_result
          (Some (concat (map (\<lambda>i. take block (drop (nat rank * block) (block_bytes t b))) [0..<nat nRanks])))
          n nRanks rank pattern = Some True)"
proof -
  obtain r t where t: "fill_alternating_pattern A (b, 0) n s = Some (r, t)" "r = 0 \<longrightarrow> holds_pattern b (unat n) m t"
    using fill_pattern_total [OF assms(1-3), of A] by blast
  define piece where "piece = take block (drop (nat rank * block) (pattern_bytes (unat n) @ drop (unat n) m))"
  let ?dst = "concat (replicate (nat nRanks) piece)"
  have "Suc (nat rank) * block \<le> nat nRanks * block" using assms(6,7) by (intro mult_le_mono1) simp
  then have le: "nat rank * block + block \<le> unat n" using assms(8) by simp
  then have len: "length piece = block" by (simp add: piece_def)
  have piece: "piece ! j = pattern ! ((nat rank * block + j) mod length pattern)" if "j < block" for j
    using that le by (simp add: piece_def nth_append pattern_bytes_def pattern_byte_def) (simp add: pattern_def)
  then have all: "(\<forall>i < nat nRanks. \<forall>j < block. ?dst ! (i * block + j) = pattern ! ((nat rank * block + j) mod length pattern)) = True"
    using nth_concat_replicate [of _ "nat nRanks" _ piece] len piece by simp
  have fits: "unat n \<le> length ?dst" "unat n div nat nRanks = block" "pattern \<noteq> []"
    using len assms(4,8) by (simp_all add: length_concat_replicate) (simp add: pattern_def)
  have "hccl_alltoall_check_result (Some ?dst) n nRanks rank pattern = Some True"
    using pattern_check_spec [OF assms(4-7) fits(1,3)] by (simp only: Let_def fits(2) all simp_thms)
  then have ok: "hccl_alltoall_check_result (Some (concat (map (\<lambda>i. piece) [0..<nat nRanks]))) n nRanks rank pattern = Some True"
    by (simp only: map_replicate_const length_upt diff_zero)
  show ?thesis
  proof (intro exI conjI impI)
    show "fill_alternating_pattern A (b, 0) n s = Some (r, t)" by (rule t)
    assume "r = 0"
    then have bl: "blocks t b = Some (Host, pattern_bytes (unat n) @ drop (unat n) m)"
      using t(2) by (simp only: holds_pattern_def simp_thms)
    then show "blocks t b = Some (Host, map (\<lambda>i. pattern ! (i mod 8)) [0..<unat n] @ drop (unat n) m)"
      by (simp only: pattern_bytes_def pattern_byte_def [abs_def])
    have "block_bytes t b = pattern_bytes (unat n) @ drop (unat n) m" using bl by (simp add: block_bytes_def)
    then show "hccl_alltoall_check_result
          (Some (concat (map (\<lambda>i. take block (drop (nat rank * block) (block_bytes t b))) [0..<nat nRanks])))
          n nRanks rank pattern = Some True"
      using ok by (simp only: piece_def)
  qed
qed

definition one_buffer :: HcclOpBaseTest where
  "one_buffer = new_tester\<lparr>blocks := [1 \<mapsto> (Host, [0, 0, 0, 0, 0, 0])]\<rparr>"

lemma alltoall_pattern_accepted_witness:
  "\<exists>t. fill_alternating_pattern (ideal_api (\<lambda>_ _. 0)) (1, 0) 4 one_buffer = Some (0, t)
     \<and> blocks t 1 = Some (Host, [0x5a, 0x5a, 0x5a, 0x5a, 0, 0])
     \<and> hccl_alltoall_check_result (Some [0x5a, 0x5a, 0x5a, 0x5a]) 4 2 1 pattern = Some True"
proof -
  let ?A = "ideal_api (\<lambda>_ _. 0)"
  have b: "blocks one_buffer 1 = Some (Host, [0, 0, 0, 0, 0, 0])" by (simp add: one_buffer_def)
  obtain r t where t: "fill_alternating_pattern ?A (1, 0) 4 one_buffer = Some (r, t)"
    "r = 0 \<longrightarrow> blocks t 1 = Some (Host, map (\<lambda>i. pattern ! (i mod 8)) [0..<4] @ drop 4 [0, 0, 0, 0, 0, 0])
      \<and> hccl_alltoall_check_result
          (Some (concat (map (\<lambda>i. take 2 (drop (nat 1 * 2) (block_bytes t 1))) [0..<nat 2]))) 4 2 1 pattern = Some True"
    using alltoall_pattern_accepted [OF b, of 4 2 1 2 ?A] by (auto simp del: upt_conv_Cons)
  have "fill_alternating_pattern ?A (1, 0) 4 one_buffer = Some (r, t) \<Longrightarrow> r = 0"
    by (auto simp: fill_alternating_pattern_def copy_pattern_def invoke_def ideal_api_def Let_def split: if_splits)
  with t have "r = 0" by blast
  moreover have "[0..<4] = [0, 1, 2, 3::nat]" "[0..<2] = [0, 1::nat]" by (simp_all add: upt_rec)
  ultimately show ?thesis using t by (auto simp: block_bytes_def pattern_def)
qed

subsection \<open>The element counts\<close>

lemma round_count_spec:
  assumes "a \<noteq> 0" "unat (count (data s)) + unat a \<le> 2 ^ 64"
  shows "\<exists>t. round_count a s = Some (count (data t) * type_size (data t), t)
    \<and> unat a dvd unat (count (data t)) \<and> unat (count (data s)) \<le> unat (count (data t))
    \<and> unat (count (data t)) < unat (count (data s)) + unat a \<and> type_size (data t) = type_size (data s)"
proof -
  let ?c = "count (data s)"
  have a: "0 < unat a" using assms(1) by (metis unat_0 unat_eq_0 neq0_conv)
  have d: "unat ((?c + a - 1) div a) = (unat ?c + unat a - 1) div unat a"
    by (rule unat_round_div [OF assms])
  have "unat ((?c + a - 1) div a) * unat a < 2 ^ 64"
    using round_up_nat(2) [OF a, of "unat ?c"] assms(2) unfolding d by linarith
  then have "unat ((?c + a - 1) div a * a) = (unat ?c + unat a - 1) div unat a * unat a"
    using unat_mult_small [of "(?c + a - 1) div a" a] by (simp add: d)
  then show ?thesis
    using round_up_nat [OF a, of "unat ?c"] assms(1) by (simp add: round_count_def Let_def)
qed

lemma ranks_nat: "0 \<le> rank_size s \<Longrightarrow> rank_size s < 2 ^ 31 \<Longrightarrow> unat (ranks s) = nat (rank_size s)"
  unfolding ranks_def by (intro unat_word_of_int_small) simp_all

text \<open>
  C28.  The three all-to-all tests round the element count up to a multiple of the number of ranks, so
  that every rank gets the same whole number of elements: the rounded count is at least the
  requested one and less than 128 elements per rank above it.
\<close>
theorem exchange_counts_divide:
  assumes "size_of \<in> {alltoall_init_malloc_Ksize_by_data, alltoallv_init_malloc_Ksize_by_data,
      alltoallvc_init_malloc_Ksize_by_data}"
    and "granularity s = 128" "1 \<le> rank_size s" "rank_size s < 2 ^ 31" "unat (count (data s)) \<le> 2 ^ 63"
  shows "\<exists>t. size_of s = Some (count (data t) * type_size (data t), t)
    \<and> nat (rank_size s) dvd unat (count (data t)) \<and> unat (count (data s)) \<le> unat (count (data t))
    \<and> unat (count (data t)) < unat (count (data s)) + 128 * nat (rank_size s)"
proof -
  have r: "unat (ranks s) = nat (rank_size s)" "nat (rank_size s) < 2 ^ 31" "0 < nat (rank_size s)"
    using assms(3,4) by (simp_all add: ranks_nat nat_less_iff)
  have g: "unat (ranks s * granularity s) = nat (rank_size s) * 128"
    using r by (simp add: assms(2) unat_mult_small)
  have rounds: "\<exists>t. round_count a s = Some (count (data t) * type_size (data t), t)
      \<and> nat (rank_size s) dvd unat (count (data t)) \<and> unat (count (data s)) \<le> unat (count (data t))
      \<and> unat (count (data t)) < unat (count (data s)) + 128 * nat (rank_size s)"
    if "a = ranks s * granularity s \<or> a = ranks s" for a
  proof -
    have u: "nat (rank_size s) dvd unat a" "unat a \<le> 128 * nat (rank_size s)" "0 < unat a" using that r g by auto
    then have "a \<noteq> 0" "unat (count (data s)) + unat a \<le> 2 ^ 64" using assms(5) r(2) by auto
    from round_count_spec [OF this] u show ?thesis by (auto dest: dvd_trans)
  qed
  have "\<exists>a. size_of s = round_count a s \<and> (a = ranks s * granularity s \<or> a = ranks s)"
    using assms(1) by (auto simp: alltoall_init_malloc_Ksize_by_data_def alltoallv_init_malloc_Ksize_by_data_def
        alltoallvc_init_malloc_Ksize_by_data_def)
  with rounds show ?thesis by auto
qed

lemma exchange_counts_divide_witness:
  "\<exists>t. alltoall_init_malloc_Ksize_by_data (new_tester\<lparr>rank_size := 3, data := zero_data\<lparr>count := 7\<rparr>\<rparr>) =
      Some (count (data t) * type_size (data t), t) \<and> 3 dvd unat (count (data t))"
proof -
  let ?s = "new_tester\<lparr>rank_size := 3, data := zero_data\<lparr>count := 7\<rparr>\<rparr>"
  have "granularity ?s = 128" by (simp add: tester_defs)
  from exchange_counts_divide [OF _ this, of alltoall_init_malloc_Ksize_by_data] show ?thesis by auto
qed

subsection \<open>When the heap runs out\<close>

text \<open>The first of two allocations succeeds and the second does not.\<close>

definition heap_runs_out :: "api \<Rightarrow> call list \<Rightarrow> u64 \<Rightarrow> u64 \<Rightarrow> bool" where
  "heap_runs_out A log n n' \<longleftrightarrow>
     status A log (Os (MallocHeap n)) = 0 \<and> status A (Os (MallocHeap n) # log) (Os (MallocHeap n')) \<noteq> 0"

lemmas heap_simps = cmd_defs malloc_def free_def release_def alloc_def logged_def Let_def heap_runs_out_def

text \<open>
  C27.  When the second of the two arrays of a \<open>V\<close> test cannot be allocated, the first one is freed but
  its pointer stays in the object; the allocation function still returns normally, and the function
  that frees the arrays after the test frees the first one again: a double free.
\<close>
theorem heap_arrays_freed_twice:
  assumes "0 < next_block s1" "heap_runs_out A (call_log s1) (array_bytes s1) (array_bytes s1)"
    and "0 < next_block s2" "heap_runs_out A (call_log s2) (array_bytes s2) (array_bytes s2)"
    and "0 < next_block s3" "heap_runs_out A (call_log s3) (array_bytes s3) (array_bytes s3)"
    and "0 < next_block s4" "s32_mul (rank_size s4) (rank_size s4) = Some m"
      "heap_runs_out A (call_log s4) (word_of_int m * 8) (array_bytes s4)"
  shows "(\<exists>t. malloc_send_buf A s1 = Some (0, t) \<and> free_send_buf t = None)
    \<and> (\<exists>t. malloc_recv_buf A s2 = Some (0, t) \<and> free_recv_buf t = None)
    \<and> (\<exists>t. malloc_send_recv_buf A s3 = Some (0, t) \<and> free_send_recv_buf t = None)
    \<and> (\<exists>t. vc_malloc_send_recv_buf A s4 = Some (0, t) \<and> vc_free_send_recv_buf t = None)"
proof (intro conjI)
  show "\<exists>t. malloc_send_buf A s1 = Some (0, t) \<and> free_send_buf t = None"
    using assms(1,2) by (simp add: malloc_send_buf_def free_send_buf_def array_bytes_def ranks_def heap_simps)
  show "\<exists>t. malloc_recv_buf A s2 = Some (0, t) \<and> free_recv_buf t = None"
    using assms(3,4) by (simp add: malloc_recv_buf_def free_recv_buf_def array_bytes_def ranks_def heap_simps)
  show "\<exists>t. malloc_send_recv_buf A s3 = Some (0, t) \<and> free_send_recv_buf t = None"
    using assms(5,6) by (simp add: malloc_send_recv_buf_def free_send_recv_buf_def array_bytes_def ranks_def heap_simps)
  show "\<exists>t. vc_malloc_send_recv_buf A s4 = Some (0, t) \<and> vc_free_send_recv_buf t = None"
    using assms(7-9) by (simp add: vc_malloc_send_recv_buf_def vc_free_send_recv_buf_def array_bytes_def ranks_def heap_simps)
qed

definition short_heap :: api where
  "short_heap = (ideal_api (\<lambda>_ _. 0))\<lparr>status := (\<lambda>log _. if log = [] then 0 else 1)\<rparr>"

lemma heap_arrays_freed_twice_witness:
  "\<exists>s t. malloc_send_buf short_heap (s :: HcclOpBaseReducescatterVTest) = Some (0, t) \<and> free_send_buf t = None"
proof -
  let ?p = "nullptr"
  let ?s1 = "HcclOpBaseTest.extend new_tester (HcclOpBaseReducescatterVTest.fields ?p ?p)"
  let ?s2 = "HcclOpBaseTest.extend new_tester (HcclOpBaseAllgatherVTest.fields ?p ?p)"
  let ?s3 = "HcclOpBaseTest.extend new_tester (HcclOpBaseAlltoallvTest.fields ?p ?p ?p ?p)"
  let ?s4 = "HcclOpBaseTest.extend new_tester (HcclOpBaseAlltoallvcTest.fields ?p ?p)"
  have o: "heap_runs_out short_heap [] n n'" for n n'
    by (simp add: heap_runs_out_def short_heap_def)
  have f: "0 < next_block ?s1" "call_log ?s1 = []" "0 < next_block ?s2" "call_log ?s2 = []" "0 < next_block ?s3"
    "call_log ?s3 = []" "0 < next_block ?s4" "call_log ?s4 = []" "s32_mul (rank_size ?s4) (rank_size ?s4) = Some 0"
    by (simp_all add: HcclOpBaseTest.extend_def tester_defs s32_mul_def in_s_def)
  from heap_arrays_freed_twice [of ?s1 short_heap ?s2 ?s3 ?s4 0] show ?thesis
    unfolding f using o f by blast
qed

end
