(* ===== verification/Exit_Status.thy ===== *)
theory Exit_Status
  imports Test_Programs
begin

text \<open>
  How failures travel from the collective calls to the exit status of the program.
\<close>

subsection \<open>The communicator\<close>

text \<open>
  C30.  Without \<open>-s\<close>, \<open>init_hcclComm\<close> discards what \<open>init_hcclComm_without_nslb\<close> returns: when the
  library fails to create the communicator it still returns success, with the handle that was
  there before, and the tests run on it.
\<close>
theorem init_hcclComm_ignores_failure:
  assumes "share_root_info A s = Some (0, s1)" "nslb_flag s1 \<noteq> 1" "accelerator_config s1 \<le> 0"
    and "status A (call_log s1) (Hccl (CommInitRootInfo (word_of_int (rank_size s1)) (comm_id s1)
          (word_of_int (rank_id s1)))) \<noteq> 0"
  shows "init_hcclComm_without_nslb A s1 \<noteq> Some (0, t)
    \<and> (\<exists>s2. init_hcclComm A s = Some (0, s2) \<and> hccl_comm s2 = hccl_comm s1)"
proof
  let ?c = "Hccl (CommInitRootInfo (word_of_int (rank_size s1)) (comm_id s1) (word_of_int (rank_id s1)))"
  have i: "init_hcclComm_without_nslb A s1 = Some (status A (call_log s1) ?c, logged ?c s1)"
    using assms(3,4) by (simp add: init_hcclComm_without_nslb_def CommInit_def cmd_defs call_value_def invoke_def Let_def)
  with assms(4) show "init_hcclComm_without_nslb A s1 \<noteq> Some (0, t)" by simp
  have "init_hcclComm A s = Some (0, logged ?c s1)"
    using assms(1,2) i by (simp add: init_hcclComm_def cmd_defs)
  then show "\<exists>s2. init_hcclComm A s = Some (0, s2) \<and> hccl_comm s2 = hccl_comm s1"
    by (simp add: logged_def)
qed

text \<open>An environment in which exactly the calls of \<open>bad\<close> fail, with status 7, for one process on one device.\<close>

definition failing_at :: "(call \<Rightarrow> bool) \<Rightarrow> api" where
  "failing_at bad = (ideal_api (mpi_values 1 0 1))\<lparr>status := (\<lambda>_ c. if bad c then 7 else 0)\<rparr>"

lemma init_hcclComm_ignores_failure_witness:
  "\<exists>s2. init_hcclComm (failing_at (\<lambda>c. c = Hccl (CommInitRootInfo 0 [] 0))) new_tester = Some (0, s2)"
proof -
  let ?A = "failing_at (\<lambda>c. c = Hccl (CommInitRootInfo 0 [] 0))"
  obtain s1 where s1: "share_root_info ?A new_tester = Some (0, s1)" "nslb_flag s1 \<noteq> 1" "accelerator_config s1 \<le> 0"
      "rank_size s1 = 0" "comm_id s1 = []" "rank_id s1 = 0"
    by (simp add: share_root_info_def cmd_defs call_def invoke_def failing_at_def ideal_api_def logged_def say_def
        print_def tester_defs Let_def)
  then have "status ?A (call_log s1) (Hccl (CommInitRootInfo (word_of_int (rank_size s1)) (comm_id s1)
      (word_of_int (rank_id s1)))) \<noteq> 0"
    by (simp add: failing_at_def)
  from init_hcclComm_ignores_failure [OF s1(1-3) this] show ?thesis by blast
qed

subsection \<open>The exit status\<close>

definition tear_down :: "api \<Rightarrow> 'a HcclTest_scheme cmd" where
  "tear_down A = steps [with_state (\<lambda>s. ignore (call A (Hccl (CommDestroy (hccl_comm s))))), destory_hcclComm A]"

lemma run_last [simp]:
  "(case x of None \<Rightarrow> None | Some (r, t) \<Rightarrow> if r = 0 then Some (0, t) else Some (r, t)) = (x :: (int \<times> 's) option)"
  "(case x of None \<Rightarrow> None | Some (r, t) \<Rightarrow> if r \<noteq> 0 then Some (r, t) else Some (0, t)) = (x :: (int \<times> 's) option)"
  by (auto split: option.split)

lemma steps_last [simp]: "steps [c] = c"
  by (rule ext) (auto simp: steps.simps split: option.split)

lemma start_test_plain:
  assumes "\<not> enable_zero_copy s1" "init_hcclComm A s1 = Some (0, s2)" "\<not> enable_zero_copy s2"
    and "opbase_test_by_data_size A V s2 = Some (q, s3)" "\<not> enable_zero_copy s3"
  shows "start_test A V s1 = tear_down A s3"
  using assms
  by (simp add: start_test_def run_communicator_def attempt_def cmd_defs error_reserve_lpcMemory_def
      error_destory_comm_def error_reserve_memAddress_def error_device_init_def tear_down_def
      call_def invoke_def logged_def Let_def)

text \<open>Everything \<open>run_test\<close> does before the test itself.\<close>

definition set_up :: "api \<Rightarrow> 'a HcclTest_scheme cmd" where
  "set_up A = steps [get_mpi_proc A, check_cmd_line, device_init A, get_env_resource A, set_env_resource A]"

lemma run_test_set_up:
  assumes "set_up A s = Some (0, s1)" "start_test A V s1 = Some (d, s2)"
  shows "run_test A V s = hccltesterr1 A s2"
proof -
  from assms(1) obtain a b c e where "get_mpi_proc A s = Some (0, a)" "check_cmd_line a = Some (0, b)"
      "device_init A b = Some (0, c)" "get_env_resource A c = Some (0, e)" "set_env_resource A e = Some (0, s1)"
    by (auto simp: set_up_def steps_ok)
  with assms(2) show ?thesis
    by (simp add: run_test_def attempt_def cmd_defs)
qed

text \<open>
  C13.  The exit status of a program says nothing about its test.  Once the set-up has succeeded and a
  communicator is there, the status \<open>q\<close> of all iterations is dropped: \<open>start_test\<close> returns what the
  clean-up returns, \<open>main\<close> in turn drops that and goes on to the release of the environment, whose
  status alone it returns.
\<close>
theorem test_status_ignored:
  assumes "set_up A s = Some (0, s1)" "\<not> enable_zero_copy s1"
    and "init_hcclComm A s1 = Some (0, s2)" "\<not> enable_zero_copy s2"
    and "opbase_test_by_data_size A V s2 = Some (q, s3)" "\<not> enable_zero_copy s3"
    and "tear_down A s3 = Some (d, s4)"
  shows "start_test A V s1 = Some (d, s4) \<and> run_test A V s = hccltesterr1 A s4"
proof -
  from start_test_plain [OF assms(2-6)] assms(7) have 1: "start_test A V s1 = Some (d, s4)" by simp
  from run_test_set_up [OF assms(1) this] 1 show ?thesis by simp
qed

definition no_memory :: api where
  "no_memory = failing_at (\<lambda>c. case c of Acl (Malloc n) \<Rightarrow> True | _ \<Rightarrow> False)"

definition tiny_tester :: HcclOpBaseTest where
  "tiny_tester = new_tester\<lparr>data_parsed_begin := 8, data_parsed_end := 8\<rparr>"

lemma attempt_skip:
  "attempt c f skip s = Some (0, t) \<longleftrightarrow> c s = Some (0, t) \<or> (\<exists>r u. c s = Some (r, u) \<and> r \<noteq> 0 \<and> f r u = Some (0, t))"
  by (auto simp: attempt_def skip_def split: option.split)

lemma set_device_sat_mode_ok:
  assumes "soc_name A = Some ''Ascend910B2''" "status A (call_log s) (Acl SetDeviceSatMode) = 0"
  shows "set_device_sat_mode A s = Some (0, logged (Acl SetDeviceSatMode) s)"
proof -
  have "sat_mode_needed ''Ascend910B2''"
    unfolding sat_mode_needed_def proper_extension by (simp add: strict_prefix_def)
  with assms show ?thesis
    by (simp add: set_device_sat_mode_def when_do_def call_def invoke_def)
qed

lemma set_up_tiny:
  "\<exists>s1. set_up no_memory tiny_tester = Some (0, s1) \<and> \<not> enable_zero_copy s1 \<and> nslb_flag s1 = 0 \<and> rank_id s1 = 0
     \<and> root_rank s1 = 0 \<and> accelerator_config s1 = 0 \<and> dtype s1 = dtype_value HCCL_DATA_TYPE_FP32
     \<and> min_bytes (data s1) = 8 \<and> max_bytes (data s1) = 8 \<and> profiling_flag s1 = 0"
proof -
  let ?A = no_memory
  have nm: "status ?A l c = (if (case c of Acl (Malloc n) \<Rightarrow> True | _ \<Rightarrow> False) then 7 else 0)"
    "soc_name ?A = Some ''Ascend910B2''" "getenv ?A v = None" for l c v
    by (simp_all add: no_memory_def failing_at_def ideal_api_def)
  have d: "delivered ?A l (Os MpiCommSize) = 1" "delivered ?A l (Os MpiCommRank) = 0"
    "delivered ?A l (Acl GetDeviceCount) = 1" for l
    by (simp_all add: no_memory_def failing_at_def ideal_api_def mpi_values_def)
  obtain a where a: "get_mpi_proc ?A tiny_tester = Some (0, a)"
    and fa: "a = tiny_tester\<lparr>call_log := call_log a, proc_size := 1, dev_count := 1, npus := 1, rank_size := 1\<rparr>"
    by (simp add: get_mpi_proc_def cmd_defs call_value_def invoke_def logged_def Let_def nm d
        tiny_tester_def tester_defs wrap_s_def c_mod_nonneg)
  then obtain la where a': "a = tiny_tester\<lparr>call_log := la, proc_size := 1, dev_count := 1, npus := 1, rank_size := 1\<rparr>"
    by blast
  have b: "check_cmd_line a = Some (0, a\<lparr>data := (data a)\<lparr>min_bytes := 8, max_bytes := 8, step_bytes := 1\<rparr>\<rparr>)"
    unfolding check_cmd_line_def check_data_count_def check_only_device_exec_time_def a'
    by (simp add: ok_stages set_step_def Let_def tiny_tester_def tester_defs)
  let ?b = "a\<lparr>data := (data a)\<lparr>min_bytes := 8, max_bytes := 8, step_bytes := 1\<rparr>\<rparr>"
  have fb: "\<not> enable_zero_copy ?b \<and> nslb_flag ?b = 0 \<and> rank_id ?b = 0
     \<and> root_rank ?b = 0 \<and> accelerator_config ?b = 0 \<and> dtype ?b = dtype_value HCCL_DATA_TYPE_FP32
     \<and> min_bytes (data ?b) = 8 \<and> max_bytes (data ?b) = 8 \<and> profiling_flag ?b = 0 \<and> only_device_exec_time ?b = 0"
    by (simp add: a' tiny_tester_def tester_defs)
  obtain c where c: "device_init ?A ?b = Some (0, c)"
    and fc: "\<not> enable_zero_copy c \<and> nslb_flag c = 0 \<and> rank_id c = 0
     \<and> root_rank c = 0 \<and> accelerator_config c = 0 \<and> dtype c = dtype_value HCCL_DATA_TYPE_FP32
     \<and> min_bytes (data c) = 8 \<and> max_bytes (data c) = 8 \<and> profiling_flag c = 0"
    using fb
    by (simp add: device_init_def ok_stages set_device_sat_mode_ok attempt_skip call_def call_value_def invoke_def logged_def Let_def nm)
  obtain e where e: "get_env_resource ?A c = Some (0, e)"
    and fe: "e = c\<lparr>hccl_buffsize := 200\<rparr>"
    using fc by (simp add: get_env_resource_def nm cmd_defs)
  obtain f where f: "set_env_resource ?A e = Some (0, f)"
    and ff: "f = e\<lparr>call_log := call_log f\<rparr>"
    by (simp add: set_env_resource_def nm call_def invoke_def logged_def Let_def)
  have "set_up ?A tiny_tester = Some (0, f)"
    using a b c e f by (simp add: set_up_def cmd_defs)
  moreover from ff fe obtain l where "f = c\<lparr>hccl_buffsize := 200, call_log := l\<rparr>" by blast
  ultimately show ?thesis using fc by simp
qed

lemma test_status_ignored_witness:
  "\<exists>s1 s2 (s3 :: HcclOpBaseTest) s4. opbase_test_by_data_size no_memory (allreduce_vtable no_memory) s2 = Some (7, s3)
     \<and> start_test no_memory (allreduce_vtable no_memory) s1 = Some (0, s4)
     \<and> run_test no_memory (allreduce_vtable no_memory) tiny_tester = hccltesterr1 no_memory s4"
proof -
  let ?A = no_memory
  let ?V = "allreduce_vtable no_memory"
  have nm: "status ?A l c = (if (case c of Acl (Malloc n) \<Rightarrow> True | _ \<Rightarrow> False) then 7 else 0)" for l c
    by (simp add: no_memory_def failing_at_def)
  obtain s1 where s1: "set_up ?A tiny_tester = Some (0, s1)" "\<not> enable_zero_copy s1" "nslb_flag s1 = 0"
      "rank_id s1 = 0" "root_rank s1 = 0" "accelerator_config s1 = 0" "dtype s1 = dtype_value HCCL_DATA_TYPE_FP32"
      "min_bytes (data s1) = 8" "max_bytes (data s1) = 8"
    using set_up_tiny by blast
  then obtain s2 where s2: "init_hcclComm ?A s1 = Some (0, s2)" "\<not> enable_zero_copy s2"
      "dtype s2 = dtype_value HCCL_DATA_TYPE_FP32" "data s2 = data s1"
    by (simp add: init_hcclComm_def share_root_info_def init_hcclComm_without_nslb_def CommInit_def
        cmd_defs call_def call_value_def invoke_def logged_def Let_def nm say_def print_def upd_comm_def
        del: dtype_value.simps)
  let ?s = "start_at_min s2"
  have d: "dtype ?s = dtype_value HCCL_DATA_TYPE_FP32" "\<not> enable_zero_copy ?s" "data_size (data ?s) = 8"
      "max_bytes (data ?s) = 8"
    using s2 s1 by (simp_all add: start_at_min_def)
  then have "\<exists>t. get_buff_size ?V ?s = Some ((8, 8), t) \<and> \<not> enable_zero_copy t"
    by (simp add: get_buff_size_def init_data_count_eq elem_width_def allreduce_vtable_def Let_def
        allreduce_init_malloc_Ksize_by_data_def allreduce_init_send_recv_size_by_data_def del: dtype_value.simps)
  then obtain s3 where b: "size_body ?A ?V ?s = Some (Some (Returned 7), s3)" "\<not> enable_zero_copy s3"
    by (auto simp: size_body_def prepare_zero_copy_def alloc_hccl_send_recv_buffer_def cmd_defs aclrtMalloc_def
        invoke_def nm Let_def logged_def)
  with d have "size_loop ?A ?V ?s = Some (Returned 7, s3)"
    by (subst size_loop.simps) simp
  then have q: "opbase_test_by_data_size ?A ?V s2 = Some (7, s3)"
    by (simp add: opbase_test_by_data_size_def)
  have "\<exists>s4. tear_down ?A s3 = Some (0, s4)"
    by (cases "only_device_exec_time s3 = 0")
      (simp_all add: tear_down_def destory_hcclComm_def cmd_defs call_def invoke_def logged_def Let_def nm)
  then obtain s4 where s4: "tear_down ?A s3 = Some (0, s4)" by blast
  from test_status_ignored [OF s1(1,2) s2(1,2) q b(2) s4] q show ?thesis by blast
qed

end
