(* ===== verification/Bench_Common.thy ===== *)
theory Bench_Common
  imports C_Library
begin

text \<open>
  What the two stand-alone benchmarks of \<open>benchmarks/\<close> share: how they end early, the loop over
  their command line, durations; the two functions of \<open>hccl_compat.cc\<close>; and the interface of a
  system of threads, whose invariants and progress are proved once.
\<close>

subsection \<open>The compatibility functions\<close>

definition HcclCheckLogLevel :: "int \<Rightarrow> int \<Rightarrow> int" where
  "HcclCheckLogLevel current_level target_level = (if current_level \<le> target_level then 1 else 0)"

definition IsErrorToWarn :: bool where "IsErrorToWarn = False"

subsection \<open>Early ends\<close>

text \<open>
  \<open>usage\<close> prints its lines after the given ones and exits with status 1; an exception that leaves
  \<open>main\<close> ends the program with \<open>std::terminate\<close>.
\<close>

datatype bench_exit = Usage "string list" | Uncaught string

text \<open>
  The \<open>for\<close> loop of \<open>parse_args\<close>: every option takes a value.  \<open>h\<close> is the chain of comparisons, it
  gives what the branch of an option does with its value.
\<close>

fun parse_loop ::
    "(string \<Rightarrow> (string \<Rightarrow> 'c \<Rightarrow> bench_exit + 'c) option) \<Rightarrow> string list \<Rightarrow> 'c \<Rightarrow> bench_exit + 'c" where
  "parse_loop h [] c = Inr c"
| "parse_loop h (arg # rest) c =
     (case h arg of
        None \<Rightarrow> Inl (Usage [])
      | Some branch \<Rightarrow>
          (case rest of
             [] \<Rightarrow> Inl (Usage [''Missing value for '' @ arg])
           | v # rest' \<Rightarrow>
               (case branch v c of Inl e \<Rightarrow> Inl e | Inr c' \<Rightarrow> parse_loop h rest' c')))"

text \<open>Branches that store a number; the exception of a failed conversion leaves \<open>parse_args\<close>.\<close>

definition int_option :: "(int \<Rightarrow> 'c \<Rightarrow> 'c) \<Rightarrow> string \<Rightarrow> 'c \<Rightarrow> bench_exit + 'c" where
  "int_option put v c = (case stoi v of None \<Rightarrow> Inl (Uncaught ''stoi'') | Some n \<Rightarrow> Inr (put n c))"

definition megabytes_option :: "(u64 \<Rightarrow> 'c \<Rightarrow> 'c) \<Rightarrow> string \<Rightarrow> 'c \<Rightarrow> bench_exit + 'c" where
  "megabytes_option put v c =
     (case stoull v of None \<Rightarrow> Inl (Uncaught ''stoull'') | Some n \<Rightarrow> Inr (put (n * 1024 * 1024) c))"

text \<open>The seconds, as a \<open>double\<close>, of a duration of the steady clock in nanoseconds.\<close>

definition seconds_of :: "int \<Rightarrow> u64" where
  "seconds_of ns = f64_div (f64_of_int ns) (f64_of_int 1000000000)"

text \<open>\<open>double(bytes) * double(iters) / seconds / 1e9\<close>.\<close>

definition bandwidth :: "u64 \<Rightarrow> int \<Rightarrow> u64 \<Rightarrow> u64" where
  "bandwidth nbytes n seconds =
     f64_div (f64_div (f64_mul (f64_of_int (uint nbytes)) (f64_of_int n)) seconds) (f64_of_int 1000000000)"

definition CPU_SETSIZE :: nat where "CPU_SETSIZE = 1024"

subsection \<open>Systems of threads\<close>

text \<open>An invariant of the steps holds in every state they reach.\<close>

locale invariant_system =
  fixes step :: "'s \<Rightarrow> 's \<Rightarrow> bool" and I :: "'s \<Rightarrow> bool"
  assumes keeps: "step s t \<Longrightarrow> I s \<Longrightarrow> I t"
begin

lemma reach: "step\<^sup>*\<^sup>* s t \<Longrightarrow> I s \<Longrightarrow> I t"
  by (induction rule: rtranclp_induct) (auto intro: keeps)

end

text \<open>
  Every step that changes the state uses up work, and a state that is not final has such a step:
  then waiting loops aside every run ends, in a final state.
\<close>

locale progressing_system = invariant_system +
  fixes final :: "'a \<Rightarrow> bool" and work :: "'a \<Rightarrow> nat"
  assumes uses: "I s \<Longrightarrow> step s t \<Longrightarrow> t \<noteq> s \<Longrightarrow> work t < work s"
    and moves: "I s \<Longrightarrow> \<not> final s \<Longrightarrow> \<exists>t. step s t \<and> t \<noteq> s"
begin

lemma finishes: "I s \<Longrightarrow> \<exists>t. step\<^sup>*\<^sup>* s t \<and> final t"
proof (induction "work s" arbitrary: s rule: less_induct)
  case less
  show ?case
  proof (cases "final s")
    case False
    with less.prems obtain t where t: "step s t" "t \<noteq> s" using moves by blast
    with less.prems have "work t < work s" "I t" using uses keeps by blast+
    with less.hyps obtain u where "step\<^sup>*\<^sup>* t u" "final u" by blast
    with t(1) show ?thesis by (meson converse_rtranclp_into_rtranclp)
  qed blast
qed

end

end
