(* ===== verification/Numa_Bench.thy ===== *)
theory Numa_Bench
  imports Bench_Common Byte_Memory
begin

text \<open>
  The program \<open>benchmarks/numa_memcpy_bench.cpp\<close>: threads pinned to the CPUs of the process copy
  slices of one buffer into another; a counter \<open>ready\<close> and a flag \<open>start\<close> separate the warm-up from
  the measured copies.  A step of a thread is one load, store or increment of an atomic, one copy, or
  one reading of the clock.  What a step leaves behind for other threads depends on the memory order
  of its atomic: the state keeps, with the order of the steps, the order that the C++ memory model
  promises between the copies and the readings (happens-before), and these are not the same.
\<close>

subsection \<open>Configuration\<close>

record NumaConfig =
  threads :: int
  bytes_per_thread :: u64
  numa_warmup_iters :: int
  numa_iters :: int

definition numa_default :: NumaConfig where
  "numa_default = \<lparr>threads = 24, bytes_per_thread = 256 * 1024 * 1024, numa_warmup_iters = 3, numa_iters = 10\<rparr>"

definition numa_option :: "string \<Rightarrow> (string \<Rightarrow> NumaConfig \<Rightarrow> bench_exit + NumaConfig) option" where
  "numa_option arg =
     (if arg = ''--threads'' then Some (int_option (\<lambda>n c. c\<lparr>threads := n\<rparr>))
      else if arg = ''--size-mb'' then Some (megabytes_option (\<lambda>n c. c\<lparr>bytes_per_thread := n\<rparr>))
      else if arg = ''--warmup'' then Some (int_option (\<lambda>n c. c\<lparr>numa_warmup_iters := n\<rparr>))
      else if arg = ''--iters'' then Some (int_option (\<lambda>n c. c\<lparr>numa_iters := n\<rparr>))
      else None)"

definition numa_parse_args :: "string list \<Rightarrow> bench_exit + NumaConfig" where
  "numa_parse_args argv = parse_loop numa_option argv numa_default"

subsection \<open>CPUs\<close>

text \<open>The argument is the mask \<open>sched_getaffinity\<close> delivers, or nothing when it fails.\<close>

definition current_allowed_cpus :: "(nat \<Rightarrow> bool) option \<Rightarrow> bench_exit + nat list" where
  "current_allowed_cpus affinity =
     (case affinity of
        None \<Rightarrow> Inl (Uncaught ''sched_getaffinity failed'')
      | Some cpu_set \<Rightarrow>
          (let cpus = filter cpu_set [0..<CPU_SETSIZE]
           in if cpus = [] then Inl (Uncaught ''No CPUs available in current affinity mask'') else Inr cpus))"

subsection \<open>Buffers\<close>

text \<open>The pointers of a \<open>WorkerState\<close>, as offsets into the two buffers.\<close>

record WorkerState =
  w_dst :: u64
  w_src :: u64
  w_bytes :: u64

definition total_bytes :: "NumaConfig \<Rightarrow> u64" where
  "total_bytes c = bytes_per_thread c * word_of_int (threads c)"

definition numa_workers :: "NumaConfig \<Rightarrow> WorkerState list" where
  "numa_workers c =
     map (\<lambda>tid. \<lparr>w_dst = of_nat tid * bytes_per_thread c, w_src = of_nat tid * bytes_per_thread c,
                 w_bytes = bytes_per_thread c\<rparr>) [0..<nat (threads c)]"

text \<open>\<open>std::memcpy(worker.dst, worker.src, worker.bytes)\<close>; out of the buffers it is undefined.\<close>

definition copy_slice :: "WorkerState \<Rightarrow> mem \<Rightarrow> mem \<Rightarrow> mem option" where
  "copy_slice w src dst =
     (let n = unat (w_bytes w) in
      if unat (w_src w) + n \<le> length src \<and> unat (w_dst w) + n \<le> length dst
      then Some (write_at (unat (w_dst w)) (take n (drop (unat (w_src w)) src)) dst) else None)"

subsection \<open>Threads\<close>

text \<open>
  Where a worker is, with the iterations it has done, and where the main thread is, with the
  number of threads created or joined.  \<open>Terminated\<close> is \<open>std::terminate\<close> (an exception leaves a
  thread or \<open>main\<close>), \<open>Undefined\<close> a copy out of the buffers.
\<close>

datatype worker_pc = Pinning | Warming nat | Waiting | Copying nat | Exited

datatype main_pc =
    Spawning nat | Awaiting | ReadingBegin | Starting | Joining nat | ReadingEnd | Finished
  | Terminated | Undefined

text \<open>What happened: the clock was read, or a worker made a copy.\<close>

datatype event = ClockBegin | ClockEnd | Warmup nat nat | Copied nat nat

text \<open>
  A view is the set of the events that happen before the next step of a thread.  An atomic carries
  a view to the thread that loads it: a store with release order puts the view of the storing thread
  there, a load with acquire order takes it, and a read-modify-write adds to what is there (it
  continues the release sequence).  Relaxed operations do neither.
\<close>

type_synonym view = "event set"

datatype memory_order = memory_order_relaxed | memory_order_acquire | memory_order_release

fun stored :: "memory_order \<Rightarrow> view \<Rightarrow> view" where
  "stored memory_order_release v = v"
| "stored _ v = {}"

fun loaded :: "memory_order \<Rightarrow> view \<Rightarrow> view \<Rightarrow> view" where
  "loaded memory_order_acquire carried v = v \<union> carried"
| "loaded _ carried v = v"

fun added :: "memory_order \<Rightarrow> view \<Rightarrow> view \<Rightarrow> view" where
  "added memory_order_release v carried = carried \<union> v"
| "added _ v carried = carried"

text \<open>
  \<open>events\<close> has the events in the order of the steps, \<open>happened_before e\<close> the events that happen
  before \<open>e\<close>; \<open>ready_view\<close> and \<open>start_view\<close> are what the two atomics carry.
\<close>

record bench =
  main_at :: main_pc
  workers_at :: "worker_pc list"
  ready :: int
  start :: bool
  dst_buffer :: mem
  events :: "event list"
  main_view :: view
  worker_view :: "nat \<Rightarrow> view"
  ready_view :: view
  start_view :: view
  happened_before :: "event \<Rightarrow> view"

record numa_env =
  config :: NumaConfig
  cpus :: "nat list"
  src_buffer :: mem
  pin_ok :: "nat \<Rightarrow> bool"
  spawn_ok :: "nat \<Rightarrow> bool"

definition at_worker :: "nat \<Rightarrow> worker_pc \<Rightarrow> bench \<Rightarrow> bench" where
  "at_worker tid p s = s\<lparr>workers_at := (workers_at s)[tid := p]\<rparr>"

definition log_event :: "event \<Rightarrow> view \<Rightarrow> bench \<Rightarrow> bench" where
  "log_event e v s = s\<lparr>events := events s @ [e], happened_before := (happened_before s)(e := v)\<rparr>"

definition worker_event :: "nat \<Rightarrow> event \<Rightarrow> bench \<Rightarrow> bench" where
  "worker_event tid e s =
     log_event e (worker_view s tid) (s\<lparr>worker_view := (worker_view s)(tid := insert e (worker_view s tid))\<rparr>)"

text \<open>\<open>steady_clock::now()\<close> of \<open>main\<close>.\<close>

definition read_clock :: "event \<Rightarrow> bench \<Rightarrow> bench" where
  "read_clock e s = log_event e (main_view s) (s\<lparr>main_view := insert e (main_view s)\<rparr>)"

definition worker_copy :: "numa_env \<Rightarrow> nat \<Rightarrow> event \<Rightarrow> worker_pc \<Rightarrow> bench \<Rightarrow> bench" where
  "worker_copy E tid e p s =
     (case copy_slice (numa_workers (config E) ! tid) (src_buffer E) (dst_buffer s) of
        None \<Rightarrow> s\<lparr>main_at := Undefined\<rparr>
      | Some d \<Rightarrow> worker_event tid e (at_worker tid p (s\<lparr>dst_buffer := d\<rparr>)))"

text \<open>
  \<open>ready.fetch_add(1, relaxed)\<close>; \<open>start.load(acquire)\<close> that reads \<open>true\<close> (the \<open>false\<close> of the start
  carries nothing); \<open>ready.load(relaxed)\<close>; \<open>start.store(true, release)\<close>.  The creation of a
  thread passes the view of \<open>main\<close> on to it, and joining it takes over its view.
\<close>

definition announce :: "nat \<Rightarrow> bench \<Rightarrow> bench" where
  "announce tid s =
     s\<lparr>ready := to_s32 (ready s + 1), ready_view := added memory_order_relaxed (worker_view s tid) (ready_view s)\<rparr>"

definition see_start :: "nat \<Rightarrow> bench \<Rightarrow> bench" where
  "see_start tid s =
     s\<lparr>worker_view := (worker_view s)(tid := loaded memory_order_acquire (start_view s) (worker_view s tid))\<rparr>"

definition see_ready :: "bench \<Rightarrow> bench" where
  "see_ready s = s\<lparr>main_view := loaded memory_order_relaxed (ready_view s) (main_view s)\<rparr>"

definition give_start :: "bench \<Rightarrow> bench" where
  "give_start s = s\<lparr>start := True, start_view := stored memory_order_release (main_view s)\<rparr>"

definition create_thread :: "nat \<Rightarrow> bench \<Rightarrow> bench" where
  "create_thread tid s =
     s\<lparr>workers_at := workers_at s @ [Pinning], worker_view := (worker_view s)(tid := main_view s)\<rparr>"

definition join_thread :: "nat \<Rightarrow> bench \<Rightarrow> bench" where
  "join_thread tid s = s\<lparr>main_view := main_view s \<union> worker_view s tid\<rparr>"

text \<open>The next step of the lambda of thread \<open>tid\<close>.\<close>

definition worker_step :: "numa_env \<Rightarrow> nat \<Rightarrow> bench \<Rightarrow> bench option" where
  "worker_step E tid s =
     (case workers_at s ! tid of
        Pinning \<Rightarrow>
          Some (if pin_ok E (cpus E ! (tid mod length (cpus E))) then at_worker tid (Warming 0) s
                else s\<lparr>main_at := Terminated\<rparr>)
      | Warming k \<Rightarrow>
          Some (if int k < numa_warmup_iters (config E) then worker_copy E tid (Warmup tid k) (Warming (Suc k)) s
                else at_worker tid Waiting (announce tid s))
      | Waiting \<Rightarrow> Some (if start s then at_worker tid (Copying 0) (see_start tid s) else s)
      | Copying k \<Rightarrow>
          Some (if int k < numa_iters (config E) then worker_copy E tid (Copied tid k) (Copying (Suc k)) s
                else at_worker tid Exited s)
      | Exited \<Rightarrow> None)"

text \<open>The next step of \<open>main\<close>, from the creation of the threads on.\<close>

definition main_step :: "numa_env \<Rightarrow> bench \<Rightarrow> bench option" where
  "main_step E s =
     (case main_at s of
        Spawning tid \<Rightarrow>
          Some (if int tid < threads (config E) then
                  (if spawn_ok E tid
                   then (create_thread tid s)\<lparr>main_at := Spawning (Suc tid)\<rparr>
                   else s\<lparr>main_at := Terminated\<rparr>)
                else s\<lparr>main_at := Awaiting\<rparr>)
      | Awaiting \<Rightarrow> Some (if ready s \<noteq> threads (config E) then s else (see_ready s)\<lparr>main_at := ReadingBegin\<rparr>)
      | ReadingBegin \<Rightarrow> Some (read_clock ClockBegin (s\<lparr>main_at := Starting\<rparr>))
      | Starting \<Rightarrow> Some ((give_start s)\<lparr>main_at := Joining 0\<rparr>)
      | Joining tid \<Rightarrow>
          (if tid < length (workers_at s)
           then (if workers_at s ! tid = Exited then Some ((join_thread tid s)\<lparr>main_at := Joining (Suc tid)\<rparr>) else None)
           else Some (s\<lparr>main_at := ReadingEnd\<rparr>))
      | ReadingEnd \<Rightarrow> Some (read_clock ClockEnd (s\<lparr>main_at := Finished\<rparr>))
      | _ \<Rightarrow> None)"

definition ended :: "bench \<Rightarrow> bool" where
  "ended s \<longleftrightarrow> main_at s \<in> {Finished, Terminated, Undefined}"

inductive numa_step :: "numa_env \<Rightarrow> bench \<Rightarrow> bench \<Rightarrow> bool" for E where
  main: "main_step E s = Some t \<Longrightarrow> numa_step E s t"
| worker: "\<not> ended s \<Longrightarrow> tid < length (workers_at s) \<Longrightarrow> worker_step E tid s = Some t \<Longrightarrow> numa_step E s t"

inductive_cases numa_stepE: "numa_step E s t"

text \<open>A schedule names the thread of each step: \<open>None\<close> is the main thread.\<close>

fun run_schedule :: "numa_env \<Rightarrow> nat option list \<Rightarrow> bench \<Rightarrow> bench option" where
  "run_schedule E [] s = Some s"
| "run_schedule E (x # xs) s =
     (case (case x of
              None \<Rightarrow> main_step E s
            | Some tid \<Rightarrow> if \<not> ended s \<and> tid < length (workers_at s) then worker_step E tid s else None) of
        None \<Rightarrow> None
      | Some t \<Rightarrow> run_schedule E xs t)"

lemmas effect_defs =
  at_worker_def log_event_def worker_event_def read_clock_def announce_def see_start_def see_ready_def
  give_start_def create_thread_def join_thread_def

lemma run_schedule_steps: "run_schedule E xs s = Some t \<Longrightarrow> (numa_step E)\<^sup>*\<^sup>* s t"
proof (induction xs arbitrary: s)
  case (Cons x xs)
  then obtain u where u: "numa_step E s u" "run_schedule E xs u = Some t"
    by (auto split: option.splits if_splits intro: numa_step.intros)
  with Cons.IH show ?case by (meson converse_rtranclp_into_rtranclp)
qed simp

subsection \<open>The main function\<close>

text \<open>
  The vectors: more than \<open>PTRDIFF_MAX\<close> elements are a \<open>length_error\<close>, as is the negative number of
  workers converted to \<open>size_t\<close>.  \<open>fits\<close> says whether memory is there.
\<close>

definition bench_start :: "mem \<Rightarrow> bench" where
  "bench_start dst =
     \<lparr>main_at = Spawning 0, workers_at = [], ready = 0, start = False, dst_buffer = dst, events = [],
      main_view = {}, worker_view = (\<lambda>_. {}), ready_view = {}, start_view = {}, happened_before = (\<lambda>_. {})\<rparr>"

definition numa_prepare ::
    "(u64 \<Rightarrow> bool) \<Rightarrow> (nat \<Rightarrow> bool) \<Rightarrow> (nat \<Rightarrow> bool) \<Rightarrow> nat list \<Rightarrow> NumaConfig \<Rightarrow> bench_exit + numa_env \<times> bench" where
  "numa_prepare fits pin spawn cs c =
     (let n = unat (total_bytes c) in
      if n \<ge> 2 ^ 63 then Inl (Uncaught ''cannot create std::vector larger than max_size()'')
      else if \<not> fits (total_bytes c) then Inl (Uncaught ''std::bad_alloc'')
      else if threads c < 0 then Inl (Uncaught ''cannot create std::vector larger than max_size()'')
      else Inr (\<lparr>config = c, cpus = cs, src_buffer = replicate n 0x5A, pin_ok = pin, spawn_ok = spawn\<rparr>,
                bench_start (replicate n 0)))"

definition numa_main ::
    "(nat \<Rightarrow> bool) option \<Rightarrow> (u64 \<Rightarrow> bool) \<Rightarrow> (nat \<Rightarrow> bool) \<Rightarrow> (nat \<Rightarrow> bool) \<Rightarrow> string list \<Rightarrow>
       bench_exit + numa_env \<times> bench" where
  "numa_main affinity fits pin spawn argv =
     (case numa_parse_args argv of
        Inl e \<Rightarrow> Inl e
      | Inr c \<Rightarrow> (case current_allowed_cpus affinity of Inl e \<Rightarrow> Inl e | Inr cs \<Rightarrow> numa_prepare fits pin spawn cs c))"

text \<open>The printed numbers; the argument is the difference of the two clock readings.\<close>

record numa_line =
  line_threads :: int
  line_bytes_per_thread :: u64
  line_iters :: int
  line_seconds :: u64
  line_bandwidth :: u64

definition numa_report :: "NumaConfig \<Rightarrow> int \<Rightarrow> numa_line" where
  "numa_report c ns =
     \<lparr>line_threads = threads c, line_bytes_per_thread = bytes_per_thread c, line_iters = numa_iters c,
      line_seconds = seconds_of ns, line_bandwidth = bandwidth (total_bytes c) (numa_iters c) (seconds_of ns)\<rparr>"

end
