(* ===== verification/Numa_Barrier.thy ===== *)
theory Numa_Barrier
  imports Numa_Bench
begin

text \<open>
  The barrier of \<open>numa_memcpy_bench.cpp\<close>: invariants of every interleaving of its threads, by
  induction over the steps, first of the counter, the flag and the program counters, then of the
  events of each thread, then of what happens before what.
\<close>

subsection \<open>A step of a worker, seen from the program counters\<close>

abbreviation warmups :: "numa_env \<Rightarrow> nat" where "warmups E \<equiv> nat (numa_warmup_iters (config E))"
abbreviation copies :: "numa_env \<Rightarrow> nat" where "copies E \<equiv> nat (numa_iters (config E))"
abbreviation crew :: "numa_env \<Rightarrow> nat" where "crew E \<equiv> nat (threads (config E))"

definition next_pc :: "numa_env \<Rightarrow> bool \<Rightarrow> worker_pc \<Rightarrow> worker_pc" where
  "next_pc E go p =
     (case p of
        Pinning \<Rightarrow> Warming 0
      | Warming k \<Rightarrow> if k < warmups E then Warming (Suc k) else Waiting
      | Waiting \<Rightarrow> if go then Copying 0 else Waiting
      | Copying k \<Rightarrow> if k < copies E then Copying (Suc k) else Exited
      | Exited \<Rightarrow> Exited)"

definition emitted :: "numa_env \<Rightarrow> nat \<Rightarrow> worker_pc \<Rightarrow> event list" where
  "emitted E tid p =
     (case p of
        Warming k \<Rightarrow> if k < warmups E then [Warmup tid k] else []
      | Copying k \<Rightarrow> if k < copies E then [Copied tid k] else []
      | _ \<Rightarrow> [])"

definition announced :: "worker_pc \<Rightarrow> bool" where
  "announced p \<longleftrightarrow> (case p of Pinning \<Rightarrow> False | Warming k \<Rightarrow> False | _ \<Rightarrow> True)"

definition leaves_main :: "numa_env \<Rightarrow> nat \<Rightarrow> bench \<Rightarrow> bench \<Rightarrow> bool" where
  "leaves_main E tid s t \<longleftrightarrow>
     (let p = workers_at s ! tid; q = next_pc E (start s) p; new = set (emitted E tid p);
          seen = (if p = Waiting \<and> start s then start_view s else {}) in
      p \<noteq> Exited \<and> main_at t = main_at s \<and> start t = start s \<and> workers_at t = (workers_at s)[tid := q]
      \<and> events t = events s @ emitted E tid p
      \<and> ready t = (if announced q \<and> \<not> announced p then to_s32 (ready s + 1) else ready s)
      \<and> main_view t = main_view s \<and> start_view t = start_view s
      \<and> worker_view t = (worker_view s)(tid := worker_view s tid \<union> seen \<union> new)
      \<and> happened_before t = (\<lambda>e. if e \<in> new then worker_view s tid else happened_before s e))"

lemma less_nat_iff: "k < nat n \<longleftrightarrow> int k < n"
  by auto

lemma worker_step_effect:
  assumes "worker_step E tid s = Some t"
  shows "t = s\<lparr>main_at := Terminated\<rparr> \<or> t = s\<lparr>main_at := Undefined\<rparr> \<or> leaves_main E tid s t"
  using assms list_update_id [of "workers_at s" tid]
  by (cases "workers_at s ! tid")
    (auto simp: worker_step_def leaves_main_def next_pc_def emitted_def announced_def effect_defs
      worker_copy_def Let_def less_nat_iff fun_eq_iff split: option.splits if_splits)

subsection \<open>Phases\<close>

text \<open>What the main thread knows of the workers at each of its points.\<close>

definition started :: "main_pc \<Rightarrow> bool" where
  "started m \<longleftrightarrow> (case m of Joining n \<Rightarrow> True | ReadingEnd \<Rightarrow> True | Finished \<Rightarrow> True | _ \<Rightarrow> False)"

definition timing :: "main_pc \<Rightarrow> bool" where
  "timing m \<longleftrightarrow> m = Starting \<or> started m"

definition joined :: "main_pc \<Rightarrow> nat \<Rightarrow> nat" where
  "joined m n = (case m of Joining k \<Rightarrow> k | ReadingEnd \<Rightarrow> n | Finished \<Rightarrow> n | _ \<Rightarrow> 0)"

definition created :: "numa_env \<Rightarrow> main_pc \<Rightarrow> nat" where
  "created E m = (case m of Spawning n \<Rightarrow> n | _ \<Rightarrow> crew E)"

definition worker_ok :: "numa_env \<Rightarrow> bool \<Rightarrow> worker_pc \<Rightarrow> bool" where
  "worker_ok E go p \<longleftrightarrow>
     (case p of
        Warming k \<Rightarrow> k \<le> warmups E
      | Copying k \<Rightarrow> go \<and> k \<le> copies E
      | Exited \<Rightarrow> go
      | _ \<Rightarrow> True)"

definition phases :: "numa_env \<Rightarrow> bench \<Rightarrow> bool" where
  "phases E s \<longleftrightarrow>
     length (workers_at s) = created E (main_at s) \<and> created E (main_at s) \<le> crew E \<and> crew E < 2 ^ 31
     \<and> 0 \<le> threads (config E)
     \<and> list_all (worker_ok E (start s)) (workers_at s)
     \<and> ready s = int (length (filter announced (workers_at s)))
     \<and> (start s \<longleftrightarrow> started (main_at s))
     \<and> (main_at s = ReadingBegin \<or> timing (main_at s) \<longrightarrow> list_all announced (workers_at s))
     \<and> joined (main_at s) (crew E) \<le> crew E
     \<and> list_all (\<lambda>p. p = Exited) (take (joined (main_at s) (crew E)) (workers_at s))"

definition orderly :: "numa_env \<Rightarrow> bench \<Rightarrow> bool" where
  "orderly E s \<longleftrightarrow> main_at s \<in> {Terminated, Undefined} \<or> phases E s"

lemmas phase_defs = phases_def created_def started_def timing_def joined_def

lemma length_filter_update:
  "i < length xs \<Longrightarrow>
     length (filter P (xs[i := y])) + (if P (xs ! i) then 1 else 0) = length (filter P xs) + (if P y then 1 else 0)"
proof (induction xs arbitrary: i)
  case (Cons x xs)
  then show ?case by (cases i) auto
qed simp

lemma list_all_update: "list_all P xs \<Longrightarrow> P y \<Longrightarrow> list_all P (xs[i := y])"
  using set_update_subset_insert [of xs i y] by (auto simp: list_all_iff)

lemma announced_next: "announced p \<Longrightarrow> announced (next_pc E go p)"
  by (cases p) (auto simp: announced_def next_pc_def)

lemma worker_ok_next: "worker_ok E go p \<Longrightarrow> worker_ok E go (next_pc E go p)"
  by (cases p) (auto simp: worker_ok_def next_pc_def)

lemma worker_ok_start: "worker_ok E False p \<Longrightarrow> worker_ok E True p"
  by (cases p) (auto simp: worker_ok_def)

lemma all_announced:
  assumes "length (filter announced ps) = length ps"
  shows "list_all announced ps"
  using assms by (metis list_all_iff filter_id_conv length_filter_less less_irrefl)

lemma leaves_main_phases:
  assumes "phases E s" "tid < length (workers_at s)" "leaves_main E tid s t"
  shows "phases E t"
proof -
  let ?p = "workers_at s ! tid" and ?q = "next_pc E (start s) (workers_at s ! tid)"
  have eff: "?p \<noteq> Exited" "main_at t = main_at s" "start t = start s" "workers_at t = (workers_at s)[tid := ?q]"
      "ready t = (if announced ?q \<and> \<not> announced ?p then to_s32 (ready s + 1) else ready s)"
    using assms(3) by (auto simp: leaves_main_def Let_def)
  have le: "length (filter announced (workers_at t)) \<le> length (workers_at t)" by (rule length_filter_le)
  have num: "length (filter announced (workers_at t)) + (if announced ?p then 1 else 0)
      = length (filter announced (workers_at s)) + (if announced ?q then 1 else 0)"
    unfolding eff(4) by (rule length_filter_update [OF assms(2)])
  have "to_s32 (ready s + 1) = ready s + 1" if "announced ?q" "\<not> announced ?p"
  proof -
    have "ready s + 1 = int (length (filter announced (workers_at t)))"
      using num that assms(1) by (simp add: phases_def)
    moreover have "length (workers_at t) < 2 ^ 31" using assms(1) eff(4) by (simp add: phases_def)
    then have "length (filter announced (workers_at t)) < 2 ^ 31" by (rule le_less_trans [OF le])
    ultimately show ?thesis by (intro wrap_s_id) (auto simp: in_s_def)
  qed
  then have r: "ready t = int (length (filter announced (workers_at t)))"
    using num eff(5) assms(1) announced_next [of ?p E "start s"] by (auto simp: phases_def split: if_splits)
  have all_ok: "list_all (worker_ok E (start s)) (workers_at s)" using assms(1) unfolding phases_def by blast
  with assms(2) have "worker_ok E (start s) ?p" by (simp add: list_all_length)
  then have ok: "list_all (worker_ok E (start t)) (workers_at t)"
    unfolding eff using all_ok by (intro list_all_update worker_ok_next)
  have an: "main_at s = ReadingBegin \<or> timing (main_at s) \<longrightarrow> list_all announced (workers_at t)"
    using assms(1,2) eff(4) by (auto simp: phases_def list_all_length nth_list_update announced_next)
  have "list_all (\<lambda>p. p = Exited) (take (joined (main_at s) (crew E)) (workers_at t))"
  proof (cases "tid < joined (main_at s) (crew E)")
    case True
    with assms(1,2) have "?p = Exited" by (auto simp: phases_def list_all_length)
    with eff(1) show ?thesis by simp
  next
    case False
    with assms(1) eff(4) show ?thesis by (simp add: phases_def)
  qed
  with r ok an assms(1) eff show ?thesis by (simp add: phases_def)
qed

lemma main_step_phases:
  assumes p: "phases E s" and st: "main_step E s = Some t"
  shows "orderly E t"
proof (cases "main_at s")
  case (Spawning n)
  then show ?thesis
    using assms by (auto simp: orderly_def main_step_def effect_defs phase_defs worker_ok_def announced_def split: if_splits)
next
  case Awaiting
  show ?thesis
  proof (cases "ready s = threads (config E)")
    case True
    with p Awaiting have "length (filter announced (workers_at s)) = length (workers_at s)"
      by (simp add: phases_def created_def)
    then have "list_all announced (workers_at s)" by (rule all_announced)
    with True assms Awaiting show ?thesis
      by (auto simp: orderly_def main_step_def effect_defs phase_defs)
  qed (use assms Awaiting in \<open>auto simp: orderly_def main_step_def effect_defs\<close>)
next
  case Starting
  have "list_all (worker_ok E True) (workers_at s)"
    using p Starting by (auto simp: phase_defs list_all_iff worker_ok_start)
  then show ?thesis
    using assms Starting by (auto simp: orderly_def main_step_def effect_defs phase_defs)
next
  case (Joining n)
  show ?thesis
  proof (cases "n < length (workers_at s)")
    case True
    with assms Joining show ?thesis
      by (auto simp: orderly_def main_step_def effect_defs phase_defs take_Suc_conv_app_nth split: if_splits)
  qed (use assms Joining in \<open>auto simp: orderly_def main_step_def effect_defs phase_defs\<close>)
qed (use assms in \<open>auto simp: orderly_def main_step_def effect_defs phase_defs\<close>)

lemma numa_step_orderly: "numa_step E s t \<Longrightarrow> orderly E s \<Longrightarrow> orderly E t"
proof (erule numa_stepE)
  assume "main_step E s = Some t" "orderly E s"
  moreover from this(1) have "main_at s \<notin> {Terminated, Undefined}" by (auto simp: main_step_def)
  ultimately show "orderly E t" using main_step_phases [of E s t] by (auto simp: orderly_def)
next
  fix tid assume "\<not> ended s" "tid < length (workers_at s)" "worker_step E tid s = Some t" "orderly E s"
  then show "orderly E t"
    using worker_step_effect [of E tid s t] leaves_main_phases [of E s tid t]
    by (auto simp: orderly_def ended_def)
qed

interpretation barrier: invariant_system "numa_step E" "orderly E" for E
  by unfold_locales (rule numa_step_orderly)

subsection \<open>The order of the copies\<close>

definition of_worker :: "nat \<Rightarrow> event \<Rightarrow> bool" where
  "of_worker tid e \<longleftrightarrow> (case e of Warmup t k \<Rightarrow> t = tid | Copied t k \<Rightarrow> t = tid | _ \<Rightarrow> False)"

definition is_clock :: "event \<Rightarrow> bool" where
  "is_clock e \<longleftrightarrow> e = ClockBegin \<or> e = ClockEnd"

text \<open>What a thread does in all, and what it has done at each of its points.\<close>

definition iterations :: "numa_env \<Rightarrow> nat \<Rightarrow> event list" where
  "iterations E tid = map (Warmup tid) [0..<warmups E] @ map (Copied tid) [0..<copies E]"

definition past :: "numa_env \<Rightarrow> nat \<Rightarrow> worker_pc \<Rightarrow> event list" where
  "past E tid p =
     (let warm = map (Warmup tid) [0..<warmups E] in
      case p of
        Pinning \<Rightarrow> []
      | Warming k \<Rightarrow> map (Warmup tid) [0..<k]
      | Waiting \<Rightarrow> warm
      | Copying k \<Rightarrow> warm @ map (Copied tid) [0..<k]
      | Exited \<Rightarrow> warm @ map (Copied tid) [0..<copies E])"

definition clock_readings :: "main_pc \<Rightarrow> event list" where
  "clock_readings m = (if m = Finished then [ClockBegin, ClockEnd] else if timing m then [ClockBegin] else [])"

definition in_order :: "numa_env \<Rightarrow> bench \<Rightarrow> bool" where
  "in_order E s \<longleftrightarrow>
     (\<forall>tid < length (workers_at s). filter (of_worker tid) (events s) = past E tid (workers_at s ! tid))
     \<and> (\<forall>tid \<ge> length (workers_at s). filter (of_worker tid) (events s) = [])
     \<and> filter is_clock (events s) = clock_readings (main_at s)"

definition accounted :: "numa_env \<Rightarrow> bench \<Rightarrow> bool" where
  "accounted E s \<longleftrightarrow> main_at s \<in> {Terminated, Undefined} \<or> phases E s \<and> in_order E s"

lemma emitted_of_worker:
  "filter (of_worker t) (emitted E tid p) = (if t = tid then emitted E tid p else [])"
  by (cases p) (auto simp: emitted_def of_worker_def)

lemma past_next: "worker_ok E go p \<Longrightarrow> past E tid (next_pc E go p) = past E tid p @ emitted E tid p"
  by (cases p) (auto simp: past_def next_pc_def emitted_def worker_ok_def Let_def le_less)

lemma emitted_no_clock: "filter is_clock (emitted E tid p) = []"
  by (cases p) (auto simp: emitted_def is_clock_def)

lemma leaves_main_in_order:
  assumes "phases E s" "in_order E s" "tid < length (workers_at s)" "leaves_main E tid s t"
  shows "in_order E t"
proof -
  let ?p = "workers_at s ! tid"
  have eff: "main_at t = main_at s" "workers_at t = (workers_at s)[tid := next_pc E (start s) ?p]"
      "events t = events s @ emitted E tid ?p"
    using assms(4) by (auto simp: leaves_main_def Let_def)
  have ok: "worker_ok E (start s) ?p"
    using assms(1,3) by (auto simp: phases_def list_all_length)
  show ?thesis
    using assms(2,3) unfolding in_order_def eff
    by (auto simp: nth_list_update emitted_of_worker emitted_no_clock past_next [OF ok])
qed

lemma main_step_in_order:
  assumes "phases E s" "in_order E s" "main_step E s = Some t" "main_at t \<notin> {Terminated, Undefined}"
  shows "in_order E t"
  using assms
  by (cases "main_at s")
    (auto simp: main_step_def in_order_def effect_defs clock_readings_def timing_def started_def of_worker_def
      is_clock_def nth_append past_def less_Suc_eq split: if_splits)

lemma numa_step_accounted: "numa_step E s t \<Longrightarrow> accounted E s \<Longrightarrow> accounted E t"
proof (erule numa_stepE)
  assume st: "main_step E s = Some t" and I: "accounted E s"
  then have "main_at s \<notin> {Terminated, Undefined}" by (auto simp: main_step_def)
  with I st show "accounted E t"
    using main_step_phases [of E s t] main_step_in_order [of E s t] by (auto simp: accounted_def orderly_def)
next
  fix tid assume "\<not> ended s" "tid < length (workers_at s)" "worker_step E tid s = Some t" "accounted E s"
  then show "accounted E t"
    using worker_step_effect [of E tid s t] leaves_main_phases [of E s tid t] leaves_main_in_order [of E s tid t]
    by (auto simp: accounted_def ended_def)
qed

interpretation history: invariant_system "numa_step E" "accounted E" for E
  by unfold_locales (rule numa_step_accounted)

subsection \<open>The start\<close>

lemma parse_loop_keeps:
  assumes "\<And>arg branch v c c'. h arg = Some branch \<Longrightarrow> branch v c = Inr c' \<Longrightarrow> P c \<Longrightarrow> P c'"
    and "parse_loop h argv c = Inr c'" "P c"
  shows "P c'"
  using assms
proof (induction h argv c rule: parse_loop.induct)
  case (2 h arg rest c)
  from "2.prems"(2) obtain branch v rest' c'' where 1: "h arg = Some branch" "rest = v # rest'"
      "branch v c = Inr c''" "parse_loop h rest' c'' = Inr c'"
    by (auto split: option.splits list.splits sum.splits)
  have "P c''" by (rule "2.prems"(1) [OF 1(1,3) "2.prems"(3)])
  with "2.IH" [OF 1(1-3) _ 1(4)] "2.prems"(1) show ?case by blast
qed simp

lemma numa_parse_args_threads: "numa_parse_args argv = Inr c \<Longrightarrow> in_s 32 (threads c)"
  unfolding numa_parse_args_def
  by (erule parse_loop_keeps [rotated])
    (auto simp: numa_option_def int_option_def megabytes_option_def stoi_def numa_default_def in_s_def Let_def
      split: if_splits option.splits)

lemma numa_main_start:
  assumes "numa_main affinity fits pin spawn argv = Inr (E, s)"
  shows "accounted E s \<and> 0 \<le> threads (config E) \<and> threads (config E) < 2 ^ 31
    \<and> numa_parse_args argv = Inr (config E) \<and> pin_ok E = pin \<and> spawn_ok E = spawn
    \<and> unat (total_bytes (config E)) < 2 ^ 63 \<and> src_buffer E = replicate (unat (total_bytes (config E))) 0x5A
    \<and> s = bench_start (replicate (unat (total_bytes (config E))) 0)"
proof -
  obtain c cs where c: "numa_parse_args argv = Inr c" "numa_prepare fits pin spawn cs c = Inr (E, s)"
    using assms by (auto simp: numa_main_def split: sum.splits)
  with numa_parse_args_threads [OF c(1)] show ?thesis
    by (auto simp: numa_prepare_def Let_def in_s_def accounted_def phase_defs in_order_def clock_readings_def bench_start_def not_le
        split: if_splits)
qed

definition short_run :: "string list" where
  "short_run = [''--threads'', ''2'', ''--size-mb'', ''0'', ''--warmup'', ''1'', ''--iters'', ''1'']"

definition short_schedule :: "nat option list" where
  "short_schedule = [None, Some 0, None, Some 0, None, Some 1, Some 0, Some 1, Some 1, None, None, None,
     Some 1, Some 0, Some 0, Some 1, Some 0, Some 1, None, None, None, None]"

lemma four_cpus: "\<exists>c cs. current_allowed_cpus (Some (\<lambda>cpu. cpu < 4)) = Inr (c # cs)"
proof -
  have "0 \<in> set (filter (\<lambda>cpu. cpu < 4) [0..<CPU_SETSIZE])" by (simp add: CPU_SETSIZE_def)
  then show ?thesis
    by (cases "filter (\<lambda>cpu. cpu < 4) [0..<CPU_SETSIZE]") (simp_all add: current_allowed_cpus_def)
qed

lemma short_run_start:
  "\<exists>E s0. numa_main (Some (\<lambda>cpu. cpu < 4)) (\<lambda>_. True) (\<lambda>_. True) (\<lambda>_. True) short_run = Inr (E, s0)
     \<and> config E = \<lparr>threads = 2, bytes_per_thread = 0, numa_warmup_iters = 1, numa_iters = 1\<rparr>
     \<and> src_buffer E = [] \<and> pin_ok E = (\<lambda>_. True) \<and> spawn_ok E = (\<lambda>_. True)
     \<and> s0 = bench_start []"
proof -
  have "numa_parse_args short_run =
      Inr \<lparr>threads = 2, bytes_per_thread = 0, numa_warmup_iters = 1, numa_iters = 1\<rparr>"
    by (simp add: numa_parse_args_def short_run_def numa_option_def int_option_def megabytes_option_def
        numa_default_def stoi_def stoull_def scan_int_def ord_def isspace_def isdigit_def digit_val_def in_s_def Let_def)
  with four_cpus show ?thesis
    by (auto simp: numa_main_def numa_prepare_def total_bytes_def)
qed

end
