(* ===== verification/Numa_Order.thy ===== *)
theory Numa_Order
  imports Numa_Barrier
begin

text \<open>
  The order that the atomics of \<open>numa_memcpy_bench.cpp\<close> give to the copies and the readings of the
  clock: the acquire and release of \<open>start\<close> puts every measured copy after the first reading,
  joining the threads puts it before the second, and the relaxed \<open>ready\<close> orders nothing.
\<close>

subsection \<open>What must have happened\<close>

definition needed :: "numa_env \<Rightarrow> event \<Rightarrow> event set" where
  "needed E e =
     (case e of
        Warmup tid k \<Rightarrow> Warmup tid ` {..<k}
      | Copied tid k \<Rightarrow> insert ClockBegin (Warmup tid ` {..<warmups E} \<union> Copied tid ` {..<k})
      | ClockBegin \<Rightarrow> {}
      | ClockEnd \<Rightarrow> insert ClockBegin (\<Union>tid < crew E. set (iterations E tid)))"

text \<open>What a thread at \<open>p\<close> must have in its view.\<close>

definition knows :: "numa_env \<Rightarrow> nat \<Rightarrow> worker_pc \<Rightarrow> view \<Rightarrow> bool" where
  "knows E tid p v \<longleftrightarrow>
     set (past E tid p) \<subseteq> v \<and> (case p of Copying k \<Rightarrow> ClockBegin \<in> v | Exited \<Rightarrow> ClockBegin \<in> v | _ \<Rightarrow> True)"

definition workers_know :: "numa_env \<Rightarrow> bench \<Rightarrow> bool" where
  "workers_know E s \<longleftrightarrow> (\<forall>tid < length (workers_at s). knows E tid (workers_at s ! tid) (worker_view s tid))"

definition covers_threads :: "numa_env \<Rightarrow> nat \<Rightarrow> view \<Rightarrow> bool" where
  "covers_threads E n v \<longleftrightarrow> (\<forall>tid < n. set (iterations E tid) \<subseteq> v)"

lemma covers_threads_simps [simp]:
  "covers_threads E 0 v"
  "covers_threads E n v \<Longrightarrow> covers_threads E n (insert e v)"
  "covers_threads E n v \<Longrightarrow> set (iterations E n) \<subseteq> w \<Longrightarrow> covers_threads E (Suc n) (v \<union> w)"
  by (auto simp: covers_threads_def less_Suc_eq)

definition main_knows :: "numa_env \<Rightarrow> bench \<Rightarrow> bool" where
  "main_knows E s \<longleftrightarrow>
     (if timing (main_at s) then ClockBegin \<in> main_view s else main_view s = {})
     \<and> (start s \<longrightarrow> ClockBegin \<in> start_view s)
     \<and> covers_threads E (joined (main_at s) (crew E)) (main_view s)"

definition events_know :: "numa_env \<Rightarrow> event list \<Rightarrow> (event \<Rightarrow> view) \<Rightarrow> bool" where
  "events_know E es h \<longleftrightarrow> h ClockBegin = {} \<and> (\<forall>e \<in> set es. needed E e \<subseteq> h e)"

definition synchronised :: "numa_env \<Rightarrow> bench \<Rightarrow> bool" where
  "synchronised E s \<longleftrightarrow>
     workers_know E s \<and> main_knows E s \<and> events_know E (events s) (happened_before s)"

lemma events_know_log:
  assumes "events_know E es h" "needed E e \<subseteq> v" "e = ClockBegin \<longrightarrow> v = {}"
  shows "events_know E (es @ [e]) (h(e := v))"
  using assms by (auto simp: events_know_def)

lemma past_Exited: "past E tid Exited = iterations E tid"
  by (simp add: past_def iterations_def)

lemma knows_start [simp]: "knows E tid Pinning v"
  by (simp add: knows_def past_def)

lemma emitted_needed: "knows E tid p v \<Longrightarrow> e \<in> set (emitted E tid p) \<Longrightarrow> needed E e \<subseteq> v"
  by (cases p) (auto simp: emitted_def needed_def knows_def past_def split: if_splits)

lemma emitted_not_begin: "ClockBegin \<notin> set (emitted E tid p)"
  by (cases p) (auto simp: emitted_def)

lemma knows_next:
  assumes "knows E tid p v" "worker_ok E go p" "go \<longrightarrow> ClockBegin \<in> sv"
  shows "knows E tid (next_pc E go p)
     (v \<union> (if p = Waiting \<and> go then sv else {}) \<union> set (emitted E tid p))"
  using assms(1,3) past_next [OF assms(2), of tid]
  by (cases p) (auto simp: knows_def next_pc_def split: if_splits)

subsection \<open>The steps keep it\<close>

lemma leaves_main_synchronised:
  assumes "phases E s" "synchronised E s" "tid < length (workers_at s)" "leaves_main E tid s t"
  shows "synchronised E t"
proof -
  let ?p = "workers_at s ! tid" and ?v = "worker_view s tid"
  let ?seen = "if ?p = Waiting \<and> start s then start_view s else {}"
  have eff: "main_at t = main_at s" "start t = start s" "workers_at t = (workers_at s)[tid := next_pc E (start s) ?p]"
      "events t = events s @ emitted E tid ?p" "main_view t = main_view s" "start_view t = start_view s"
      "worker_view t = (worker_view s)(tid := ?v \<union> ?seen \<union> set (emitted E tid ?p))"
      "happened_before t = (\<lambda>e. if e \<in> set (emitted E tid ?p) then ?v else happened_before s e)"
    using assms(4) by (auto simp: leaves_main_def Let_def)
  have ok: "worker_ok E (start s) ?p" using assms(1,3) by (auto simp: phases_def list_all_length)
  have k: "knows E tid ?p ?v" "start s \<longrightarrow> ClockBegin \<in> start_view s"
    using assms(2,3) by (auto simp: synchronised_def workers_know_def main_knows_def)
  have "knows E i (workers_at t ! i) (worker_view t i)" if "i < length (workers_at t)" for i
  proof (cases "i = tid")
    case True
    have "workers_at t ! i = next_pc E (start s) ?p" using True assms(3) by (simp add: eff(3))
    moreover have "worker_view t i = ?v \<union> ?seen \<union> set (emitted E tid ?p)" using True by (simp add: eff(7))
    ultimately show ?thesis using knows_next [OF k(1) ok k(2)] True by (simp only:)
  next
    case False
    with assms(2) that show ?thesis by (simp add: synchronised_def workers_know_def eff(3,7))
  qed
  then have "workers_know E t" by (simp add: workers_know_def)
  moreover have "main_knows E t"
    using assms(2) by (simp add: synchronised_def main_knows_def eff)
  moreover have "events_know E (events t) (happened_before t)"
    using assms(2) emitted_needed [OF k(1)] emitted_not_begin
    by (auto simp: synchronised_def events_know_def eff(4,8))
  ultimately show ?thesis by (simp add: synchronised_def)
qed

lemma joined_iterations:
  assumes "phases E s" "workers_know E s" "tid < length (workers_at s)" "workers_at s ! tid = Exited"
  shows "set (iterations E tid) \<subseteq> worker_view s tid"
  using assms(2-4) by (force simp: workers_know_def knows_def past_Exited)

lemma main_step_synchronised:
  assumes "phases E s" "synchronised E s" "main_step E s = Some t" "main_at t \<notin> {Terminated, Undefined}"
  shows "synchronised E t"
proof (cases "main_at s")
  case (Spawning n)
  with assms show ?thesis
    by (auto simp: main_step_def synchronised_def workers_know_def main_knows_def effect_defs timing_def started_def
        joined_def phases_def created_def nth_append less_Suc_eq split: if_splits)
next
  case (Joining n)
  with assms show ?thesis
    using joined_iterations [of E s n]
    by (auto simp: main_step_def synchronised_def workers_know_def main_knows_def effect_defs timing_def started_def
        joined_def phases_def created_def less_Suc_eq split: if_splits)
next
  case ReadingEnd
  have "needed E ClockEnd \<subseteq> main_view s"
    using assms(2) ReadingEnd
    by (auto simp: needed_def synchronised_def main_knows_def covers_threads_def timing_def started_def joined_def)
  with assms ReadingEnd show ?thesis
    by (auto simp: main_step_def synchronised_def workers_know_def main_knows_def effect_defs timing_def started_def
        joined_def events_know_log)
qed (use assms in \<open>auto simp: main_step_def synchronised_def workers_know_def main_knows_def effect_defs
       timing_def started_def joined_def needed_def events_know_log split: if_splits\<close>)

definition ordered :: "numa_env \<Rightarrow> bench \<Rightarrow> bool" where
  "ordered E s \<longleftrightarrow> main_at s \<in> {Terminated, Undefined} \<or> accounted E s \<and> synchronised E s"

lemma numa_step_ordered: "numa_step E s t \<Longrightarrow> ordered E s \<Longrightarrow> ordered E t"
proof (frule numa_step_accounted, goal_cases)
  case 1
  then show ?case by (auto simp: ordered_def accounted_def)
next
  case 2
  then show ?case
  proof (elim numa_stepE)
    assume st: "main_step E s = Some t" and I: "ordered E s" "accounted E t"
    then have "main_at s \<notin> {Terminated, Undefined}" by (auto simp: main_step_def)
    with I st show ?thesis
      using main_step_synchronised [of E s t] by (auto simp: ordered_def accounted_def)
  next
    fix tid assume "\<not> ended s" "tid < length (workers_at s)" "worker_step E tid s = Some t" "ordered E s" "accounted E t"
    then show ?thesis
      using worker_step_effect [of E tid s t] leaves_main_synchronised [of E s tid t]
      by (auto simp: ordered_def accounted_def ended_def)
  qed
qed

interpretation order_of_events: invariant_system "numa_step E" "ordered E" for E
  by unfold_locales (rule numa_step_ordered)

lemma numa_main_ordered:
  assumes "numa_main affinity fits pin spawn argv = Inr (E, s)"
  shows "ordered E s"
  using numa_main_start [OF assms]
  by (auto simp: ordered_def synchronised_def workers_know_def main_knows_def events_know_def bench_start_def timing_def
      started_def joined_def)

subsection \<open>Every reachable state\<close>

lemma past_prefix: "worker_ok E go p \<Longrightarrow> \<exists>k. past E tid p = take k (iterations E tid)"
proof (cases p)
  case (Warming k)
  assume "worker_ok E go p"
  with Warming have "past E tid p = take k (iterations E tid)"
    by (simp add: past_def iterations_def worker_ok_def take_map)
  then show ?thesis ..
next
  case (Copying k)
  assume "worker_ok E go p"
  with Copying have "past E tid p = take (warmups E + k) (iterations E tid)"
    by (simp add: past_def iterations_def worker_ok_def take_map)
  then show ?thesis ..
next
  case Waiting
  have "past E tid p = take (warmups E) (iterations E tid)" by (simp add: Waiting past_def iterations_def)
  then show ?thesis ..
next
  case Exited
  have "past E tid p = take (length (iterations E tid)) (iterations E tid)" by (simp add: Exited past_Exited)
  then show ?thesis ..
next
  case Pinning
  have "past E tid p = take 0 (iterations E tid)" by (simp add: Pinning past_def)
  then show ?thesis ..
qed

lemma announced_past: "announced p \<Longrightarrow> take (warmups E) (past E tid p) = map (Warmup tid) [0..<warmups E]"
  by (cases p) (auto simp: announced_def past_def)

text \<open>
  C5.  In every state that an interleaving of the threads reaches, unless the process was terminated
  or its behaviour is undefined: \<open>ready\<close> counts exactly the threads past their increment, and each
  of those has made all its warm-up copies; \<open>start\<close> is set exactly after the store of \<open>main\<close>; when
  \<open>main\<close> has left its waiting loop every thread is created and past its increment; and the copies of
  every thread are, in order, a prefix of its warm-up copies and then its measured ones.  By the
  memory orders of the atomics, the first reading of the clock happens before every measured copy,
  and so do the warm-up copies and earlier measured copies of the same thread; both readings and
  all copies of all threads happen before the second reading.  No copy happens before the first
  reading: the relaxed \<open>ready\<close> orders no warm-up copy before it.  When \<open>main\<close> has read the clock
  the second time, every thread has made all its copies.
\<close>
theorem numa_window:
  assumes "numa_main affinity fits pin spawn argv = Inr (E, s0)" "(numa_step E)\<^sup>*\<^sup>* s0 s"
    and "main_at s \<notin> {Terminated, Undefined}"
  shows "ready s = int (length (filter announced (workers_at s)))
    \<and> (\<forall>tid < length (workers_at s). announced (workers_at s ! tid) \<longrightarrow>
         take (warmups E) (filter (of_worker tid) (events s)) = map (Warmup tid) [0..<warmups E])
    \<and> (start s \<longleftrightarrow> (\<exists>n. main_at s = Joining n) \<or> main_at s \<in> {ReadingEnd, Finished})
    \<and> (start s \<or> main_at s \<in> {ReadingBegin, Starting} \<longrightarrow>
         length (workers_at s) = nat (threads (config E)) \<and> (\<forall>p \<in> set (workers_at s). announced p))
    \<and> (\<forall>tid < nat (threads (config E)). \<exists>k. filter (of_worker tid) (events s) = take k (iterations E tid))
    \<and> filter is_clock (events s) = clock_readings (main_at s)
    \<and> (\<forall>e \<in> set (events s). needed E e \<subseteq> happened_before s e)
    \<and> happened_before s ClockBegin = {}
    \<and> (main_at s = Finished \<longrightarrow>
         (\<forall>tid < nat (threads (config E)). filter (of_worker tid) (events s) = iterations E tid))"
proof -
  have "ordered E s" using order_of_events.reach [OF assms(2) numa_main_ordered [OF assms(1)]] .
  with assms(3) have I: "phases E s" "in_order E s" "synchronised E s"
    by (auto simp: ordered_def accounted_def)
  have own: "filter (of_worker tid) (events s) = past E tid (workers_at s ! tid)" if "tid < length (workers_at s)" for tid
    using I(2) that by (simp add: in_order_def)
  have "\<exists>k. filter (of_worker tid) (events s) = take k (iterations E tid)" for tid
  proof (cases "tid < length (workers_at s)")
    case True
    with I(1) have "worker_ok E (start s) (workers_at s ! tid)" by (auto simp: phases_def list_all_length)
    from past_prefix [OF this] show ?thesis by (simp add: own [OF True])
  next
    case False
    with I(2) have "filter (of_worker tid) (events s) = take 0 (iterations E tid)" by (simp add: in_order_def)
    then show ?thesis ..
  qed
  moreover have "filter (of_worker tid) (events s) = iterations E tid"
    if "main_at s = Finished" "tid < nat (threads (config E))" for tid
    using I(1) that own [of tid] by (simp add: phase_defs list_all_length past_Exited)
  moreover have "start s \<longleftrightarrow> (\<exists>n. main_at s = Joining n) \<or> main_at s \<in> {ReadingEnd, Finished}"
    using I(1) by (cases "main_at s") (simp_all add: phase_defs)
  moreover have "length (workers_at s) = nat (threads (config E)) \<and> (\<forall>p \<in> set (workers_at s). announced p)"
    if "start s \<or> main_at s \<in> {ReadingBegin, Starting}"
    using I(1) that by (cases "main_at s") (auto simp: phase_defs list_all_iff)
  ultimately show ?thesis
    using I own announced_past by (auto simp: phases_def in_order_def synchronised_def events_know_def)
qed

lemma numa_window_witness:
  "\<exists>E s0 s. numa_main (Some (\<lambda>cpu. cpu < 4)) (\<lambda>_. True) (\<lambda>_. True) (\<lambda>_. True) short_run = Inr (E, s0)
     \<and> (numa_step E)\<^sup>*\<^sup>* s0 s \<and> main_at s = Finished \<and> start s \<and> Copied 1 0 \<in> set (events s)
     \<and> ClockBegin \<in> happened_before s (Copied 1 0) \<and> Copied 1 0 \<in> happened_before s ClockEnd
     \<and> happened_before s ClockBegin = {}"
proof -
  obtain E s0 where start: "numa_main (Some (\<lambda>cpu. cpu < 4)) (\<lambda>_. True) (\<lambda>_. True) (\<lambda>_. True) short_run = Inr (E, s0)"
      "config E = \<lparr>threads = 2, bytes_per_thread = 0, numa_warmup_iters = 1, numa_iters = 1\<rparr>"
      "src_buffer E = []" "pin_ok E = (\<lambda>_. True)" "spawn_ok E = (\<lambda>_. True)" "s0 = bench_start []"
    using short_run_start by blast
  have "\<exists>s. run_schedule E short_schedule s0 = Some s \<and> main_at s = Finished \<and> Copied 1 0 \<in> set (events s)
      \<and> ClockEnd \<in> set (events s)"
    unfolding short_schedule_def start(6)
    by (simp add: start main_step_def worker_step_def ended_def effect_defs worker_copy_def bench_start_def
        copy_slice_def numa_workers_def wrap_s_def)
  then obtain s where s: "(numa_step E)\<^sup>*\<^sup>* s0 s" "main_at s = Finished" "Copied 1 0 \<in> set (events s)"
      "ClockEnd \<in> set (events s)"
    using run_schedule_steps by blast
  have w: "start s" "\<forall>e \<in> set (events s). needed E e \<subseteq> happened_before s e" "happened_before s ClockBegin = {}"
    using numa_window [OF start(1) s(1)] s(2) by simp_all
  have "needed E (Copied 1 0) \<subseteq> happened_before s (Copied 1 0)" "needed E ClockEnd \<subseteq> happened_before s ClockEnd"
    using w(2) s(3,4) by blast+
  moreover have "ClockBegin \<in> needed E (Copied 1 0)" "Copied 1 0 \<in> needed E ClockEnd"
    by (auto simp: needed_def iterations_def start(2))
  ultimately show ?thesis using start(1) s w by blast
qed

end
