(* ===== verification/Numa_Memory.thy ===== *)
theory Numa_Memory
  imports Numa_Barrier
begin

text \<open>
  The memory of \<open>numa_memcpy_bench.cpp\<close>: as long as the total size does not wrap, every copy stays in its slice.
\<close>

subsection \<open>Slices\<close>

definition slice_bytes :: "numa_env \<Rightarrow> nat" where
  "slice_bytes E = unat (bytes_per_thread (config E))"

text \<open>The slices fit: their total size is no more than \<open>size_t\<close> holds.\<close>

definition roomy :: "numa_env \<Rightarrow> bool" where
  "roomy E \<longleftrightarrow> crew E * slice_bytes E < 2 ^ 64 \<and> src_buffer E = replicate (crew E * slice_bytes E) 0x5A"

lemma worker_slice:
  assumes "tid < crew E"
  shows "numa_workers (config E) ! tid =
    \<lparr>w_dst = of_nat tid * bytes_per_thread (config E), w_src = of_nat tid * bytes_per_thread (config E),
     w_bytes = bytes_per_thread (config E)\<rparr>"
  using assms by (simp add: numa_workers_def)

lemma offset_exact:
  assumes "tid * slice_bytes E < 2 ^ 64"
  shows "unat (of_nat tid * bytes_per_thread (config E)) = tid * slice_bytes E"
proof -
  have "of_nat tid * bytes_per_thread (config E) = of_nat (tid * slice_bytes E)"
    by (simp add: slice_bytes_def)
  then show ?thesis using assms by (simp only: unat_of_nat take_bit_eq_mod) simp
qed

lemma total_exact:
  assumes "0 \<le> threads (config E)" "crew E * slice_bytes E < 2 ^ 64"
  shows "unat (total_bytes (config E)) = crew E * slice_bytes E"
proof -
  have "(word_of_int (threads (config E)) :: u64) = of_nat (crew E)" using assms(1) by simp
  then have "total_bytes (config E) = of_nat (crew E) * bytes_per_thread (config E)"
    by (simp add: total_bytes_def mult.commute)
  with offset_exact [of "crew E" E] assms(2) show ?thesis by simp
qed

lemma slice_end: "tid < crew E \<Longrightarrow> tid * slice_bytes E + slice_bytes E \<le> crew E * slice_bytes E"
  using mult_le_mono1 [of "Suc tid" "crew E" "slice_bytes E"] by simp

lemma copy_slice_fits:
  assumes "roomy E" "tid < crew E" "length dst = crew E * slice_bytes E"
  shows "copy_slice (numa_workers (config E) ! tid) (src_buffer E) dst =
    Some (write_at (tid * slice_bytes E) (replicate (slice_bytes E) 0x5A) dst)"
proof -
  have off: "unat (of_nat tid * bytes_per_thread (config E)) = tid * slice_bytes E"
    using assms(1) slice_end [OF assms(2)] by (intro offset_exact) (simp add: roomy_def)
  have "min (slice_bytes E) (crew E * slice_bytes E - tid * slice_bytes E) = slice_bytes E"
    using slice_end [OF assms(2)] by simp
  then show ?thesis
    using assms slice_end [OF assms(2)]
    by (simp add: copy_slice_def worker_slice Let_def off roomy_def slice_bytes_def [symmetric])
qed

lemma nth_write_at:
  "p + length bs \<le> length m \<Longrightarrow> i < length m \<Longrightarrow>
     write_at p bs m ! i = (if p \<le> i \<and> i < p + length bs then bs ! (i - p) else m ! i)"
  by (auto simp: write_at_def nth_append min_def not_less)

subsection \<open>What the copies leave\<close>

definition filled :: "numa_env \<Rightarrow> bench \<Rightarrow> bool" where
  "filled E s \<longleftrightarrow>
     length (dst_buffer s) = crew E * slice_bytes E
     \<and> (\<forall>tid < length (workers_at s). past E tid (workers_at s ! tid) \<noteq> [] \<longrightarrow>
          (\<forall>i < slice_bytes E. dst_buffer s ! (tid * slice_bytes E + i) = 0x5A))"

definition safe :: "numa_env \<Rightarrow> bench \<Rightarrow> bool" where
  "safe E s \<longleftrightarrow> accounted E s \<and> main_at s \<noteq> Undefined \<and> filled E s"

lemma past_start [simp]: "past E tid Pinning = []" "past E tid (Warming 0) = []"
  by (simp_all add: past_def)

lemma filled_main [simp]: "filled E (s\<lparr>main_at := m\<rparr>) = filled E s"
  by (simp add: filled_def)

lemma slice_index: "tid < crew E \<Longrightarrow> i < slice_bytes E \<Longrightarrow> tid * slice_bytes E + i < crew E * slice_bytes E"
  using slice_end [of tid E] by simp

lemma worker_step_filled:
  assumes "roomy E" "phases E s" "filled E s" "tid < length (workers_at s)" "worker_step E tid s = Some t"
  shows "main_at t \<in> {main_at s, Terminated} \<and> filled E t"
proof -
  let ?p = "workers_at s ! tid"
  have tid: "tid < crew E" using assms(2,4) by (simp add: phases_def)
  have len: "length (dst_buffer s) = crew E * slice_bytes E" using assms(3) by (simp add: filled_def)
  have copied: "main_at u \<in> {main_at s, Terminated} \<and> filled E u"
    if u: "u = worker_copy E tid e q s" for u e q
  proof -
    have u': "u = worker_event tid e (at_worker tid q (s\<lparr>dst_buffer :=
        write_at (tid * slice_bytes E) (replicate (slice_bytes E) 0x5A) (dst_buffer s)\<rparr>))"
      by (simp add: u worker_copy_def copy_slice_fits [OF assms(1) tid len])
    show ?thesis
      using assms(2-4) slice_end [OF tid] len unfolding u'
      by (auto simp: filled_def effect_defs nth_write_at nth_list_update slice_index phases_def)
  qed
  have quiet: "filled E (at_worker tid q u)"
    if "past E tid ?p = [] \<Longrightarrow> past E tid q = []" "workers_at u = workers_at s" "dst_buffer u = dst_buffer s" for q u
    using assms(3,4) that by (auto simp: filled_def at_worker_def nth_list_update)
  have ok: "worker_ok E (start s) ?p" using assms(2,4) by (auto simp: phases_def list_all_length)
  show ?thesis
  proof (cases ?p)
    case Pinning
    then show ?thesis
      using assms(5) quiet [of "Warming 0" s] assms(3)
      by (auto simp: worker_step_def at_worker_def split: if_splits)
  next
    case (Warming k)
    then have "past E tid ?p = past E tid Waiting" if "\<not> int k < numa_warmup_iters (config E)"
      using ok that by (simp add: past_def worker_ok_def le_less less_nat_iff)
    then show ?thesis
      using assms(5) Warming copied quiet [of Waiting "announce tid s"]
      by (auto simp: worker_step_def at_worker_def announce_def split: if_splits)
  next
    case Waiting
    then show ?thesis
      using assms(3,5) quiet [of "Copying 0" "see_start tid s"]
      by (auto simp: worker_step_def at_worker_def see_start_def past_def Let_def split: if_splits)
  next
    case (Copying k)
    then have "past E tid ?p = past E tid Exited" if "\<not> int k < numa_iters (config E)"
      using ok that by (simp add: past_def worker_ok_def le_less less_nat_iff)
    then show ?thesis
      using assms(5) Copying copied quiet [of Exited s]
      by (auto simp: worker_step_def at_worker_def split: if_splits)
  qed (use assms(5) in \<open>simp add: worker_step_def\<close>)
qed

lemma main_step_filled:
  assumes "filled E s" "main_step E s = Some t"
  shows "main_at t \<noteq> Undefined \<and> filled E t"
  using assms
  by (cases "main_at s")
    (auto simp: main_step_def filled_def effect_defs nth_append past_def less_Suc_eq split: if_splits)

lemma numa_step_safe:
  assumes "roomy E" "numa_step E s t" "safe E s"
  shows "safe E t"
proof -
  have acc: "accounted E t" using numa_step_accounted [OF assms(2)] assms(3) by (simp add: safe_def)
  from assms(2) show ?thesis
  proof (rule numa_stepE)
    assume "main_step E s = Some t"
    then show ?thesis using assms(3) acc main_step_filled [of E s t] by (auto simp: safe_def)
  next
    fix tid assume "\<not> ended s" and w: "tid < length (workers_at s)" "worker_step E tid s = Some t"
    with assms(3) have "phases E s" by (auto simp: safe_def accounted_def ended_def)
    from worker_step_filled [OF assms(1) this _ w] assms(3) acc show ?thesis by (auto simp: safe_def)
  qed
qed

interpretation memory: invariant_system "numa_step E" "\<lambda>s. roomy E \<longrightarrow> safe E s" for E
  by unfold_locales (auto intro: numa_step_safe)

end
