(* ===== verification/Numa_Finish.thy ===== *)
theory Numa_Finish
  imports Numa_Memory
begin

text \<open>
  The end of the runs of \<open>numa_memcpy_bench.cpp\<close>: without failures of the operating system every
  interleaving ends, and the copies stay in the buffers exactly when the total size does not wrap.
\<close>

subsection \<open>Work left\<close>

definition worker_work :: "numa_env \<Rightarrow> worker_pc \<Rightarrow> nat" where
  "worker_work E p =
     (case p of
        Pinning \<Rightarrow> warmups E + copies E + 5
      | Warming k \<Rightarrow> (warmups E - k) + copies E + 4
      | Waiting \<Rightarrow> copies E + 3
      | Copying k \<Rightarrow> (copies E - k) + 2
      | Exited \<Rightarrow> 0)"

definition main_work :: "numa_env \<Rightarrow> main_pc \<Rightarrow> nat" where
  "main_work E m =
     (case m of
        Spawning n \<Rightarrow> (crew E - n) * (warmups E + copies E + 6) + crew E + 10
      | Awaiting \<Rightarrow> crew E + 9
      | ReadingBegin \<Rightarrow> crew E + 8
      | Starting \<Rightarrow> crew E + 7
      | Joining n \<Rightarrow> (crew E - n) + 6
      | ReadingEnd \<Rightarrow> 5
      | _ \<Rightarrow> 0)"

definition work_left :: "numa_env \<Rightarrow> bench \<Rightarrow> nat" where
  "work_left E s = main_work E (main_at s) + sum_list (map (worker_work E) (workers_at s))"

lemma worker_work_next:
  assumes "worker_ok E go p" "next_pc E go p \<noteq> p"
  shows "worker_work E (next_pc E go p) < worker_work E p"
  using assms by (cases p) (auto simp: next_pc_def worker_work_def worker_ok_def split: if_splits)

lemma sum_list_update:
  "i < length xs \<Longrightarrow> sum_list (map f (xs[i := y])) + f (xs ! i) = sum_list (map f xs) + (f y :: nat)"
proof (induction xs arbitrary: i)
  case (Cons x xs)
  then show ?case by (cases i) auto
qed simp

lemma worker_stays:
  "worker_step E tid s = Some t \<Longrightarrow> next_pc E (start s) (workers_at s ! tid) = workers_at s ! tid \<Longrightarrow> t = s"
  by (cases "workers_at s ! tid") (auto simp: worker_step_def next_pc_def split: if_splits)

lemma halting_work: "\<not> ended s \<Longrightarrow> m \<in> {Terminated, Undefined} \<Longrightarrow> work_left E (s\<lparr>main_at := m\<rparr>) < work_left E s"
  by (cases "main_at s") (auto simp: work_left_def main_work_def ended_def)

lemma worker_step_work:
  assumes "phases E s" "\<not> ended s" "tid < length (workers_at s)" "worker_step E tid s = Some t" "t \<noteq> s"
  shows "work_left E t < work_left E s"
proof -
  let ?p = "workers_at s ! tid"
  have "list_all (worker_ok E (start s)) (workers_at s)" using assms(1) unfolding phases_def by blast
  with assms(3) have ok: "worker_ok E (start s) ?p" by (simp add: list_all_length)
  have "next_pc E (start s) ?p \<noteq> ?p" using worker_stays [OF assms(4)] assms(5) by blast
  note less = worker_work_next [OF ok this]
  from worker_step_effect [OF assms(4)] show ?thesis
  proof (elim disjE)
    assume "leaves_main E tid s t"
    then have "main_at t = main_at s" "workers_at t = (workers_at s)[tid := next_pc E (start s) ?p]"
      by (auto simp: leaves_main_def Let_def)
    then show ?thesis
      using sum_list_update [OF assms(3), of "worker_work E" "next_pc E (start s) ?p"] less
      by (simp add: work_left_def)
  qed (use halting_work [OF assms(2)] in auto)
qed

lemma main_step_work:
  assumes "phases E s" "main_step E s = Some t" "t \<noteq> s"
  shows "work_left E t < work_left E s"
proof (cases "main_at s")
  case (Spawning n)
  then have "n \<le> crew E" using assms(1) by (simp add: phase_defs)
  then show ?thesis
  proof (cases "n < crew E")
    case True
    then have "crew E - n = Suc (crew E - Suc n)" by simp
    with Spawning assms True show ?thesis
      by (auto simp: main_step_def effect_defs work_left_def main_work_def worker_work_def less_nat_iff split: if_splits)
  qed (use Spawning assms in \<open>auto simp: main_step_def work_left_def main_work_def less_nat_iff\<close>)
next
  case (Joining n)
  then have "length (workers_at s) = crew E" using assms(1) by (simp add: phase_defs)
  with Joining assms show ?thesis
    by (auto simp: main_step_def effect_defs work_left_def main_work_def split: if_splits)
qed (use assms in \<open>auto simp: main_step_def work_left_def main_work_def effect_defs split: if_splits\<close>)

lemma numa_step_work:
  assumes "accounted E s" "numa_step E s t" "t \<noteq> s"
  shows "work_left E t < work_left E s"
  using assms(2)
proof (rule numa_stepE)
  assume st: "main_step E s = Some t"
  then have "main_at s \<notin> {Terminated, Undefined}" by (auto simp: main_step_def)
  with assms(1) have "phases E s" by (auto simp: accounted_def)
  then show ?thesis by (rule main_step_work [OF _ st assms(3)])
next
  fix tid assume w: "\<not> ended s" "tid < length (workers_at s)" "worker_step E tid s = Some t"
  with assms(1) have "phases E s" by (auto simp: accounted_def ended_def)
  then show ?thesis by (rule worker_step_work [OF _ w assms(3)])
qed

subsection \<open>Some thread can always move\<close>

lemma worker_moves:
  assumes "\<not> ended s" "tid < length (workers_at s)" "next_pc E (start s) (workers_at s ! tid) \<noteq> workers_at s ! tid"
  shows "\<exists>t. numa_step E s t \<and> t \<noteq> s"
proof -
  let ?p = "workers_at s ! tid"
  have "?p \<noteq> Exited" using assms(3) by (auto simp: next_pc_def)
  then obtain t where t: "worker_step E tid s = Some t"
    by (cases ?p) (auto simp: worker_step_def)
  have "t \<noteq> s"
  proof
    assume "t = s"
    from worker_step_effect [OF t, unfolded \<open>t = s\<close>] consider "s = s\<lparr>main_at := Terminated\<rparr>" | "s = s\<lparr>main_at := Undefined\<rparr>"
      | "leaves_main E tid s s" by blast
    then show False
    proof cases
      case 3
      then have "workers_at s = (workers_at s)[tid := next_pc E (start s) ?p]" by (simp add: leaves_main_def Let_def)
      then have "?p = next_pc E (start s) ?p" using nth_list_update_eq [OF assms(2)] by metis
      with assms(3) show False by simp
    qed (use assms(1) in \<open>auto simp: ended_def dest: arg_cong [of _ _ main_at]\<close>)
  qed
  with t assms show ?thesis by (blast intro: numa_step.worker)
qed

lemma unannounced_next: "\<not> announced p \<Longrightarrow> next_pc E go p \<noteq> p"
  by (cases p) (auto simp: announced_def next_pc_def)

lemma announced_next_moves: "announced p \<Longrightarrow> p \<noteq> Exited \<Longrightarrow> next_pc E True p \<noteq> p"
  by (cases p) (auto simp: announced_def next_pc_def)

lemma main_moves: "main_step E s = Some t \<Longrightarrow> main_at t \<noteq> main_at s \<Longrightarrow> \<exists>t. numa_step E s t \<and> t \<noteq> s"
  using numa_step.main by blast

lemma some_step:
  assumes "accounted E s" "\<not> ended s"
  shows "\<exists>t. numa_step E s t \<and> t \<noteq> s"
proof -
  have ph: "phases E s" using assms by (auto simp: accounted_def ended_def)
  show ?thesis
  proof (cases "main_at s")
    case Awaiting
    show ?thesis
    proof (cases "ready s = threads (config E)")
      case False
      have "length (workers_at s) = crew E" "0 \<le> threads (config E)"
        "ready s = int (length (filter announced (workers_at s)))"
        using ph Awaiting by (auto simp: phase_defs)
      with False have "filter announced (workers_at s) \<noteq> workers_at s" by auto
      then obtain tid where "tid < length (workers_at s)" "\<not> announced (workers_at s ! tid)"
        by (auto simp: filter_id_conv in_set_conv_nth)
      with assms(2) show ?thesis by (intro worker_moves unannounced_next)
    qed (use Awaiting in \<open>auto intro!: main_moves simp: main_step_def\<close>)
  next
    case (Joining n)
    show ?thesis
    proof (cases "n < length (workers_at s) \<and> workers_at s ! n \<noteq> Exited")
      case True
      have "list_all announced (workers_at s)" "start s" using ph Joining by (auto simp: phase_defs)
      with True have "next_pc E (start s) (workers_at s ! n) \<noteq> workers_at s ! n"
        using announced_next_moves [of "workers_at s ! n" E] by (auto simp: list_all_length)
      with assms(2) True show ?thesis by (blast intro: worker_moves)
    qed (use Joining main_moves [of E s "if n < length (workers_at s) then (join_thread n s)\<lparr>main_at := Joining (Suc n)\<rparr>
         else s\<lparr>main_at := ReadingEnd\<rparr>"] in \<open>auto simp: main_step_def effect_defs split: if_splits\<close>)
  qed (use assms(2) in \<open>auto intro!: main_moves simp: main_step_def effect_defs ended_def split: if_splits\<close>)
qed

interpretation bench_runs: progressing_system "numa_step E" "accounted E" ended "work_left E" for E
  by unfold_locales (auto intro: numa_step_work some_step)

subsection \<open>The end of a run\<close>

lemma main_not_terminated:
  "main_step E s = Some t \<Longrightarrow> spawn_ok E = (\<lambda>_. True) \<Longrightarrow> main_at t \<noteq> Terminated"
  by (cases "main_at s") (auto simp: main_step_def effect_defs split: if_splits)

lemma worker_not_terminated:
  "worker_step E tid s = Some t \<Longrightarrow> pin_ok E = (\<lambda>_. True) \<Longrightarrow> main_at t \<in> {main_at s, Undefined}"
  by (cases "workers_at s ! tid")
    (auto simp: worker_step_def effect_defs worker_copy_def split: if_splits option.splits)

lemma never_terminated:
  assumes "numa_step E s t" "pin_ok E = (\<lambda>_. True)" "spawn_ok E = (\<lambda>_. True)" "main_at s \<noteq> Terminated"
  shows "main_at t \<noteq> Terminated"
  using assms(1)
  by (rule numa_stepE) (use assms(2-4) main_not_terminated worker_not_terminated in force)+

interpretation system_ok: invariant_system "numa_step E"
    "\<lambda>s. pin_ok E = (\<lambda>_. True) \<and> spawn_ok E = (\<lambda>_. True) \<longrightarrow> main_at s \<noteq> Terminated" for E
  by unfold_locales (auto dest: never_terminated)

lemma all_bytes_copied:
  assumes "phases E s" "filled E s" "main_at s = Finished" "0 < warmups E \<or> 0 < copies E" "roomy E"
  shows "dst_buffer s = src_buffer E"
proof -
  let ?n = "crew E * slice_bytes E"
  have "dst_buffer s ! i = 0x5A" if "i < ?n" for i
  proof -
    let ?tid = "i div slice_bytes E" and ?k = "i mod slice_bytes E"
    have "0 < slice_bytes E" using that by (cases "slice_bytes E = 0") simp_all
    have tid: "?tid < crew E" by (rule less_mult_imp_div_less [OF that])
    have k: "?k < slice_bytes E" using \<open>0 < slice_bytes E\<close> by (rule mod_less_divisor)
    have "length (workers_at s) = crew E" "list_all (\<lambda>p. p = Exited) (workers_at s)"
      using assms(1,3) by (auto simp: phase_defs)
    then have "workers_at s ! ?tid = Exited" "?tid < length (workers_at s)"
      using tid by (auto simp: list_all_length)
    moreover have "past E ?tid Exited \<noteq> []" using assms(4) by (auto simp: past_def)
    moreover have "past E j (workers_at s ! j) \<noteq> [] \<longrightarrow> (\<forall>i < slice_bytes E. dst_buffer s ! (j * slice_bytes E + i) = 0x5A)"
      if "j < length (workers_at s)" for j
      using assms(2) that by (simp add: filled_def)
    ultimately have "\<forall>i < slice_bytes E. dst_buffer s ! (?tid * slice_bytes E + i) = 0x5A" by simp
    from this [rule_format, OF k] show ?thesis by simp
  qed
  then show ?thesis
    using assms(2,5) by (intro nth_equalityI) (auto simp: filled_def roomy_def)
qed

lemma numa_main_safe:
  assumes "numa_main affinity fits pin spawn argv = Inr (E, s)"
    and "nat (threads (config E)) * unat (bytes_per_thread (config E)) < 2 ^ 64"
  shows "roomy E \<and> safe E s"
  using numa_main_start [OF assms(1)] assms(2) total_exact [of E]
  by (auto simp: roomy_def safe_def filled_def slice_bytes_def bench_start_def)

text \<open>
  C23.  When the operating system lets every thread be created and pinned, and the total size does not
  wrap, every run of the program ends: from every state that it can reach, \<open>main\<close> can reach its
  end, and a step that is not one turn of a waiting loop uses up a bounded amount of work, so that
  a run is infinite only if it turns in the waiting loops for ever.  When \<open>main\<close> ends after at
  least one copy, the destination holds the bytes of the source.
\<close>
theorem numa_finishes:
  assumes "numa_main affinity fits (\<lambda>_. True) (\<lambda>_. True) argv = Inr (E, s0)"
    and "nat (threads (config E)) * unat (bytes_per_thread (config E)) < 2 ^ 64"
    and "(numa_step E)\<^sup>*\<^sup>* s0 s"
  shows "(\<exists>t. (numa_step E)\<^sup>*\<^sup>* s t \<and> main_at t = Finished)
    \<and> (\<forall>t. numa_step E s t \<longrightarrow> t = s \<or> work_left E t < work_left E s)
    \<and> (main_at s = Finished \<and> (0 < numa_warmup_iters (config E) \<or> 0 < numa_iters (config E)) \<longrightarrow>
         dst_buffer s = src_buffer E)"
proof (intro conjI)
  note start = numa_main_start [OF assms(1)] and room = numa_main_safe [OF assms(1,2)]
  have acc: "accounted E s" using history.reach [OF assms(3)] start by blast
  obtain t where t: "(numa_step E)\<^sup>*\<^sup>* s t" "ended t" using bench_runs.finishes [OF acc] by blast
  then have run: "(numa_step E)\<^sup>*\<^sup>* s0 t" using assms(3) by simp
  have "safe E t" using memory.reach [OF run] room by blast
  moreover have "main_at t \<noteq> Terminated" using system_ok.reach [OF run] start by (auto simp: bench_start_def)
  ultimately show "\<exists>t. (numa_step E)\<^sup>*\<^sup>* s t \<and> main_at t = Finished"
    using t by (auto simp: safe_def ended_def)
  show "\<forall>t. numa_step E s t \<longrightarrow> t = s \<or> work_left E t < work_left E s"
    using numa_step_work [OF acc] by blast
  have "safe E s" using memory.reach [OF assms(3)] room by blast
  then show "main_at s = Finished \<and> (0 < numa_warmup_iters (config E) \<or> 0 < numa_iters (config E)) \<longrightarrow>
      dst_buffer s = src_buffer E"
    using all_bytes_copied [of E s] room by (auto simp: safe_def accounted_def)
qed

subsection \<open>A size that wraps\<close>

lemma spawned_state:
  assumes "main_at s = Spawning 0" "workers_at s = []" "spawn_ok E = (\<lambda>_. True)"
    "main_view s = {}" "worker_view s = (\<lambda>_. {})" "n \<le> crew E"
  shows "(numa_step E)\<^sup>*\<^sup>* s (s\<lparr>workers_at := replicate n Pinning, main_at := Spawning n\<rparr>)"
  using assms(6)
proof (induction n)
  case 0
  have "s\<lparr>workers_at := [], main_at := Spawning 0\<rparr> = s" using assms(1,2) by simp
  then show ?case by simp
next
  case (Suc n)
  have "numa_step E (s\<lparr>workers_at := replicate n Pinning, main_at := Spawning n\<rparr>)
      (s\<lparr>workers_at := replicate (Suc n) Pinning, main_at := Spawning (Suc n)\<rparr>)"
    using Suc.prems assms(3-5)
    by (intro numa_step.main) (simp add: main_step_def create_thread_def fun_upd_idem less_nat_iff [symmetric] replicate_append_same [symmetric])
  with Suc show ?case by (simp add: rtranclp.rtrancl_into_rtrancl)
qed

lemma copy_slice_leaves:
  assumes "tid < crew E" "tid * slice_bytes E < 2 ^ 64" "length (src_buffer E) < tid * slice_bytes E + slice_bytes E"
  shows "copy_slice (numa_workers (config E) ! tid) (src_buffer E) dst = None"
  using assms by (simp add: copy_slice_def worker_slice offset_exact slice_bytes_def [symmetric])

text \<open>
  C24.  Nothing checks that the product of the number of threads and the size per thread fits
  \<open>size_t\<close>.  With at least one warm-up iteration the program can copy out of its buffers
  exactly when it does not fit.
\<close>
theorem numa_size_unchecked:
  assumes "numa_main affinity fits (\<lambda>_. True) (\<lambda>_. True) argv = Inr (E, s0)" "0 < numa_warmup_iters (config E)"
  shows "(\<exists>s. (numa_step E)\<^sup>*\<^sup>* s0 s \<and> main_at s = Undefined)
    \<longleftrightarrow> 2 ^ 64 \<le> nat (threads (config E)) * unat (bytes_per_thread (config E))"
proof
  assume "\<exists>s. (numa_step E)\<^sup>*\<^sup>* s0 s \<and> main_at s = Undefined"
  then show "2 ^ 64 \<le> nat (threads (config E)) * unat (bytes_per_thread (config E))"
    using memory.reach numa_main_safe [OF assms(1)] by (fastforce simp: safe_def not_le)
next
  assume big: "2 ^ 64 \<le> nat (threads (config E)) * unat (bytes_per_thread (config E))"
  note start = numa_main_start [OF assms(1)]
  let ?B = "slice_bytes E" and ?L = "length (src_buffer E)"
  define tid where "tid = ?L div ?B"
  have L: "?L < 2 ^ 63" using start by simp
  have B: "0 < ?B" using big by (cases "?B = 0") (simp_all add: slice_bytes_def)
  have "?L < crew E * ?B" using L big by (simp add: slice_bytes_def)
  then have tid: "tid < crew E" unfolding tid_def by (rule less_mult_imp_div_less)
  have "tid * ?B \<le> ?L" "?L < tid * ?B + ?B"
    using dividend_less_times_div [OF B, of ?L] by (simp_all add: tid_def mult.commute)
  then have out: "copy_slice (numa_workers (config E) ! tid) (src_buffer E) dst = None" for dst
    using L tid by (intro copy_slice_leaves) simp_all
  let ?s1 = "s0\<lparr>workers_at := replicate (Suc tid) Pinning, main_at := Spawning (Suc tid)\<rparr>"
  let ?s2 = "at_worker tid (Warming 0) ?s1"
  have "(numa_step E)\<^sup>*\<^sup>* s0 ?s1" using start tid by (intro spawned_state) (auto simp: bench_start_def)
  moreover have "numa_step E ?s1 ?s2"
    using start by (intro numa_step.worker [of _ tid])
      (auto simp: bench_start_def worker_step_def ended_def nth_append simp del: replicate_Suc)
  moreover have "numa_step E ?s2 (?s2\<lparr>main_at := Undefined\<rparr>)"
    using assms(2) by (intro numa_step.worker [of _ tid])
      (simp_all add: worker_step_def ended_def at_worker_def worker_copy_def out del: replicate_Suc)
  ultimately have "(numa_step E)\<^sup>*\<^sup>* s0 (?s2\<lparr>main_at := Undefined\<rparr>)" by simp
  moreover have "main_at (?s2\<lparr>main_at := Undefined\<rparr>) = Undefined" by simp
  ultimately show "\<exists>s. (numa_step E)\<^sup>*\<^sup>* s0 s \<and> main_at s = Undefined" by blast
qed

definition wrapping_run :: "string list" where
  "wrapping_run = [''--threads'', ''2'', ''--size-mb'', ''8796093022208'']"

lemma numa_size_unchecked_witness:
  "\<exists>E s0 s. numa_main (Some (\<lambda>cpu. cpu < 4)) (\<lambda>_. True) (\<lambda>_. True) (\<lambda>_. True) wrapping_run = Inr (E, s0)
     \<and> (numa_step E)\<^sup>*\<^sup>* s0 s \<and> main_at s = Undefined"
proof -
  let ?c = "\<lparr>threads = 2, bytes_per_thread = 2 ^ 63, numa_warmup_iters = 3, numa_iters = 10\<rparr>"
  have "numa_parse_args wrapping_run = Inr ?c"
    by (simp add: numa_parse_args_def wrapping_run_def numa_option_def int_option_def megabytes_option_def
        numa_default_def stoi_def stoull_def scan_int_def ord_def isspace_def isdigit_def digit_val_def in_s_def Let_def)
  then obtain E s0 where start: "numa_main (Some (\<lambda>cpu. cpu < 4)) (\<lambda>_. True) (\<lambda>_. True) (\<lambda>_. True) wrapping_run = Inr (E, s0)"
      "config E = ?c"
    using four_cpus by (auto simp: numa_main_def numa_prepare_def total_bytes_def)
  then show ?thesis using numa_size_unchecked [OF start(1)] by simp
qed

lemma numa_finishes_witness:
  "\<exists>E s0 t. numa_main (Some (\<lambda>cpu. cpu < 4)) (\<lambda>_. True) (\<lambda>_. True) (\<lambda>_. True) short_run = Inr (E, s0)
     \<and> (numa_step E)\<^sup>*\<^sup>* s0 t \<and> main_at t = Finished"
proof -
  obtain E s0 where start: "numa_main (Some (\<lambda>cpu. cpu < 4)) (\<lambda>_. True) (\<lambda>_. True) (\<lambda>_. True) short_run = Inr (E, s0)"
      "config E = \<lparr>threads = 2, bytes_per_thread = 0, numa_warmup_iters = 1, numa_iters = 1\<rparr>"
    using short_run_start by blast
  with numa_finishes [OF start(1), of s0] show ?thesis by auto
qed

end
