(* ===== verification/Getopt.thy ===== *)
theory Getopt
  imports Cmd_Line
begin

text \<open>
  From the arguments of a test to its options: \<open>getopt_long\<close> of the C library with the option string
  and the table \<open>longopts\<close> of the program.  The table has no terminating entry: \<open>getopt_long\<close> stops at
  an entry whose name is exactly the one given, and otherwise, also for an abbreviation, reads past
  the end of the table, which is undefined.
\<close>

subsection \<open>The options of the program\<close>

definition shortopts :: string where
  "shortopts = ''o:d:b:e:i:f:r:n:w:c:p:z:a:s:t:h''"

text \<open>Name, whether an argument is required, and the value returned.\<close>

type_synonym long_opts = "(string \<times> bool \<times> char) list"

definition longopts :: long_opts where
  "longopts =
     [(''op'', True, CHR ''o''), (''datatype'', True, CHR ''d''), (''minbytes'', True, CHR ''b''),
      (''maxbytes'', True, CHR ''e''), (''stepbytes'', True, CHR ''i''), (''stepfactor'', True, CHR ''f''),
      (''root'', True, CHR ''r''), (''iters'', True, CHR ''n''), (''warmup_iters'', True, CHR ''w''),
      (''check'', True, CHR ''c''), (''npus'', True, CHR ''p''), (''help'', False, CHR ''h''),
      (''zero_copy'', True, CHR ''z''), (''nslb'', True, CHR ''s''), (''onlydevicetime'', True, CHR ''t'')]"

subsection \<open>The function of the C library\<close>

text \<open>Whether a letter takes an argument; nothing for a letter that is no option.\<close>

definition short_kind :: "string \<Rightarrow> char \<Rightarrow> bool option" where
  "short_kind shorts c =
     (if c = CHR '':'' then None
      else case dropWhile (\<lambda>x. x \<noteq> c) shorts of
             [] \<Rightarrow> None
           | x # xs \<Rightarrow> Some (take 1 xs = '':''))"

text \<open>
  A returned option with its argument.  A letter that is no option and an argument that is missing
  are returned as a question mark.
\<close>

type_synonym opt_arg = "char \<times> string"

definition bad_option :: opt_arg where "bad_option = (CHR ''?'', '''')"

text \<open>The letters after one dash; the arguments that follow; what is returned and what is left.\<close>

fun short_options :: "string \<Rightarrow> string \<Rightarrow> string list \<Rightarrow> opt_arg list \<times> string list" where
  "short_options shorts [] rest = ([], rest)"
| "short_options shorts (c # cs) rest =
     (case short_kind shorts c of
        None \<Rightarrow> apfst (Cons bad_option) (short_options shorts cs rest)
      | Some False \<Rightarrow> apfst (Cons (c, '''')) (short_options shorts cs rest)
      | Some True \<Rightarrow>
          (if cs \<noteq> [] then ([(c, cs)], rest)
           else case rest of [] \<Rightarrow> ([bad_option], []) | v # rest' \<Rightarrow> ([(c, v)], rest')))"

text \<open>The text after two dashes; nothing when the search leaves the table.\<close>

definition long_option :: "long_opts \<Rightarrow> string \<Rightarrow> string list \<Rightarrow> (opt_arg \<times> string list) option" where
  "long_option longs s rest =
     (let name = takeWhile (\<lambda>c. c \<noteq> CHR ''='') s; tail = dropWhile (\<lambda>c. c \<noteq> CHR ''='') s
      in map_option
           (\<lambda>(takes_arg, c).
              if tail \<noteq> [] then ((if takes_arg then (c, tl tail) else bad_option), rest)
              else if \<not> takes_arg then ((c, ''''), rest)
              else case rest of [] \<Rightarrow> (bad_option, []) | v # rest' \<Rightarrow> ((c, v), rest'))
           (map_of longs name))"

lemma short_options_shorter: "length (snd (short_options shorts cs rest)) \<le> length rest"
  by (induction shorts cs rest rule: short_options.induct) (auto split: option.split list.split bool.split)

lemma long_option_shorter: "long_option longs s rest = Some (p, rest') \<Longrightarrow> length rest' \<le> length rest"
  by (auto simp: long_option_def Let_def split: if_splits list.splits)

text \<open>
  The options of the successive calls until one returns -1, and the arguments that are left then;
  nothing in their place when a call is undefined.  Without \<open>POSIXLY_CORRECT\<close> the arguments that
  are not options are moved to the end; with it the first of them ends the options.
\<close>

function getopt_long :: "string \<Rightarrow> long_opts \<Rightarrow> bool \<Rightarrow> string list \<Rightarrow> opt_arg list \<times> string list option" where
  "getopt_long shorts longs posix [] = ([], Some [])"
| "getopt_long shorts longs posix (arg # rest) =
     (if arg = ''--'' then ([], Some rest)
      else if take 1 arg \<noteq> ''-'' \<or> arg = ''-'' then
        (if posix then ([], Some (arg # rest)) else apsnd (map_option (Cons arg)) (getopt_long shorts longs posix rest))
      else if take 2 arg = ''--'' then
        (case long_option longs (drop 2 arg) rest of
           None \<Rightarrow> ([], None)
         | Some (p, rest') \<Rightarrow> apfst (Cons p) (getopt_long shorts longs posix rest'))
      else (case short_options shorts (tl arg) rest of
              (ps, rest') \<Rightarrow> apfst (append ps) (getopt_long shorts longs posix rest')))"
  by pat_completeness auto
termination
proof (relation "measure (\<lambda>(_, _, _, args). length args)")
  show "((shorts, longs, posix, rest'), shorts, longs, posix, arg # rest) \<in> measure (\<lambda>(_, _, _, args). length args)"
    if "long_option longs (drop 2 arg) rest = Some x" "(p, rest') = x" for shorts longs and posix :: bool and arg rest x p rest'
    using long_option_shorter [of longs "drop 2 arg" rest p rest'] that by auto
  show "((shorts, longs, posix, rest'), shorts, longs, posix, arg # rest) \<in> measure (\<lambda>(_, _, _, args). length args)"
    if "(ps, rest') = short_options shorts (tl arg) rest" for shorts :: string and longs :: long_opts and posix :: bool and arg rest ps rest'
    using short_options_shorter [of shorts "tl arg" rest] that [symmetric] by simp
qed auto

subsection \<open>The command line\<close>

definition parse_argv :: "api \<Rightarrow> string list \<Rightarrow> 'a HcclTest_scheme cmd" where
  "parse_argv A argv =
     (case getopt_long shortopts longopts (getenv A ''POSIXLY_CORRECT'' \<noteq> None) argv of
        (opts, Some rest) \<Rightarrow> parse_cmd_line A opts rest
      | (opts, None) \<Rightarrow> steps (map (\<lambda>(opt, optarg). parse_opt A opt optarg) opts @ [\<lambda>_. None]))"

subsection \<open>Spellings\<close>

text \<open>The ways to write an option with its argument, and an argument that is no option.\<close>

datatype spelling =
    Attached char string
  | Separate char string
  | Assigned string string
  | Spaced string string
  | Operand string

fun written :: "spelling \<Rightarrow> string list" where
  "written (Attached c v) = [CHR ''-'' # c # v]"
| "written (Separate c v) = [[CHR ''-'', c], v]"
| "written (Assigned n v) = [''--'' @ n @ ''='' @ v]"
| "written (Spaced n v) = [''--'' @ n, v]"
| "written (Operand a) = [a]"

fun meant :: "long_opts \<Rightarrow> spelling \<Rightarrow> opt_arg list" where
  "meant longs (Attached c v) = [(c, v)]"
| "meant longs (Separate c v) = [(c, v)]"
| "meant longs (Assigned n v) = [(snd (the (map_of longs n)), v)]"
| "meant longs (Spaced n v) = [(snd (the (map_of longs n)), v)]"
| "meant longs (Operand a) = []"

fun operands :: "spelling \<Rightarrow> string list" where
  "operands (Operand a) = [a]"
| "operands _ = []"

definition takes_long :: "long_opts \<Rightarrow> string \<Rightarrow> bool" where
  "takes_long longs n \<longleftrightarrow> map_option fst (map_of longs n) = Some True"

fun well_spelled :: "string \<Rightarrow> long_opts \<Rightarrow> spelling \<Rightarrow> bool" where
  "well_spelled shorts longs (Attached c v) \<longleftrightarrow> short_kind shorts c = Some True \<and> v \<noteq> []"
| "well_spelled shorts longs (Separate c v) \<longleftrightarrow> short_kind shorts c = Some True"
| "well_spelled shorts longs (Assigned n v) \<longleftrightarrow> takes_long longs n"
| "well_spelled shorts longs (Spaced n v) \<longleftrightarrow> takes_long longs n"
| "well_spelled shorts longs (Operand a) \<longleftrightarrow> take 1 a \<noteq> ''-'' \<or> a = ''-''"

subsection \<open>What the tables must provide\<close>

locale option_tables =
  fixes shorts :: string and longs :: long_opts
  assumes no_dash: "short_kind shorts (CHR ''-'') = None"
    and named: "list_all (\<lambda>x. fst x \<noteq> [] \<and> CHR ''='' \<notin> set (fst x)) longs"
begin

lemma short_kind_dash: "short_kind shorts c = Some b \<Longrightarrow> c \<noteq> CHR ''-''"
  using no_dash by auto

lemma takes_long_name: "takes_long longs n \<Longrightarrow> n \<noteq> [] \<and> CHR ''='' \<notin> set n"
  using named by (fastforce simp: takes_long_def list_all_iff dest: map_of_SomeD)

lemma takes_long_entry: "takes_long longs n \<Longrightarrow> map_of longs n = Some (True, snd (the (map_of longs n)))"
  by (auto simp: takes_long_def)

lemma long_option_written:
  assumes "takes_long longs n"
  shows "long_option longs (n @ ''='' @ v) rest = Some ((snd (the (map_of longs n)), v), rest)"
    and "long_option longs n (v # rest) = Some ((snd (the (map_of longs n)), v), rest)"
proof -
  have n: "CHR ''='' \<notin> set n" using takes_long_name [OF assms] by blast
  show "long_option longs (n @ ''='' @ v) rest = Some ((snd (the (map_of longs n)), v), rest)"
    "long_option longs n (v # rest) = Some ((snd (the (map_of longs n)), v), rest)"
    using takes_long_entry [OF assms] by (auto simp: long_option_def split_beta Let_def cut_found [OF n] cut_missing [OF n])
qed

lemma getopt_written:
  assumes "well_spelled shorts longs i"
  shows "getopt_long shorts longs False (written i @ args) =
    apfst (append (meant longs i)) (apsnd (map_option (append (operands i))) (getopt_long shorts longs False args))"
proof -
  obtain ps r where g: "getopt_long shorts longs False args = (ps, r)" by (cases "getopt_long shorts longs False args")
  have r: "map_option (append []) r = r" by (cases r) simp_all
  show ?thesis
  proof (cases i)
    case (Assigned n v)
    then show ?thesis
      using assms long_option_written(1) [of n v args] takes_long_name [of n] by (auto simp: g r)
  next
    case (Spaced n v)
    then show ?thesis
      using assms long_option_written(2) [of n v args] takes_long_name [of n] by (auto simp: g r)
  qed (use assms in \<open>cases r; auto simp: g dest: short_kind_dash\<close>)+
qed

lemma getopt_spelled:
  assumes "list_all (well_spelled shorts longs) items"
  shows "getopt_long shorts longs False (concat (map written items)) =
    (concat (map (meant longs) items), Some (concat (map operands items)))"
  using assms by (induction items) (simp_all add: getopt_written del: getopt_long.simps(2))

end

interpretation tables: option_tables shortopts longopts
  by unfold_locales (simp_all add: short_kind_def shortopts_def longopts_def)

text \<open>
  C11.  The spelling of a command line does not matter.  Options with an argument may be written
  \<open>-cV\<close>, \<open>-c V\<close>, \<open>--name=V\<close> or \<open>--name V\<close>, with other arguments anywhere between them:
  \<open>parse_cmd_line\<close> sees the letters with their arguments in this order, and the other arguments at
  the end.  Every letter that takes an argument has exactly one long name, except \<open>a\<close>, which has
  none although the help text names it \<open>--accelerator\<close>.
\<close>
theorem parse_argv_spelled:
  assumes "list_all (well_spelled shortopts longopts) items" "getenv A ''POSIXLY_CORRECT'' = None"
  shows "parse_argv A (concat (map written items)) s =
      parse_cmd_line A (concat (map (meant longopts) items)) (concat (map operands items)) s
    \<and> (\<forall>c. short_kind shortopts c = Some True \<longleftrightarrow> c = CHR ''a'' \<or> (True, c) \<in> set (map snd longopts))
    \<and> CHR ''a'' \<notin> set (map (snd \<circ> snd) longopts) \<and> distinct (map (snd \<circ> snd) longopts)"
proof (intro conjI allI)
  show "parse_argv A (concat (map written items)) s =
      parse_cmd_line A (concat (map (meant longopts) items)) (concat (map operands items)) s"
    using assms by (simp add: parse_argv_def tables.getopt_spelled)
  show "short_kind shortopts c = Some True \<longleftrightarrow> c = CHR ''a'' \<or> (True, c) \<in> set (map snd longopts)" for c
    unfolding short_kind_def shortopts_def longopts_def by simp
qed (simp_all add: longopts_def)

lemma parse_argv_spelled_witness:
  "parse_argv (ideal_api (\<lambda>_ _. 0)) [''--op=sum'', ''x'', ''-b'', ''8'', ''-e64M'', ''--iters'', ''5''] new_tester =
   parse_cmd_line (ideal_api (\<lambda>_ _. 0)) [(CHR ''o'', ''sum''), (CHR ''b'', ''8''), (CHR ''e'', ''64M''), (CHR ''n'', ''5'')]
     [''x''] new_tester"
  using parse_argv_spelled [of "[Assigned ''op'' ''sum'', Operand ''x'', Separate (CHR ''b'') ''8'',
      Attached (CHR ''e'') ''64M'', Spaced ''iters'' ''5'']" "ideal_api (\<lambda>_ _. 0)" new_tester]
  by (simp add: short_kind_def shortopts_def longopts_def takes_long_def ideal_api_def)

text \<open>The argument of \<open>-s\<close> is not read: \<open>-s 0\<close> switches the option on as well.\<close>

lemma nslb_argument_ignored: "parse_opt A (CHR ''s'') v s = Some (0, s\<lparr>nslb_flag := 1\<rparr>)"
  by (simp add: parse_opt_def assign_def)

end
