(* ===== verification/Older_Routines.thy ===== *)
theory Older_Routines
  imports Op_Base Alltoall_Check Reduce_Init
begin

text \<open>
  The routines of \<open>build/hccl_test/common/src\<close> that work on buffers and on the base class.  Their text
  is that of the files in \<open>build/hccl_test_probe\<close>, which differ in the licence header only, but for
  the table \<open>functionReduceMap\<close>: each constant stands for the older copy of a function, and the
  functions that differ are defined here.
\<close>

subsection \<open>Float conversions (\<open>hccl_check_buf_init.h\<close>)\<close>

definition older_fp16_ieee_from_fp32_value :: "u32 \<Rightarrow> u16" where
  "older_fp16_ieee_from_fp32_value = fp16_ieee_from_fp32_value"

definition older_fp32tobf16 :: "u32 \<Rightarrow> u16 option" where
  "older_fp32tobf16 = fp32tobf16"

subsection \<open>Host buffers (\<open>hccl_check_buf_init.cc\<close>)\<close>

definition older_host_buf_init_fp32 ::
    "mem \<Rightarrow> nat \<Rightarrow> u64 \<Rightarrow> int \<Rightarrow> mem option" where
  "older_host_buf_init_fp32 = host_buf_init_fp32"

definition older_host_buf_init_int8 ::
    "mem \<Rightarrow> nat \<Rightarrow> u64 \<Rightarrow> int \<Rightarrow> mem option" where
  "older_host_buf_init_int8 = host_buf_init_int8"

definition older_host_buf_init_int32 ::
    "mem \<Rightarrow> nat \<Rightarrow> u64 \<Rightarrow> int \<Rightarrow> mem option" where
  "older_host_buf_init_int32 = host_buf_init_int32"

definition older_host_buf_init_fp16 ::
    "mem \<Rightarrow> nat \<Rightarrow> u64 \<Rightarrow> int \<Rightarrow> mem option" where
  "older_host_buf_init_fp16 = host_buf_init_fp16"

definition older_host_buf_init_int16 ::
    "mem \<Rightarrow> nat \<Rightarrow> u64 \<Rightarrow> int \<Rightarrow> mem option" where
  "older_host_buf_init_int16 = host_buf_init_int16"

definition older_host_buf_init_int64 ::
    "mem \<Rightarrow> nat \<Rightarrow> u64 \<Rightarrow> int \<Rightarrow> mem option" where
  "older_host_buf_init_int64 = host_buf_init_int64"

definition older_host_buf_init_bfp16 ::
    "mem \<Rightarrow> nat \<Rightarrow> u64 \<Rightarrow> int \<Rightarrow> mem option" where
  "older_host_buf_init_bfp16 = host_buf_init_bfp16"

definition older_functionMap ::
    "HcclDataType \<Rightarrow> (mem \<Rightarrow> nat \<Rightarrow> u64 \<Rightarrow> int \<Rightarrow> mem option) option" where
  "older_functionMap = functionMap"

definition older_hccl_host_buf_init ::
    "mem \<Rightarrow> nat \<Rightarrow> u64 \<Rightarrow> int \<Rightarrow> int \<Rightarrow> mem option" where
  "older_hccl_host_buf_init = hccl_host_buf_init"

subsection \<open>Expected reductions (\<open>hccl_check_buf_init.cc\<close>)\<close>

definition older_reduce_check_buf_init_fp32 ::
    "mem \<Rightarrow> nat \<Rightarrow> u64 \<Rightarrow> int \<Rightarrow> int \<Rightarrow> int \<Rightarrow> mem option" where
  "older_reduce_check_buf_init_fp32 = reduce_check_buf_init_fp32"

definition older_reduce_check_buf_init_int8 ::
    "mem \<Rightarrow> nat \<Rightarrow> u64 \<Rightarrow> int \<Rightarrow> int \<Rightarrow> int \<Rightarrow> mem option" where
  "older_reduce_check_buf_init_int8 = reduce_check_buf_init_int8"

definition older_reduce_check_buf_init_int32 ::
    "mem \<Rightarrow> nat \<Rightarrow> u64 \<Rightarrow> int \<Rightarrow> int \<Rightarrow> int \<Rightarrow> mem option" where
  "older_reduce_check_buf_init_int32 = reduce_check_buf_init_int32"

definition older_reduce_check_buf_init_fp16 ::
    "mem \<Rightarrow> nat \<Rightarrow> u64 \<Rightarrow> int \<Rightarrow> int \<Rightarrow> int \<Rightarrow> mem option" where
  "older_reduce_check_buf_init_fp16 = reduce_check_buf_init_fp16"

definition older_reduce_check_buf_init_int16 ::
    "mem \<Rightarrow> nat \<Rightarrow> u64 \<Rightarrow> int \<Rightarrow> int \<Rightarrow> int \<Rightarrow> mem option" where
  "older_reduce_check_buf_init_int16 = reduce_check_buf_init_int16"

definition older_reduce_check_buf_init_int64 ::
    "mem \<Rightarrow> nat \<Rightarrow> u64 \<Rightarrow> int \<Rightarrow> int \<Rightarrow> int \<Rightarrow> mem option" where
  "older_reduce_check_buf_init_int64 = reduce_check_buf_init_int64"

definition older_reduce_check_buf_init_bfp16 ::
    "mem \<Rightarrow> nat \<Rightarrow> u64 \<Rightarrow> int \<Rightarrow> int \<Rightarrow> int \<Rightarrow> mem option" where
  "older_reduce_check_buf_init_bfp16 = reduce_check_buf_init_bfp16"

text \<open>\<open>functionReduceMap\<close>: without an entry for \<open>HCCL_DATA_TYPE_FP64\<close>.\<close>

fun older_functionReduceMap ::
    "HcclDataType \<Rightarrow> (mem \<Rightarrow> nat \<Rightarrow> u64 \<Rightarrow> int \<Rightarrow> int \<Rightarrow> int \<Rightarrow> mem option) option" where
  "older_functionReduceMap HCCL_DATA_TYPE_FP32 = Some older_reduce_check_buf_init_fp32"
| "older_functionReduceMap HCCL_DATA_TYPE_INT8 = Some older_reduce_check_buf_init_int8"
| "older_functionReduceMap HCCL_DATA_TYPE_UINT8 = Some older_reduce_check_buf_init_int8"
| "older_functionReduceMap HCCL_DATA_TYPE_INT32 = Some older_reduce_check_buf_init_int32"
| "older_functionReduceMap HCCL_DATA_TYPE_FP16 = Some older_reduce_check_buf_init_fp16"
| "older_functionReduceMap HCCL_DATA_TYPE_INT16 = Some older_reduce_check_buf_init_int16"
| "older_functionReduceMap HCCL_DATA_TYPE_INT64 = Some older_reduce_check_buf_init_int64"
| "older_functionReduceMap HCCL_DATA_TYPE_UINT64 = Some older_reduce_check_buf_init_int64"
| "older_functionReduceMap HCCL_DATA_TYPE_BFP16 = Some older_reduce_check_buf_init_bfp16"
| "older_functionReduceMap _ = None"

definition older_hccl_reduce_check_buf_init ::
    "mem \<Rightarrow> nat \<Rightarrow> u64 \<Rightarrow> int \<Rightarrow> int \<Rightarrow> int \<Rightarrow> int \<Rightarrow> mem option" where
  "older_hccl_reduce_check_buf_init m dst_buf n t op v k =
     (case Option.bind (dtype_of t) older_functionReduceMap of
        Some f \<Rightarrow> f m dst_buf n v op k
      | None \<Rightarrow> Some m)"

subsection \<open>Exchange checks (\<open>hccl_check_buf_init.cc\<close>)\<close>

definition older_alltoall_check_result_uint64 ::
    "mem \<Rightarrow> u64 list \<Rightarrow> u64 list \<Rightarrow> int \<Rightarrow> int option" where
  "older_alltoall_check_result_uint64 = alltoall_check_result_uint64"

definition older_alltoall_check_result_fp32 ::
    "mem \<Rightarrow> u64 list \<Rightarrow> u64 list \<Rightarrow> int \<Rightarrow> int option" where
  "older_alltoall_check_result_fp32 = alltoall_check_result_fp32"

definition older_alltoall_check_result_int8 ::
    "mem \<Rightarrow> u64 list \<Rightarrow> u64 list \<Rightarrow> int \<Rightarrow> int option" where
  "older_alltoall_check_result_int8 = alltoall_check_result_int8"

definition older_alltoall_check_result_int32 ::
    "mem \<Rightarrow> u64 list \<Rightarrow> u64 list \<Rightarrow> int \<Rightarrow> int option" where
  "older_alltoall_check_result_int32 = alltoall_check_result_int32"

definition older_alltoall_check_result_int64 ::
    "mem \<Rightarrow> u64 list \<Rightarrow> u64 list \<Rightarrow> int \<Rightarrow> int option" where
  "older_alltoall_check_result_int64 = alltoall_check_result_int64"

definition older_alltoall_check_result_int16 ::
    "mem \<Rightarrow> u64 list \<Rightarrow> u64 list \<Rightarrow> int \<Rightarrow> int option" where
  "older_alltoall_check_result_int16 = alltoall_check_result_int16"

definition older_alltoall_check_result_fp16 ::
    "mem \<Rightarrow> u64 list \<Rightarrow> u64 list \<Rightarrow> int \<Rightarrow> int option" where
  "older_alltoall_check_result_fp16 = alltoall_check_result_fp16"

definition older_alltoall_check_result_uint8 ::
    "mem \<Rightarrow> u64 list \<Rightarrow> u64 list \<Rightarrow> int \<Rightarrow> int option" where
  "older_alltoall_check_result_uint8 = alltoall_check_result_uint8"

definition older_alltoall_check_result_uint16 ::
    "mem \<Rightarrow> u64 list \<Rightarrow> u64 list \<Rightarrow> int \<Rightarrow> int option" where
  "older_alltoall_check_result_uint16 = alltoall_check_result_uint16"

definition older_alltoall_check_result_uint32 ::
    "mem \<Rightarrow> u64 list \<Rightarrow> u64 list \<Rightarrow> int \<Rightarrow> int option" where
  "older_alltoall_check_result_uint32 = alltoall_check_result_uint32"

definition older_alltoall_check_result_bfp16 ::
    "mem \<Rightarrow> u64 list \<Rightarrow> u64 list \<Rightarrow> int \<Rightarrow> int option" where
  "older_alltoall_check_result_bfp16 = alltoall_check_result_bfp16"

definition older_functionAllToAllMap ::
    "HcclDataType \<Rightarrow> (mem \<Rightarrow> u64 list \<Rightarrow> u64 list \<Rightarrow> int \<Rightarrow> int option) option" where
  "older_functionAllToAllMap = functionAllToAllMap"

definition older_hccl_alltoallv_check_result ::
    "mem \<Rightarrow> u64 list \<Rightarrow> u64 list \<Rightarrow> int \<Rightarrow> int \<Rightarrow> int option" where
  "older_hccl_alltoallv_check_result = hccl_alltoallv_check_result"

definition older_hccl_alltoall_check_result ::
    "mem option \<Rightarrow> u64 \<Rightarrow> int \<Rightarrow> int \<Rightarrow> u8 list \<Rightarrow> bool option" where
  "older_hccl_alltoall_check_result = hccl_alltoall_check_result"

subsection \<open>Element-wise comparison (\<open>hccl_check_common.cc\<close>, \<open>.h\<close>)\<close>

definition older_HCCL_EPSION_FLOAT :: u64 where
  "older_HCCL_EPSION_FLOAT = HCCL_EPSION_FLOAT"

definition older_check_buf_result_float ::
    "mem \<Rightarrow> mem \<Rightarrow> u64 \<Rightarrow> (int \<times> report) option" where
  "older_check_buf_result_float = check_buf_result_float"

definition older_check_buf_result_int8 ::
    "mem \<Rightarrow> mem \<Rightarrow> u64 \<Rightarrow> (int \<times> report) option" where
  "older_check_buf_result_int8 = check_buf_result_int8"

definition older_check_buf_result_half ::
    "mem \<Rightarrow> mem \<Rightarrow> u64 \<Rightarrow> (int \<times> report) option" where
  "older_check_buf_result_half = check_buf_result_half"

definition older_check_buf_result_int32 ::
    "mem \<Rightarrow> mem \<Rightarrow> u64 \<Rightarrow> (int \<times> report) option" where
  "older_check_buf_result_int32 = check_buf_result_int32"

definition older_check_buf_result_int64 ::
    "mem \<Rightarrow> mem \<Rightarrow> u64 \<Rightarrow> (int \<times> report) option" where
  "older_check_buf_result_int64 = check_buf_result_int64"

definition older_check_buf_result_u64 ::
    "mem \<Rightarrow> mem \<Rightarrow> u64 \<Rightarrow> (int \<times> report) option" where
  "older_check_buf_result_u64 = check_buf_result_u64"

subsection \<open>The base class (\<open>hccl_opbase_rootinfo_base.cc\<close>)\<close>

definition older_construct_HcclOpBaseTest ::
    "'a HcclOpBaseTest_scheme \<Rightarrow> 'a HcclOpBaseTest_scheme" where
  "older_construct_HcclOpBaseTest = construct_HcclOpBaseTest"

definition older_init_data_count :: "'a HcclTest_scheme \<Rightarrow> 'a HcclTest_scheme" where
  "older_init_data_count = init_data_count"

definition older_no_verification :: "'a HcclTest_scheme \<Rightarrow> 'a HcclTest_scheme" where
  "older_no_verification = no_verification"

definition older_is_initdata_overflow :: "'a HcclTest_scheme \<Rightarrow> 'a HcclTest_scheme" where
  "older_is_initdata_overflow = is_initdata_overflow"

definition older_is_data_overflow :: "'a HcclTest_scheme \<Rightarrow> 'a HcclTest_scheme" where
  "older_is_data_overflow = is_data_overflow"

definition older_print_execution_time ::
    "u64 \<Rightarrow> u64 \<Rightarrow> 'a HcclOpBaseTest_scheme cmd" where
  "older_print_execution_time = print_execution_time"

definition older_destory_alloc_buf :: "api \<Rightarrow> 'a HcclOpBaseTest_scheme cmd" where
  "older_destory_alloc_buf = destory_alloc_buf"

lemmas older_routines =
  older_fp16_ieee_from_fp32_value_def older_fp32tobf16_def older_host_buf_init_fp32_def
  older_host_buf_init_int8_def older_host_buf_init_int32_def older_host_buf_init_fp16_def
  older_host_buf_init_int16_def older_host_buf_init_int64_def older_host_buf_init_bfp16_def
  older_functionMap_def older_hccl_host_buf_init_def older_reduce_check_buf_init_fp32_def
  older_reduce_check_buf_init_int8_def older_reduce_check_buf_init_int32_def
  older_reduce_check_buf_init_fp16_def older_reduce_check_buf_init_int16_def
  older_reduce_check_buf_init_int64_def older_reduce_check_buf_init_bfp16_def
  older_alltoall_check_result_uint64_def older_alltoall_check_result_fp32_def
  older_alltoall_check_result_int8_def older_alltoall_check_result_int32_def
  older_alltoall_check_result_int64_def older_alltoall_check_result_int16_def
  older_alltoall_check_result_fp16_def older_alltoall_check_result_uint8_def
  older_alltoall_check_result_uint16_def older_alltoall_check_result_uint32_def
  older_alltoall_check_result_bfp16_def older_functionAllToAllMap_def
  older_hccl_alltoallv_check_result_def older_hccl_alltoall_check_result_def
  older_HCCL_EPSION_FLOAT_def older_check_buf_result_float_def older_check_buf_result_int8_def
  older_check_buf_result_half_def older_check_buf_result_int32_def older_check_buf_result_int64_def
  older_check_buf_result_u64_def older_construct_HcclOpBaseTest_def older_init_data_count_def
  older_no_verification_def older_is_initdata_overflow_def older_is_data_overflow_def
  older_print_execution_time_def older_destory_alloc_buf_def

end
