(* ===== verification/Older_Release.thy ===== *)
theory Older_Release
  imports Driver Getopt Older_Routines
begin

text \<open>
  The program of \<open>build/hccl_test\<close>, an older release of the one in \<open>build/hccl_test_probe\<close>: it
  has no \<open>-t\<close> option and no barrier for the device time, creates the communicator without a
  configuration unless \<open>-s\<close> is given, and checks the status of that creation.  Its class lacks the
  members \<open>only_device_exec_time\<close>, \<open>sync_stream\<close>, \<open>sync_event\<close> and \<open>hccl_buffsize\<close>; the functions
  here leave these fields of the record alone.
\<close>

subsection \<open>Functions with the same text in both releases\<close>

text \<open>Each constant stands for the copy of the function in \<open>build/hccl_test/common/src\<close>.\<close>

definition older_test_ops :: "HcclReduceOp list" where
  "older_test_ops = test_ops"

definition older_test_opnames :: "string list" where
  "older_test_opnames = test_opnames"

definition older_test_accelerator_config :: "string list" where
  "older_test_accelerator_config = test_accelerator_config"

definition older_test_types :: "HcclDataType list" where
  "older_test_types = test_types"

definition older_test_typenames :: "string list" where
  "older_test_typenames = test_typenames"

definition older_get_host_name :: "string \<Rightarrow> string" where
  "older_get_host_name = get_host_name"

definition older_get_host_hash :: "string \<Rightarrow> u64" where
  "older_get_host_hash = get_host_hash"

definition older_sal_str_len :: "string \<Rightarrow> nat \<Rightarrow> nat" where
  "older_sal_str_len = sal_str_len"

text \<open>The constructor; the fields that the class of this release lacks are set with the others.\<close>

definition older_construct_HcclTest :: "'a HcclTest_scheme \<Rightarrow> 'a HcclTest_scheme" where
  "older_construct_HcclTest = construct_HcclTest"

definition older_get_hccl_op_from_str :: "string \<Rightarrow> int" where
  "older_get_hccl_op_from_str = get_hccl_op_from_str"

definition older_get_hccl_dtype_from_str :: "string \<Rightarrow> int" where
  "older_get_hccl_dtype_from_str = get_hccl_dtype_from_str"

definition older_get_accelerator_config_value_from_str :: "string \<Rightarrow> int" where
  "older_get_accelerator_config_value_from_str = get_accelerator_config_value_from_str"

definition older_parsesize :: "string \<Rightarrow> int option" where
  "older_parsesize = parsesize"

definition older_strtol_alldigit :: "string \<Rightarrow> int" where
  "older_strtol_alldigit = strtol_alldigit"

definition older_is_all_digit :: "string option \<Rightarrow> int" where
  "older_is_all_digit = is_all_digit"

definition older_use_ddr_mem :: "string \<Rightarrow> aclrtMemAttr" where
  "older_use_ddr_mem = use_ddr_mem"

definition older_check_alloc_memory_size :: "api \<Rightarrow> u64 \<Rightarrow> 'a HcclTest_scheme cmd" where
  "older_check_alloc_memory_size = check_alloc_memory_size"

definition older_check_data_count :: "'a HcclTest_scheme cmd" where
  "older_check_data_count = check_data_count"

definition older_set_env_resource :: "api \<Rightarrow> 'a HcclTest_scheme cmd" where
  "older_set_env_resource = set_env_resource"

definition older_release_env_resource :: "api \<Rightarrow> 'a HcclTest_scheme cmd" where
  "older_release_env_resource = release_env_resource"

definition older_getAviDevs :: "string \<Rightarrow> int list" where
  "older_getAviDevs = getAviDevs"

definition older_get_mpi_proc :: "api \<Rightarrow> 'a HcclTest_scheme cmd" where
  "older_get_mpi_proc = get_mpi_proc"

definition older_IsSupport910_95 :: "string \<Rightarrow> bool" where
  "older_IsSupport910_95 = IsSupport910_95"

definition older_set_device_sat_mode :: "api \<Rightarrow> 'a HcclTest_scheme cmd" where
  "older_set_device_sat_mode = set_device_sat_mode"

definition older_get_reseved_size :: "u64 \<Rightarrow> u64 \<Rightarrow> u64 \<Rightarrow> u64 option" where
  "older_get_reseved_size = get_reseved_size"

definition older_share_root_info :: "api \<Rightarrow> 'a HcclTest_scheme cmd" where
  "older_share_root_info = share_root_info"

definition older_get_buff_size ::
    "('a HcclTest_scheme) vtable \<Rightarrow> 'a HcclTest_scheme \<Rightarrow> ((u64 \<times> u64) \<times> 'a HcclTest_scheme) option" where
  "older_get_buff_size = get_buff_size"

definition older_prepare_zero_copy :: "api \<Rightarrow> u64 \<Rightarrow> u64 \<Rightarrow> 'a HcclTest_scheme cmd" where
  "older_prepare_zero_copy = prepare_zero_copy"

definition older_alloc_hccl_send_recv_buffer :: "api \<Rightarrow> u64 \<Rightarrow> u64 \<Rightarrow> 'a HcclTest_scheme cmd" where
  "older_alloc_hccl_send_recv_buffer = alloc_hccl_send_recv_buffer"

definition older_free_send_recv_buff_and_disable_local_buffer :: "api \<Rightarrow> 'a HcclOpBaseTest_scheme cmd" where
  "older_free_send_recv_buff_and_disable_local_buffer = free_send_recv_buff_and_disable_local_buffer"

definition older_opbase_test_by_data_size ::
    "api \<Rightarrow> ('a HcclOpBaseTest_scheme) vtable \<Rightarrow> 'a HcclOpBaseTest_scheme cmd" where
  "older_opbase_test_by_data_size = opbase_test_by_data_size"

lemmas older_shared = older_get_hccl_op_from_str_def older_get_hccl_dtype_from_str_def
  older_get_accelerator_config_value_from_str_def older_parsesize_def older_strtol_alldigit_def
  older_is_all_digit_def older_use_ddr_mem_def older_check_alloc_memory_size_def older_check_data_count_def
  older_set_env_resource_def older_release_env_resource_def older_getAviDevs_def older_get_mpi_proc_def
  older_IsSupport910_95_def older_set_device_sat_mode_def older_get_reseved_size_def older_share_root_info_def
  older_get_buff_size_def older_prepare_zero_copy_def older_alloc_hccl_send_recv_buffer_def
  older_free_send_recv_buff_and_disable_local_buffer_def older_opbase_test_by_data_size_def
  older_destory_alloc_buf_def

subsection \<open>Options\<close>

definition older_print_help :: "api \<Rightarrow> 'a HcclTest_scheme cmd" where
  "older_print_help A s =
     (case soc_name A of
        None \<Rightarrow> None
      | Some soc \<Rightarrow>
          steps [say ''USAGE: ./test'',
                 when_do (\<lambda>_. older_IsSupport910_95 soc) (say ''[-a --accelerator]''),
                 say ''[-b -e -i -f -n -o -d -r -w -c -p -z -s -h]''] s)"

definition older_parse_opt :: "api \<Rightarrow> char \<Rightarrow> string \<Rightarrow> 'a HcclTest_scheme cmd" where
  "older_parse_opt A opt optarg =
     (if opt = CHR ''a'' then
        assign (\<lambda>s. s\<lparr>accelerator_config := older_get_accelerator_config_value_from_str optarg\<rparr>)
      else if opt = CHR ''b'' then
        update_opt (\<lambda>s. map_option (\<lambda>n. s\<lparr>data_parsed_begin := n\<rparr>) (older_parsesize optarg))
      else if opt = CHR ''e'' then
        update_opt (\<lambda>s. map_option (\<lambda>n. s\<lparr>data_parsed_end := n\<rparr>) (older_parsesize optarg))
      else if opt = CHR ''i'' then
        assign (\<lambda>s. s\<lparr>stepbytes_flag := stepbytes_flag s + 1, temp_step_bytes := older_strtol_alldigit optarg\<rparr>)
      else if opt = CHR ''f'' then
        assign (\<lambda>s. s\<lparr>stepfactor_flag := stepfactor_flag s + 1,
                      data := (data s)\<lparr>step_factor := f64_of_f32 (strtof optarg)\<rparr>\<rparr>)
      else if opt = CHR ''n'' then assign (\<lambda>s. s\<lparr>iters := to_s32 (older_strtol_alldigit optarg)\<rparr>)
      else if opt = CHR ''o'' then
        assign (\<lambda>s. s\<lparr>op_flag := op_flag s + 1, op_type := older_get_hccl_op_from_str optarg\<rparr>)
      else if opt = CHR ''d'' then assign (\<lambda>s. s\<lparr>dtype := older_get_hccl_dtype_from_str optarg\<rparr>)
      else if opt = CHR ''r'' then assign (\<lambda>s. s\<lparr>root_rank := to_s32 (older_strtol_alldigit optarg)\<rparr>)
      else if opt = CHR ''w'' then assign (\<lambda>s. s\<lparr>warmup_iters := to_s32 (older_strtol_alldigit optarg)\<rparr>)
      else if opt = CHR ''c'' then assign (\<lambda>s. s\<lparr>check := to_s32 (older_strtol_alldigit optarg)\<rparr>)
      else if opt = CHR ''p'' then
        assign (\<lambda>s. s\<lparr>npus := to_s32 (older_strtol_alldigit optarg), npus_flag := 1\<rparr>)
      else if opt = CHR ''z'' then
        update_opt (\<lambda>s. map_option (\<lambda>n. s\<lparr>enable_zero_copy := n \<noteq> 0\<rparr>) (stoi optarg))
      else if opt = CHR ''s'' then assign (\<lambda>s. s\<lparr>nslb_flag := 1\<rparr>)
      else if opt = CHR ''h'' then steps [older_print_help A, ret 1]
      else steps [say ''invalid option'', fail_with ''Try [-h --help] for more information.'' (- 1)])"

definition older_parse_cmd_line :: "api \<Rightarrow> (char \<times> string) list \<Rightarrow> string list \<Rightarrow> 'a HcclTest_scheme cmd" where
  "older_parse_cmd_line A opts rest =
     steps (map (\<lambda>(opt, optarg). older_parse_opt A opt optarg) opts @
       [when_do (\<lambda>_. rest \<noteq> []) (fail_with (''non-option ARGV-elements: '' @ concat rest) (- 1))])"

text \<open>The tables for \<open>getopt_long\<close>: without \<open>-t\<close>.\<close>

definition older_shortopts :: string where
  "older_shortopts = ''o:d:b:e:i:f:r:n:w:c:p:z:a:s:h''"

definition older_longopts :: long_opts where
  "older_longopts =
     [(''op'', True, CHR ''o''), (''datatype'', True, CHR ''d''), (''minbytes'', True, CHR ''b''),
      (''maxbytes'', True, CHR ''e''), (''stepbytes'', True, CHR ''i''), (''stepfactor'', True, CHR ''f''),
      (''root'', True, CHR ''r''), (''iters'', True, CHR ''n''), (''warmup_iters'', True, CHR ''w''),
      (''check'', True, CHR ''c''), (''npus'', True, CHR ''p''), (''help'', False, CHR ''h''),
      (''zero_copy'', True, CHR ''z''), (''nslb'', True, CHR ''s'')]"

interpretation older_tables: option_tables older_shortopts older_longopts
  by unfold_locales (simp_all add: short_kind_def older_shortopts_def older_longopts_def)

definition older_parse_argv :: "api \<Rightarrow> string list \<Rightarrow> 'a HcclTest_scheme cmd" where
  "older_parse_argv A argv =
     (case getopt_long older_shortopts older_longopts (getenv A ''POSIXLY_CORRECT'' \<noteq> None) argv of
        (opts, Some rest) \<Rightarrow> older_parse_cmd_line A opts rest
      | (opts, None) \<Rightarrow> steps (map (\<lambda>(opt, optarg). older_parse_opt A opt optarg) opts @ [\<lambda>_. None]))"

definition older_check_cmd_line :: "'a HcclTest_scheme cmd" where
  "older_check_cmd_line =
     steps
      [older_check_data_count,
       when_do (\<lambda>s. dtype s = - 1) (fail_with ''Error: [-d,--datatype] is invalid'' (- 1)),
       when_do (\<lambda>s. op_type s = - 1) (fail_with ''Error: [-o,--op] is invalid'' (- 1)),
       when_do (\<lambda>s. accelerator_config s = - 1)
         (fail_with ''Error: [-a,--accelerator_config] is invalid'' (- 1)),
       when_do (\<lambda>s. warmup_iters s < 0) (fail_with ''Error: [-w,--warmup_iters] is invalid'' (- 1)),
       when_do (\<lambda>s. iters s < 0) (fail_with ''Error: [-n,--iters] is invalid'' (- 1)),
       when_do (\<lambda>s. root_rank s \<ge> rank_size s \<or> root_rank s < 0)
         (fail_with ''Error: [-r,--root <root>] is invalid'' (- 1)),
       when_do (\<lambda>s. check s \<noteq> 1 \<and> check s \<noteq> 0) (fail_with ''Error: [-c,--check] is invalid'' (- 1)),
       when_do (\<lambda>s. dev_count s = 0) (fail_with ''Error: The number of device is 0.'' (- 1)),
       when_do (\<lambda>s. npus s < 1 \<or> (word_of_int (npus s) :: u32) > dev_count s)
         (fail_with ''Error: [-p,--npus <npus used for one node>] is invalid'' (- 1))]"

definition older_get_env_resource :: "api \<Rightarrow> 'a HcclTest_scheme cmd" where
  "older_get_env_resource A =
     steps
      [(case getenv A ''HCCL_TEST_PROFILING'' of
          None \<Rightarrow> skip
        | Some profiling_env \<Rightarrow>
            steps
             [assign (\<lambda>s. s\<lparr>profiling_flag := atoi profiling_env\<rparr>),
              require_digits profiling_env ''Check whether HCCL_TEST_PROFILING is 0 or 1.'',
              when_do (\<lambda>s. profiling_flag s \<noteq> 0 \<and> profiling_flag s \<noteq> 1)
                (fail_with ''Check whether HCCL_TEST_PROFILING is 0 or 1.'' (- 1))]),
       when_do (\<lambda>s. profiling_flag s = 1)
         (steps
           [ignore (call A (Acl (ProfInit
              (case getenv A ''HCCL_TEST_PROFILING_PATH'' of
                 Some path \<Rightarrow> path | None \<Rightarrow> ''/var/log/npu/profiling'')))),
            with_state (\<lambda>s. ignore (call_value A (Acl (ProfCreateConfig (dev_id s)))
                                      (\<lambda>n s. s\<lparr>profiling_config := n\<rparr>))),
            with_state (\<lambda>s. call A (Acl (ProfStart (profiling_config s))))])]"

subsection \<open>Devices and the communicator\<close>

definition older_device_init :: "api \<Rightarrow> 'a HcclTest_scheme cmd" where
  "older_device_init A =
     steps
      [call A (Acl AclInit),
       with_state (\<lambda>s. call A (Acl (SetDevice (dev_id s)))),
       attempt (older_set_device_sat_mode A)
         (\<lambda>r. fail_with ''set_device_sat_mode execute failed'' r) skip,
       call_value A (Acl CreateEvent) (\<lambda>n s. s\<lparr>start_event := n\<rparr>),
       call_value A (Acl CreateEvent) (\<lambda>n s. s\<lparr>end_event := n\<rparr>),
       call_value A (Acl CreateStream) (\<lambda>n s. s\<lparr>stream := n\<rparr>),
       with_state (\<lambda>s. call A (Acl (SetStreamFailureMode (stream s) 1)))]"

definition older_destory_hcclComm :: "api \<Rightarrow> 'a HcclTest_scheme cmd" where
  "older_destory_hcclComm A =
     steps
      [with_state (\<lambda>s. call A (Acl (DestroyStream (stream s)))),
       with_state (\<lambda>s. call A (Acl (DestroyEvent (start_event s)))),
       with_state (\<lambda>s. call A (Acl (DestroyEvent (end_event s)))),
       with_state (\<lambda>s. call A (Acl (ResetDevice (dev_id s))))]"

text \<open>Here the capability is the answer of the library.\<close>

definition older_init_nslb :: "api \<Rightarrow> 'a HcclTest_scheme cmd" where
  "older_init_nslb A s =
     (let c = Hccl GetCommConfigCapability; capability = (of_nat (delivered A (call_log s) c) :: u32)
      in (if capability < word_of_int NSLBDP_SUPPORT_VERSION
          then steps
             [say ''The current version of hccl_test does not support the nslb-dp capability.'', CommInit A]
          else CommInitNslb A)
         (logged c s))"

definition older_init_hcclComm :: "api \<Rightarrow> 'a HcclTest_scheme cmd" where
  "older_init_hcclComm A =
     steps
      [older_share_root_info A,
       if_else (\<lambda>s. nslb_flag s = 1) (older_init_nslb A) (CommInit A)]"

subsection \<open>One test\<close>

definition older_error_reserve_memAddress :: "api \<Rightarrow> 'a HcclTest_scheme cmd" where
  "older_error_reserve_memAddress A =
     steps
      [when_do enable_zero_copy (with_state (\<lambda>s. ignore
         (\<lambda>s. if release Reserved (vir_ptr s) s = None then None
              else invoke A (Acl (ReleaseMemAddress (vir_ptr s))) (release Reserved (vir_ptr s)) s))),
       older_destory_hcclComm A]"

definition older_error_reserve_lpcMemory :: "api \<Rightarrow> 'a HcclTest_scheme cmd" where
  "older_error_reserve_lpcMemory A =
     steps
      [when_do enable_zero_copy
         (with_state (\<lambda>s. ignore (call A (Hccl (CommUnsetMemoryRange (hccl_comm s) (vir_ptr s)))))),
       with_state (\<lambda>s. ignore (call A (Hccl (CommDestroy (hccl_comm s))))),
       older_error_reserve_memAddress A]"

definition older_run_communicator ::
    "api \<Rightarrow> ('a HcclOpBaseTest_scheme) vtable \<Rightarrow> u64 \<Rightarrow> 'a HcclOpBaseTest_scheme cmd" where
  "older_run_communicator A V reserve_mem =
     attempt (older_init_hcclComm A) (\<lambda>_. older_error_reserve_memAddress A)
       (attempt
         (when_do enable_zero_copy
           (with_state (\<lambda>s. call A (Hccl (CommSetMemoryRange (hccl_comm s) (vir_ptr s) reserve_mem)))))
         (\<lambda>_. steps [say ''HcclCommSetMemoryRange failed.'', older_error_reserve_lpcMemory A])
         (steps [ignore (older_opbase_test_by_data_size A V), older_error_reserve_lpcMemory A]))"

definition older_plan_reserve ::
    "api \<Rightarrow> ('a HcclOpBaseTest_scheme) vtable \<Rightarrow> 'a HcclOpBaseTest_scheme \<Rightarrow>
       (u64 \<times> 'a HcclOpBaseTest_scheme) option" where
  "older_plan_reserve A V s =
     (case (if stepbytes_flag s \<noteq> 0 \<and> step_bytes (data s) = 0 then Some (data (start_at_min s))
            else size_scan (data (start_at_min s))) of
        None \<Rightarrow> None
      | Some d \<Rightarrow>
     (case soc_name A of
        None \<Rightarrow> None
      | Some soc \<Rightarrow>
          (let c = Acl (MemGetAllocationGranularity (older_use_ddr_mem soc) (dev_id s));
               g = (if status A (call_log s) c \<noteq> 0 then 2 * 1024 * 1024 else of_nat (delivered A (call_log s) c))
           in case older_get_buff_size V ((logged c s)\<lparr>data := d, physicalGranularity := g\<rparr>) of
                None \<Rightarrow> None
              | Some ((send_bytes, recv_bytes), s1) \<Rightarrow>
                  map_option (\<lambda>n. (n, s1)) (older_get_reseved_size send_bytes recv_bytes g))))"

definition older_start_test :: "api \<Rightarrow> ('a HcclOpBaseTest_scheme) vtable \<Rightarrow> 'a HcclOpBaseTest_scheme cmd" where
  "older_start_test A V s =
     (if enable_zero_copy s then
        (case older_plan_reserve A V s of
           None \<Rightarrow> None
         | Some (reserve_mem, s1) \<Rightarrow>
             steps
              [older_check_alloc_memory_size A reserve_mem,
               attempt
                (invoke A (Acl (ReserveMemAddress reserve_mem)) (\<lambda>s. Some
                   (alloc A (Acl (ReserveMemAddress reserve_mem)) Reserved (unat reserve_mem)
                     (\<lambda>p s. s\<lparr>vir_ptr := p\<rparr>) s)))
                (\<lambda>_. steps [say ''aclrtReserveMemAddress failed.'', older_destory_hcclComm A])
                (older_run_communicator A V reserve_mem)] s1)
      else older_run_communicator A V 0 s)"

subsection \<open>The main function\<close>

definition older_hccltesterr3 :: "api \<Rightarrow> int \<Rightarrow> 'a HcclOpBaseTest_scheme cmd" where
  "older_hccltesterr3 A r = steps [call A (Acl AclFinalize), ignore (call A (Os MpiFinalize)), ret r]"

definition older_hccltesterr2 :: "api \<Rightarrow> int \<Rightarrow> 'a HcclOpBaseTest_scheme cmd" where
  "older_hccltesterr2 A r = steps [ignore (older_destory_alloc_buf A), older_hccltesterr3 A r]"

definition older_hccltesterr1 :: "api \<Rightarrow> 'a HcclOpBaseTest_scheme cmd" where
  "older_hccltesterr1 A =
     attempt (older_release_env_resource A)
       (\<lambda>r. steps [say ''This is an error in release_env_resource.'', older_hccltesterr2 A r])
       (older_hccltesterr2 A 0)"

definition older_run_test :: "api \<Rightarrow> ('a HcclOpBaseTest_scheme) vtable \<Rightarrow> 'a HcclOpBaseTest_scheme cmd" where
  "older_run_test A V =
     attempt (older_get_mpi_proc A)
       (\<lambda>r. steps [say ''This is an error in get_mpi_proc.'', older_hccltesterr2 A r])
     (attempt older_check_cmd_line
       (\<lambda>r. steps [say ''This is an error in check_cmd_line.'', older_hccltesterr2 A r])
     (attempt (older_device_init A)
       (\<lambda>r. steps [say ''This is an error in device_init.'', older_hccltesterr2 A r])
     (attempt (older_get_env_resource A)
       (\<lambda>_. steps [say ''This is an error in get_env.'', older_hccltesterr1 A])
     (attempt (older_set_env_resource A)
       (\<lambda>_. steps [say ''This is an error in set_env.'', older_hccltesterr1 A])
     (steps [ignore (older_start_test A V), older_hccltesterr1 A])))))"

definition older_main ::
    "api \<Rightarrow> ('a HcclOpBaseTest_scheme \<Rightarrow> 'a HcclOpBaseTest_scheme) \<Rightarrow> ('a HcclOpBaseTest_scheme) vtable \<Rightarrow>
       (char \<times> string) list \<Rightarrow> string list \<Rightarrow> 'a HcclOpBaseTest_scheme cmd" where
  "older_main A init_opbase_ptr V opts rest =
     steps
      [ignore (call A (Os MpiInit)),
       attempt (call A (Os NewTester))
         (\<lambda>_. steps [say ''hccl_test is null'', older_hccltesterr3 A (- 1)])
         (steps
           [assign init_opbase_ptr,
            (\<lambda>s. case older_parse_cmd_line A opts rest s of
               None \<Rightarrow> None
             | Some (r, s') \<Rightarrow>
                 if r = 1 then older_hccltesterr2 A 0 s'
                 else if r = - 1
                 then steps [say ''This is an error in parse_cmd_line.'', older_hccltesterr2 A (- 1)] s'
                 else older_run_test A V s')])]"

end
