(* ===== verification/Older_Tests.thy ===== *)
theory Older_Tests
  imports Older_Release Test_Programs
begin

text \<open>
  The eleven tests of \<open>build/hccl_test/opbase_test\<close>.  They queue the collective without the barrier
  and the sleep of \<open>-t\<close>, and the \<open>switch\<close> of three of the reductions has no case for
  \<open>HCCL_DATA_TYPE_UINT64\<close> and \<open>HCCL_DATA_TYPE_FP64\<close>.  Here are the functions that this changes; the
  other functions of a test have the same text in both releases, and the tests use them under the
  name they have in \<open>Reduce_Tests\<close>, \<open>Gather_Tests\<close> and \<open>Exchange_Tests\<close>.
\<close>

subsection \<open>What the tests share\<close>

definition older_fill_expected :: "ptr \<Rightarrow> u64 \<Rightarrow> int \<Rightarrow> 'a HcclTest_scheme cmd" where
  "older_fill_expected p n v =
     with_state (\<lambda>s. update_opt (update_buffer p
       (\<lambda>m base. older_hccl_reduce_check_buf_init m base n (dtype s) (op_type s) v (rank_size s))))"

text \<open>The \<open>switch\<close> of \<open>allreduce\<close>, \<open>reduce\<close> and \<open>reducescatter\<close>.\<close>

fun older_reduce_checker :: checker where
  "older_reduce_checker HCCL_DATA_TYPE_FP32 = Some older_check_buf_result_float"
| "older_reduce_checker HCCL_DATA_TYPE_INT8 = Some older_check_buf_result_int8"
| "older_reduce_checker HCCL_DATA_TYPE_UINT8 = Some older_check_buf_result_int8"
| "older_reduce_checker HCCL_DATA_TYPE_INT32 = Some older_check_buf_result_int32"
| "older_reduce_checker HCCL_DATA_TYPE_FP16 = Some older_check_buf_result_half"
| "older_reduce_checker HCCL_DATA_TYPE_INT16 = Some older_check_buf_result_half"
| "older_reduce_checker HCCL_DATA_TYPE_BFP16 = Some older_check_buf_result_half"
| "older_reduce_checker HCCL_DATA_TYPE_INT64 = Some older_check_buf_result_int64"
| "older_reduce_checker _ = None"

text \<open>The warm-up, the measured iterations between two events, and the wait for the stream.\<close>

definition older_timed_run :: "api \<Rightarrow> 'a HcclTest_scheme cmd \<Rightarrow> 'a HcclTest_scheme cmd" where
  "older_timed_run A collective =
     steps
      [with_state (\<lambda>s. repeat_do (nat (warmup_iters s)) collective),
       with_state (\<lambda>s. call A (Acl (RecordEvent (start_event s) (stream s)))),
       with_state (\<lambda>s. repeat_do (nat (iters s)) collective),
       with_state (\<lambda>s. call A (Acl (RecordEvent (end_event s) (stream s)))),
       with_state (\<lambda>s. aclrtSynchronizeStream A (stream s))]"

subsection \<open>Allreduce\<close>

definition older_allreduce_init_buf_val :: "api \<Rightarrow> 'a HcclOpBaseTest_scheme cmd" where
  "older_allreduce_init_buf_val A =
     steps
      [with_state (\<lambda>s. malloc_check_buf A (malloc_kSize s)),
       with_state (\<lambda>s. older_fill_expected (check_buf s) (count (data s)) (val s))]"

definition older_allreduce_check_buf_result :: "api \<Rightarrow> 'a HcclOpBaseTest_scheme cmd" where
  "older_allreduce_check_buf_result A =
     steps
      [with_state (\<lambda>s. fetch_result A (malloc_kSize s) (recv_buff s)),
       with_state (\<lambda>s. compare_result older_reduce_checker (count (data s)))]"

definition older_allreduce_hccl_op_base_test :: "api \<Rightarrow> 'a HcclOpBaseTest_scheme cmd" where
  "older_allreduce_hccl_op_base_test A =
     steps
      [assign allreduce_is_data_overflow,
       with_state (\<lambda>s. malloc_host_buf A (malloc_kSize s)),
       with_state (\<lambda>s. fill_host (host_buf s) (count (data s)) (val s)),
       with_state (\<lambda>s. host_to_send A (malloc_kSize s)),
       when_do (\<lambda>s. check s = 1) (older_allreduce_init_buf_val A),
       older_timed_run A (HcclAllReduce A),
       measured A (\<lambda>time. steps
         [when_do (\<lambda>s. check s = 1)
            (steps
              [when_do (\<lambda>s. enable_zero_copy s \<and> (iters s \<noteq> 0 \<or> warmup_iters s \<noteq> 0))
                 (steps
                   [with_state (\<lambda>s. host_to_send A (malloc_kSize s)),
                    HcclAllReduce A,
                    with_state (\<lambda>s. aclrtSynchronizeStream A (stream s))]),
               older_allreduce_check_buf_result A]),
          allreduce_cal_execution_time time])]"

definition older_allreduce_vtable :: "api \<Rightarrow> ('a HcclOpBaseTest_scheme) vtable" where
  "older_allreduce_vtable A =
     \<lparr>hccl_op_base_test = older_allreduce_hccl_op_base_test A,
      init_malloc_Ksize_by_data = allreduce_init_malloc_Ksize_by_data,
      init_send_recv_size_by_data = allreduce_init_send_recv_size_by_data\<rparr>"

subsection \<open>Reduce\<close>

definition older_reduce_init_buf_val :: "api \<Rightarrow> 'a HcclOpBaseTest_scheme cmd" where
  "older_reduce_init_buf_val A =
     steps
      [with_state (\<lambda>s. malloc_check_buf A (malloc_kSize s)),
       when_do (\<lambda>s. rank_id s = root_rank s)
         (with_state (\<lambda>s. older_fill_expected (check_buf s) (count (data s)) (val s)))]"

definition older_reduce_check_buf_result :: "api \<Rightarrow> 'a HcclOpBaseTest_scheme cmd" where
  "older_reduce_check_buf_result A =
     steps
      [with_state (\<lambda>s. fetch_result A (malloc_kSize s) (recv_buff s)),
       when_do (\<lambda>s. rank_id s = root_rank s)
         (with_state (\<lambda>s. compare_result older_reduce_checker (count (data s))))]"

definition older_reduce_hccl_op_base_test :: "api \<Rightarrow> 'a HcclOpBaseTest_scheme cmd" where
  "older_reduce_hccl_op_base_test A =
     steps
      [assign reduce_is_data_overflow,
       with_state (\<lambda>s. malloc_host_buf A (malloc_kSize s)),
       with_state (\<lambda>s. fill_host (host_buf s) (count (data s)) (val s)),
       with_state (\<lambda>s. host_to_send A (malloc_kSize s)),
       when_do (\<lambda>s. check s = 1) (older_reduce_init_buf_val A),
       older_timed_run A (HcclReduce A),
       measured A (\<lambda>time. steps
         [when_do (\<lambda>s. check s = 1) (older_reduce_check_buf_result A),
          reduce_cal_execution_time time])]"

definition older_reduce_vtable :: "api \<Rightarrow> ('a HcclOpBaseTest_scheme) vtable" where
  "older_reduce_vtable A =
     \<lparr>hccl_op_base_test = older_reduce_hccl_op_base_test A,
      init_malloc_Ksize_by_data = reduce_init_malloc_Ksize_by_data,
      init_send_recv_size_by_data = reduce_init_send_recv_size_by_data\<rparr>"

subsection \<open>Reducescatter\<close>

definition older_reducescatter_init_buf_val :: "api \<Rightarrow> 'a HcclOpBaseTest_scheme cmd" where
  "older_reducescatter_init_buf_val A =
     steps
      [with_state (\<lambda>s. malloc_check_buf A (malloc_kSize s)),
       if_else same_value
         (with_state (\<lambda>s. older_fill_expected (check_buf s) (count (data s)) (val s)))
         (with_state (\<lambda>s. older_fill_expected (check_buf s) (count (data s)) (rank_id s + 1)))]"

definition older_reducescatter_check_buf_result :: "api \<Rightarrow> 'a HcclOpBaseTest_scheme cmd" where
  "older_reducescatter_check_buf_result A =
     steps
      [with_state (\<lambda>s. fetch_result A (malloc_kSize s) (recv_buff s)),
       with_state (\<lambda>s. compare_result older_reduce_checker (count (data s)))]"

definition older_reducescatter_hccl_op_base_test :: "api \<Rightarrow> 'a HcclOpBaseTest_scheme cmd" where
  "older_reducescatter_hccl_op_base_test A =
     steps
      [assign reducescatter_is_data_overflow,
       with_state (\<lambda>s. malloc_host_buf A (malloc_kSize s * ranks s)),
       fill_blocks,
       with_state (\<lambda>s. host_to_send A (malloc_kSize s * ranks s)),
       when_do (\<lambda>s. check s = 1) (older_reducescatter_init_buf_val A),
       older_timed_run A (HcclReduceScatter A),
       measured A (\<lambda>time. steps
         [when_do (\<lambda>s. check s = 1)
            (steps
              [when_do (\<lambda>s. enable_zero_copy s \<and> (iters s \<noteq> 0 \<or> warmup_iters s \<noteq> 0))
                 (steps
                   [with_state (\<lambda>s. host_to_send A (malloc_kSize s * ranks s)),
                    HcclReduceScatter A,
                    with_state (\<lambda>s. aclrtSynchronizeStream A (stream s))]),
               older_reducescatter_check_buf_result A]),
          reducescatter_cal_execution_time time])]"

definition older_reducescatter_vtable :: "api \<Rightarrow> ('a HcclOpBaseTest_scheme) vtable" where
  "older_reducescatter_vtable A =
     \<lparr>hccl_op_base_test = older_reducescatter_hccl_op_base_test A,
      init_malloc_Ksize_by_data = reducescatter_init_malloc_Ksize_by_data,
      init_send_recv_size_by_data = reducescatter_init_send_recv_size_by_data\<rparr>"

subsection \<open>Reducescatterv\<close>

definition older_reducescatterv_init_buf_val :: "api \<Rightarrow> 'a HcclOpBaseTest_scheme cmd" where
  "older_reducescatterv_init_buf_val A =
     steps
      [with_state (\<lambda>s. malloc_check_buf A (malloc_kSize s)),
       if_else same_value
         (with_state (\<lambda>s. older_fill_expected (check_buf s) (count (data s)) (val s)))
         (with_state (\<lambda>s. older_fill_expected (check_buf s) (count (data s)) (rank_id s + 1)))]"

definition older_reducescatterv_hccl_op_base_test :: "api \<Rightarrow> 'a HcclOpBaseReducescatterVTest_scheme cmd" where
  "older_reducescatterv_hccl_op_base_test A =
     steps
      [assign reducescatterv_is_data_overflow,
       malloc_send_buf A,
       with_state (\<lambda>s. malloc_host_buf A (malloc_kSize s * ranks s)),
       fill_blocks,
       with_state (\<lambda>s. host_to_send A (malloc_kSize s * ranks s)),
       when_do (\<lambda>s. check s = 1) (older_reducescatterv_init_buf_val A),
       older_timed_run A (HcclReduceScatterV A),
       measured A (\<lambda>time. steps
         [when_do (\<lambda>s. check s = 1) (reducescatterv_check_buf_result A),
          reducescatterv_cal_execution_time time,
          free_send_buf])]"

definition older_reducescatterv_vtable :: "api \<Rightarrow> ('a HcclOpBaseReducescatterVTest_scheme) vtable" where
  "older_reducescatterv_vtable A =
     \<lparr>hccl_op_base_test = older_reducescatterv_hccl_op_base_test A,
      init_malloc_Ksize_by_data = reducescatterv_init_malloc_Ksize_by_data,
      init_send_recv_size_by_data = reducescatterv_init_send_recv_size_by_data\<rparr>"

subsection \<open>Brocast\<close>

definition older_brocast_hccl_op_base_test :: "api \<Rightarrow> 'a HcclOpBaseTest_scheme cmd" where
  "older_brocast_hccl_op_base_test A =
     steps
      [warn_op_flag,
       with_state (\<lambda>s. malloc_host_buf A (malloc_kSize s)),
       when_do (\<lambda>s. rank_id s = root_rank s)
         (steps
           [with_state (\<lambda>s. fill_host (host_buf s) (count (data s)) (val s)),
            with_state (\<lambda>s. host_to_send A (malloc_kSize s))]),
       when_do (\<lambda>s. check s = 1) (brocast_init_buf_val A),
       older_timed_run A (HcclBroadcast A),
       measured A (\<lambda>time. steps
         [when_do (\<lambda>s. check s = 1) (brocast_check_buf_result A),
          brocast_cal_execution_time time])]"

definition older_brocast_vtable :: "api \<Rightarrow> ('a HcclOpBaseTest_scheme) vtable" where
  "older_brocast_vtable A =
     \<lparr>hccl_op_base_test = older_brocast_hccl_op_base_test A,
      init_malloc_Ksize_by_data = brocast_init_malloc_Ksize_by_data,
      init_send_recv_size_by_data = brocast_init_send_recv_size_by_data\<rparr>"

subsection \<open>Allgather\<close>

definition older_allgather_hccl_op_base_test :: "api \<Rightarrow> 'a HcclOpBaseTest_scheme cmd" where
  "older_allgather_hccl_op_base_test A =
     steps
      [warn_op_flag,
       assign older_is_initdata_overflow,
       with_state (\<lambda>s. malloc_host_buf A (malloc_kSize s)),
       with_state (\<lambda>s. fill_host (host_buf s) (count (data s)) (rank_id s + 1)),
       with_state (\<lambda>s. host_to_send A (malloc_kSize s)),
       when_do (\<lambda>s. check s = 1) (allgather_init_buf_val A),
       older_timed_run A (HcclAllGather A),
       measured A (\<lambda>time. steps
         [when_do (\<lambda>s. check s = 1) (allgather_check_buf_result A),
          allgather_cal_execution_time time])]"

definition older_allgather_vtable :: "api \<Rightarrow> ('a HcclOpBaseTest_scheme) vtable" where
  "older_allgather_vtable A =
     \<lparr>hccl_op_base_test = older_allgather_hccl_op_base_test A,
      init_malloc_Ksize_by_data = allgather_init_malloc_Ksize_by_data,
      init_send_recv_size_by_data = allgather_init_send_recv_size_by_data\<rparr>"

subsection \<open>Allgatherv\<close>

definition older_allgatherv_hccl_op_base_test :: "api \<Rightarrow> 'a HcclOpBaseAllgatherVTest_scheme cmd" where
  "older_allgatherv_hccl_op_base_test A =
     steps
      [warn_op_flag,
       malloc_recv_buf A,
       assign older_is_initdata_overflow,
       with_state (\<lambda>s. malloc_host_buf A (malloc_kSize s)),
       with_state (\<lambda>s. fill_host (host_buf s) (count (data s)) (rank_id s + 1)),
       with_state (\<lambda>s. host_to_send A (malloc_kSize s)),
       when_do (\<lambda>s. check s = 1) (allgatherv_init_buf_val A),
       older_timed_run A (HcclAllGatherV A),
       measured A (\<lambda>time. steps
         [when_do (\<lambda>s. check s = 1) (allgatherv_check_buf_result A),
          allgatherv_cal_execution_time time,
          free_recv_buf])]"

definition older_allgatherv_vtable :: "api \<Rightarrow> ('a HcclOpBaseAllgatherVTest_scheme) vtable" where
  "older_allgatherv_vtable A =
     \<lparr>hccl_op_base_test = older_allgatherv_hccl_op_base_test A,
      init_malloc_Ksize_by_data = allgatherv_init_malloc_Ksize_by_data,
      init_send_recv_size_by_data = allgatherv_init_send_recv_size_by_data\<rparr>"

subsection \<open>Scatter\<close>

definition older_scatter_hccl_op_base_test :: "api \<Rightarrow> 'a HcclOpBaseTest_scheme cmd" where
  "older_scatter_hccl_op_base_test A =
     steps
      [warn_op_flag,
       assign older_is_initdata_overflow,
       with_state (\<lambda>s. malloc_host_buf A (malloc_kSize s * ranks s)),
       when_do (\<lambda>s. rank_id s = root_rank s)
         (steps
           [fill_rank_blocks host_buf,
            with_state (\<lambda>s. host_to_send A (malloc_kSize s * ranks s))]),
       when_do (\<lambda>s. check s = 1) (scatter_init_buf_val A),
       older_timed_run A (HcclScatter A),
       measured A (\<lambda>time. steps
         [when_do (\<lambda>s. check s = 1) (scatter_check_buf_result A),
          scatter_cal_execution_time time])]"

definition older_scatter_vtable :: "api \<Rightarrow> ('a HcclOpBaseTest_scheme) vtable" where
  "older_scatter_vtable A =
     \<lparr>hccl_op_base_test = older_scatter_hccl_op_base_test A,
      init_malloc_Ksize_by_data = scatter_init_malloc_Ksize_by_data,
      init_send_recv_size_by_data = scatter_init_send_recv_size_by_data\<rparr>"

subsection \<open>Alltoall\<close>

definition older_alltoall_hccl_op_base_test :: "api \<Rightarrow> 'a HcclOpBaseAlltoallTest_scheme cmd" where
  "older_alltoall_hccl_op_base_test A =
     steps
      [warn_op_flag,
       assign older_is_initdata_overflow,
       with_state (\<lambda>s. malloc_host_buf A (malloc_kSize s)),
       with_state (\<lambda>s. fill_alternating_pattern A (host_buf s) (malloc_kSize s)),
       with_state (\<lambda>s. host_to_send A (malloc_kSize s)),
       update_opt (\<lambda>s. if ranks s = 0 then None
         else Some (s\<lparr>sendCount := count (data s) div ranks s, recvCount := count (data s) div ranks s\<rparr>)),
       older_timed_run A (HcclAlltoAll A),
       measured A (\<lambda>time. steps
         [when_do (\<lambda>s. check s = 1) (alltoall_check_buf_result A),
          alltoall_cal_execution_time time])]"

definition older_alltoall_vtable :: "api \<Rightarrow> ('a HcclOpBaseAlltoallTest_scheme) vtable" where
  "older_alltoall_vtable A =
     \<lparr>hccl_op_base_test = older_alltoall_hccl_op_base_test A,
      init_malloc_Ksize_by_data = alltoall_init_malloc_Ksize_by_data,
      init_send_recv_size_by_data = alltoall_init_send_recv_size_by_data\<rparr>"

subsection \<open>Alltoallv\<close>

definition older_alltoallv_hccl_op_base_test :: "api \<Rightarrow> 'a HcclOpBaseAlltoallvTest_scheme cmd" where
  "older_alltoallv_hccl_op_base_test A =
     steps
      [warn_op_flag,
       assign older_is_initdata_overflow,
       malloc_send_recv_buf A,
       with_state (\<lambda>s. malloc_host_buf A (malloc_kSize s)),
       with_state (\<lambda>s. fill_host (host_buf s) (count (data s)) (rank_id s + 1)),
       with_state (\<lambda>s. host_to_send A (malloc_kSize s)),
       older_timed_run A (HcclAlltoAllV A),
       measured A (\<lambda>time. steps
         [when_do (\<lambda>s. check s = 1) (alltoallv_check_buf_result A),
          alltoallv_cal_execution_time time,
          free_send_recv_buf])]"

definition older_alltoallv_vtable :: "api \<Rightarrow> ('a HcclOpBaseAlltoallvTest_scheme) vtable" where
  "older_alltoallv_vtable A =
     \<lparr>hccl_op_base_test = older_alltoallv_hccl_op_base_test A,
      init_malloc_Ksize_by_data = alltoallv_init_malloc_Ksize_by_data,
      init_send_recv_size_by_data = alltoallv_init_send_recv_size_by_data\<rparr>"

subsection \<open>Alltoallvc\<close>

definition older_alltoallvc_hccl_op_base_test :: "api \<Rightarrow> 'a HcclOpBaseAlltoallvcTest_scheme cmd" where
  "older_alltoallvc_hccl_op_base_test A =
     steps
      [warn_op_flag,
       assign older_is_initdata_overflow,
       vc_malloc_send_recv_buf A,
       with_state (\<lambda>s. malloc_host_buf A (malloc_kSize s)),
       with_state (\<lambda>s. fill_host (host_buf s) (count (data s)) (rank_id s + 1)),
       with_state (\<lambda>s. host_to_send A (malloc_kSize s)),
       older_timed_run A (HcclAlltoAllVC A),
       measured A (\<lambda>time. steps
         [when_do (\<lambda>s. check s = 1) (alltoallvc_check_buf_result A),
          alltoallvc_cal_execution_time time,
          vc_free_send_recv_buf])]"

definition older_alltoallvc_vtable :: "api \<Rightarrow> ('a HcclOpBaseAlltoallvcTest_scheme) vtable" where
  "older_alltoallvc_vtable A =
     \<lparr>hccl_op_base_test = older_alltoallvc_hccl_op_base_test A,
      init_malloc_Ksize_by_data = alltoallvc_init_malloc_Ksize_by_data,
      init_send_recv_size_by_data = alltoallvc_init_send_recv_size_by_data\<rparr>"

subsection \<open>What the older expected value leaves alone\<close>

lemma older_functionReduceMap_entry:
  "older_functionReduceMap t = None \<or> older_functionReduceMap t = functionReduceMap t"
  by (cases t) (simp_all add: older_routines)

lemma older_hccl_reduce_check_buf_init_length:
  assumes "older_hccl_reduce_check_buf_init m base n t op v k = Some m'"
  shows "length m' = length m"
proof (cases "Option.bind (dtype_of t) older_functionReduceMap")
  case (Some f)
  then obtain e where e: "dtype_of t = Some e" "older_functionReduceMap e = Some f" by (cases "dtype_of t") simp_all
  with older_functionReduceMap_entry [of e] assms Some have "hccl_reduce_check_buf_init m base n t op v k = Some m'"
    by (simp add: older_hccl_reduce_check_buf_init_def hccl_reduce_check_buf_init_def)
  then show ?thesis by (rule hccl_reduce_check_buf_init_length)
qed (use assms in \<open>simp add: older_hccl_reduce_check_buf_init_def\<close>)

context quiet_object
begin

lemma older_fill_expected [preserve_intros]: "preserves I (older_fill_expected p n v)"
  unfolding older_fill_expected_def by (intro preserve_intros update_host) (rule older_hccl_reduce_check_buf_init_length)

end

end
