(* ===== verification/Agreement.thy ===== *)
theory Agreement
  imports Older_Tests
begin

text \<open>
  Two commands that behave the same from every state of an invariant, which they keep: the rules
  for the statements of the language, and the tests of the two releases.
\<close>

subsection \<open>Commands that agree under an invariant\<close>

definition same :: "('s \<Rightarrow> bool) \<Rightarrow> 's cmd \<Rightarrow> 's cmd \<Rightarrow> bool" where
  "same I c d \<longleftrightarrow> preserves I c \<and> (\<forall>s. I s \<longrightarrow> c s = d s)"

named_theorems same_intros "rules for \<open>same\<close>"

lemma sameD: "same I c d \<Longrightarrow> I s \<Longrightarrow> c s = d s"
  by (simp add: same_def)

lemma same_preserves: "same I c d \<Longrightarrow> preserves I c"
  by (simp add: same_def)

lemma same_refl: "preserves I c \<Longrightarrow> same I c c"
  by (simp add: same_def)

lemma same_Nil [same_intros]: "same I (steps []) (steps [])"
  by (simp add: same_def preserves_def)

lemma same_Cons [same_intros]:
  assumes "same I c d" "same I (steps cs) (steps ds)"
  shows "same I (steps (c # cs)) (steps (d # ds))"
proof -
  have "preserves I (steps (c # cs))"
    using assms by (intro preserves_Cons same_preserves)
  moreover have "steps (c # cs) s = steps (d # ds) s" if "I s" for s
  proof -
    have "c s = d s" using sameD [OF assms(1) that] .
    moreover have "steps cs t = steps ds t" if "c s = Some (r, t)" for r t
      using preservesD [OF same_preserves [OF assms(1)] \<open>I s\<close> that] assms(2) by (rule sameD [rotated])
    ultimately show ?thesis by (auto simp: steps.simps split: option.splits)
  qed
  ultimately show ?thesis by (simp add: same_def)
qed

text \<open>A statement that does nothing under the invariant.\<close>

lemma same_drop:
  assumes "\<And>s. I s \<Longrightarrow> c s = Some (0, s)" "same I (steps cs) (steps ds)"
  shows "same I (steps (c # cs)) (steps ds)"
  using assms by (auto simp: same_def preserves_def steps.simps split: if_splits)

lemma same_attempt [same_intros]:
  assumes "same I c d" "\<And>r. same I (f r) (g r)" "same I k l"
  shows "same I (attempt c f k) (attempt d g l)"
proof -
  have "preserves I (attempt c f k)"
    using assms by (intro preserves_attempt same_preserves)
  moreover have "attempt c f k s = attempt d g l s" if "I s" for s
  proof -
    have "c s = d s" using sameD [OF assms(1) that] .
    moreover have "I t" if "c s = Some (r, t)" for r t
      using preservesD [OF same_preserves [OF assms(1)] \<open>I s\<close> that] .
    ultimately show ?thesis
      using assms(2,3) by (auto simp: attempt_def same_def split: option.splits)
  qed
  ultimately show ?thesis by (simp add: same_def)
qed

lemma same_ignore [same_intros]: "same I c d \<Longrightarrow> same I (ignore c) (ignore d)"
  by (auto simp: same_def ignore_def intro: preserves_ignore)

lemma sameI: "preserves I c \<Longrightarrow> (\<And>s. I s \<Longrightarrow> c s = d s) \<Longrightarrow> same I c d"
  by (simp add: same_def)

lemma same_when [same_intros]: "same I c d \<Longrightarrow> same I (when_do b c) (when_do b d)"
  by (rule sameI) (auto simp: when_do_def intro: preserves_when_do same_preserves dest: sameD)

lemma same_if_else [same_intros]: "same I c d \<Longrightarrow> same I c' d' \<Longrightarrow> same I (if_else b c c') (if_else b d d')"
  by (rule sameI) (auto simp: if_else_def intro: preserves_if_else same_preserves dest: sameD)

lemma same_with_state [same_intros]: "(\<And>s. same I (c s) (d s)) \<Longrightarrow> same I (with_state c) (with_state d)"
  by (rule sameI) (auto simp: with_state_def intro: preserves_with_state same_preserves dest: sameD)

context quiet_frame
begin

lemma same_call_then [same_intros]:
  "(\<And>n. same I (k n) (l n)) \<Longrightarrow> same I (call_then A c k) (call_then A c l)"
  by (rule sameI) (auto simp: call_then_def Let_def logged intro: call_then same_preserves intro!: sameD [where I = I])

end

subsection \<open>The settings of the agreement\<close>

text \<open>
  No device timing, the default buffer size, no \<open>-s\<close>, no accelerator, and a data type of \<open>P\<close>.
\<close>

definition plain :: "(int \<Rightarrow> bool) \<Rightarrow> 'a HcclTest_scheme \<Rightarrow> bool" where
  "plain P s \<longleftrightarrow> P (dtype s) \<and> only_device_exec_time s = 0 \<and> hccl_buffsize s = 200 \<and> nslb_flag s = 0
     \<and> accelerator_config s = 0"

interpretation plain: settings_frame "plain P" for P
  by unfold_locales (simp_all add: plain_def)

text \<open>The types that the reductions of both releases can verify, or neither.\<close>

definition shared_type :: "int \<Rightarrow> bool" where
  "shared_type d \<longleftrightarrow> d \<notin> {dtype_value HCCL_DATA_TYPE_UINT64, dtype_value HCCL_DATA_TYPE_FP64}"

subsection \<open>The tests agree\<close>

lemma same_timed_run [same_intros]:
  fixes c :: "'a HcclOpBaseTest_scheme cmd"
  assumes "preserves (plain P) c"
  shows "same (plain P) (timed_run A limit c) (older_timed_run A c)"
proof -
  have flat: "same (plain P) (steps [a, b, d, e, w, f]) (steps [a, b, d, e, f])"
    if "\<And>s. plain P s \<Longrightarrow> w s = Some (0, s)" "same (plain P) a a" "same (plain P) b b" "same (plain P) d d"
      "same (plain P) e e" "same (plain P) f f" for a b d e w f :: "'a HcclOpBaseTest_scheme cmd"
    using that by (intro same_Cons same_drop same_Nil)
  show ?thesis
    unfolding timed_run_def older_timed_run_def
    by (rule same_drop, simp add: wait_for_sync_def cmd_defs plain_def, rule flat)
      (simp add: cmd_defs plain_def, (intro same_refl preserve_intros assms)+)
qed

lemma checkers_agree: "shared_type (dtype_value t) \<Longrightarrow> older_reduce_checker t = reduce_checker t"
  by (cases t) (simp_all add: shared_type_def older_routines del: dtype_value.simps)

lemma expected_agree:
  "shared_type (dtype_value t) \<Longrightarrow> older_functionReduceMap t = functionReduceMap t"
  by (cases t) (simp_all add: shared_type_def older_routines del: dtype_value.simps)

lemma same_compare [same_intros]:
  assumes "\<And>d. P d \<Longrightarrow> shared_type d"
  shows "same (plain P) (compare_result reduce_checker n)
    (compare_result older_reduce_checker n :: 'a HcclOpBaseTest_scheme cmd)"
proof (rule sameI)
  fix s :: "'a HcclOpBaseTest_scheme"
  assume "plain P s"
  then have "Option.bind (dtype_of (dtype s)) older_reduce_checker = Option.bind (dtype_of (dtype s)) reduce_checker"
    using assms by (cases "dtype_of (dtype s)") (auto simp: dtype_of_eq_Some plain_def intro!: checkers_agree)
  then show "compare_result reduce_checker n s = compare_result older_reduce_checker n s"
    by (simp add: compare_result_def)
qed (intro preserve_intros)

lemma same_fill_expected [same_intros]:
  assumes "\<And>d. P d \<Longrightarrow> shared_type d"
  shows "same (plain P) (fill_expected p n v) (older_fill_expected p n v :: 'a HcclOpBaseTest_scheme cmd)"
proof (rule sameI)
  fix s :: "'a HcclOpBaseTest_scheme"
  assume "plain P s"
  then have "Option.bind (dtype_of (dtype s)) older_functionReduceMap = Option.bind (dtype_of (dtype s)) functionReduceMap"
    using assms by (cases "dtype_of (dtype s)") (auto simp: dtype_of_eq_Some plain_def intro!: expected_agree)
  then show "fill_expected p n v s = older_fill_expected p n v s"
    by (simp add: fill_expected_def older_fill_expected_def with_state_def hccl_reduce_check_buf_init_def
        older_hccl_reduce_check_buf_init_def)
qed (intro preserve_intros)

interpretation plain_rsv: rsv_frame "plain P" for P
  by unfold_locales (simp_all add: plain_def)

interpretation plain_agv: agv_frame "plain P" for P
  by unfold_locales (simp_all add: plain_def)

interpretation plain_a2a: a2a_frame "plain P" for P
  by unfold_locales (simp_all add: plain_def)

interpretation plain_a2av: a2av_frame "plain P" for P
  by unfold_locales (simp_all add: plain_def)

interpretation plain_a2avc: a2avc_frame "plain P" for P
  by unfold_locales (simp_all add: plain_def)

lemma allreduce_same:
  assumes "\<And>d. P d \<Longrightarrow> shared_type d"
  shows "same (plain P) (allreduce_hccl_op_base_test A :: 'a HcclOpBaseTest_scheme cmd)
    (older_allreduce_hccl_op_base_test A)"
  unfolding allreduce_hccl_op_base_test_def older_allreduce_hccl_op_base_test_def
    measured_def allreduce_init_buf_val_def older_allreduce_init_buf_val_def allreduce_check_buf_result_def older_allreduce_check_buf_result_def
  by (intro same_intros plain.same_call_then assms same_refl preserve_intros) simp

lemma reduce_same:
  assumes "\<And>d. P d \<Longrightarrow> shared_type d"
  shows "same (plain P) (reduce_hccl_op_base_test A :: 'a HcclOpBaseTest_scheme cmd)
    (older_reduce_hccl_op_base_test A)"
  unfolding reduce_hccl_op_base_test_def older_reduce_hccl_op_base_test_def
    measured_def reduce_init_buf_val_def older_reduce_init_buf_val_def reduce_check_buf_result_def older_reduce_check_buf_result_def
  by (intro same_intros plain.same_call_then assms same_refl preserve_intros) simp

lemma reducescatter_same:
  assumes "\<And>d. P d \<Longrightarrow> shared_type d"
  shows "same (plain P) (reducescatter_hccl_op_base_test A :: 'a HcclOpBaseTest_scheme cmd)
    (older_reducescatter_hccl_op_base_test A)"
  unfolding reducescatter_hccl_op_base_test_def older_reducescatter_hccl_op_base_test_def
    measured_def reducescatter_init_buf_val_def older_reducescatter_init_buf_val_def
    reducescatter_check_buf_result_def older_reducescatter_check_buf_result_def
  by (intro same_intros plain.same_call_then assms same_refl preserve_intros) simp

lemma reducescatterv_same:
  assumes "\<And>d. P d \<Longrightarrow> shared_type d"
  shows "same (plain P) (reducescatterv_hccl_op_base_test A :: 'a HcclOpBaseReducescatterVTest_scheme cmd)
    (older_reducescatterv_hccl_op_base_test A)"
  unfolding reducescatterv_hccl_op_base_test_def older_reducescatterv_hccl_op_base_test_def
    measured_def reducescatterv_init_buf_val_def older_reducescatterv_init_buf_val_def
  by (intro same_intros plain.same_call_then assms same_refl preserve_intros) simp

lemma brocast_same:
  "same (plain P) (brocast_hccl_op_base_test A :: 'a HcclOpBaseTest_scheme cmd)
    (older_brocast_hccl_op_base_test A)"
  unfolding brocast_hccl_op_base_test_def older_brocast_hccl_op_base_test_def
    measured_def older_routines
  by (intro same_intros plain.same_call_then same_refl preserve_intros)

lemma allgather_same:
  "same (plain P) (allgather_hccl_op_base_test A :: 'a HcclOpBaseTest_scheme cmd)
    (older_allgather_hccl_op_base_test A)"
  unfolding allgather_hccl_op_base_test_def older_allgather_hccl_op_base_test_def
    measured_def older_routines
  by (intro same_intros plain.same_call_then same_refl preserve_intros) simp

lemma allgatherv_same:
  "same (plain P) (allgatherv_hccl_op_base_test A :: 'a HcclOpBaseAllgatherVTest_scheme cmd)
    (older_allgatherv_hccl_op_base_test A)"
  unfolding allgatherv_hccl_op_base_test_def older_allgatherv_hccl_op_base_test_def
    measured_def older_routines
  by (intro same_intros plain.same_call_then same_refl preserve_intros) simp

lemma scatter_same:
  "same (plain P) (scatter_hccl_op_base_test A :: 'a HcclOpBaseTest_scheme cmd)
    (older_scatter_hccl_op_base_test A)"
  unfolding scatter_hccl_op_base_test_def older_scatter_hccl_op_base_test_def
    measured_def older_routines
  by (intro same_intros plain.same_call_then same_refl preserve_intros) simp

lemma alltoall_same:
  "same (plain P) (alltoall_hccl_op_base_test A :: 'a HcclOpBaseAlltoallTest_scheme cmd)
    (older_alltoall_hccl_op_base_test A)"
  unfolding alltoall_hccl_op_base_test_def older_alltoall_hccl_op_base_test_def
    measured_def older_routines
  by (intro same_intros plain.same_call_then same_refl preserve_intros) (auto simp: plain_a2a.counts split: if_splits)

lemma alltoallv_same:
  "same (plain P) (alltoallv_hccl_op_base_test A :: 'a HcclOpBaseAlltoallvTest_scheme cmd)
    (older_alltoallv_hccl_op_base_test A)"
  unfolding alltoallv_hccl_op_base_test_def older_alltoallv_hccl_op_base_test_def
    measured_def older_routines
  by (intro same_intros plain.same_call_then same_refl preserve_intros) simp

lemma alltoallvc_same:
  "same (plain P) (alltoallvc_hccl_op_base_test A :: 'a HcclOpBaseAlltoallvcTest_scheme cmd)
    (older_alltoallvc_hccl_op_base_test A)"
  unfolding alltoallvc_hccl_op_base_test_def older_alltoallvc_hccl_op_base_test_def
    measured_def older_routines
  by (intro same_intros plain.same_call_then same_refl preserve_intros) simp

end
