(* ===== verification/Driver_Agreement.thy ===== *)
theory Driver_Agreement
  imports Agreement
begin

text \<open>
  The driver of \<open>hccl_test_common.cc\<close> behaves the same with two tests that behave the same.
\<close>

text \<open>The interface: a test, and another one that behaves the same under the property.\<close>

locale same_tests = settings_frame I + tester V
  for I :: "'a HcclOpBaseTest_scheme \<Rightarrow> bool" and V :: "('a HcclOpBaseTest_scheme) vtable" +
  fixes W :: "('a HcclOpBaseTest_scheme) vtable"
  assumes same_op: "same I (hccl_op_base_test V) (hccl_op_base_test W)"
    and same_sizes: "init_malloc_Ksize_by_data W = init_malloc_Ksize_by_data V"
      "init_send_recv_size_by_data W = init_send_recv_size_by_data V"
begin

lemma get_buff_size_keeps: "get_buff_size V s = Some (b, t) \<Longrightarrow> I t \<longleftrightarrow> I s"
  by (auto simp: get_buff_size_def Let_def new_sizes init_data_count_def split: option.splits HcclDataType.splits
      dest!: size_frame)

lemma get_buff_size_same: "get_buff_size W s = get_buff_size V s"
  unfolding get_buff_size_def same_sizes ..

lemma size_body_keep:
  assumes "size_body A V s = Some (x, t)" "I s"
  shows "I t"
proof (rule size_body_keeps [OF assms(1)])
  show "I u" if "get_buff_size V s = Some (b, u)" for b u
    using get_buff_size_keeps [OF that] assms(2) by simp
qed (auto intro!: preserve_intros same_preserves [OF same_op] simp: stable)

lemma size_body_same:
  assumes "I s"
  shows "size_body A W s = size_body A V s"
proof (cases "get_buff_size V s")
  case (Some x)
  then obtain m n s1 where x: "get_buff_size V s = Some ((m, n), s1)" by (cases x) auto
  then have "I s1" using assms by (simp add: get_buff_size_keeps)
  then have "I s2" if "steps [prepare_zero_copy A m n, alloc_hccl_send_recv_buffer A m n] s1 = Some (r, s2)" for r s2
    using that by (rule steps_keep [rotated 2]) (intro preserve_intros)
  then have "hccl_op_base_test W s2 = hccl_op_base_test V s2"
    if "steps [prepare_zero_copy A m n, alloc_hccl_send_recv_buffer A m n] s1 = Some (r, s2)" for r s2
    using sameD [OF same_op] that by metis
  then show ?thesis
    using x by (auto simp: size_body_def get_buff_size_same simp del: steps.simps split: option.splits)
qed (simp add: size_body_def get_buff_size_same)

lemma size_loop_same: "I s \<Longrightarrow> size_loop A W s = size_loop A V s"
  by (rule size_loop_cong [where I = I]) (auto simp: size_body_same new_sizes dest: size_body_keep)

lemma opbase_test_same:
  "same I (opbase_test_by_data_size A V) (opbase_test_by_data_size A W)"
proof (rule sameI)
  fix s
  assume "I s"
  then have "I (start_at_min s)" by (simp add: start_at_min_def new_sizes)
  then show "opbase_test_by_data_size A V s = opbase_test_by_data_size A W s"
    by (simp add: opbase_test_by_data_size_def size_loop_same)
next
  show "preserves I (opbase_test_by_data_size A V)"
  proof (rule preservesI)
    fix s r t
    assume "I s" and run: "opbase_test_by_data_size A V s = Some (r, t)"
    then obtain e u where l: "size_loop A V (start_at_min s) = Some (e, u)"
      by (auto simp: opbase_test_by_data_size_def split: option.splits)
    have "I (snd (e, u))"
      by (rule size_loop_keeps [OF l]) (use \<open>I s\<close> size_body_keep in \<open>auto simp: start_at_min_def new_sizes\<close>)
    moreover have "preserves I (steps [when_do enable_zero_copy (release_handles A), ret q])" for q
      by (intro preserve_intros)
    ultimately show "I t"
      using run l preservesD by (fastforce simp: opbase_test_by_data_size_def split: loop_exit.splits)
  qed
qed

lemma plan_reserve_keeps: "plan_reserve A V s = Some (n, t) \<Longrightarrow> I s \<Longrightarrow> I t"
  by (auto simp: plan_reserve_def Let_def logged stable new_sizes split: option.splits if_splits dest!: get_buff_size_keeps)

lemma plan_reserve_same: "plan_reserve A W s = plan_reserve A V s"
  unfolding plan_reserve_def get_buff_size_same ..

text \<open>The rest of \<open>start_test\<close> may differ between the two drivers as well.\<close>

lemma planned_same:
  assumes "\<And>s. c s = (if enable_zero_copy s then (case plan_reserve A V s of
      None \<Rightarrow> None | Some (n, s1) \<Rightarrow> zc n s1) else run s)"
    and "\<And>s. c' s = (if enable_zero_copy s then (case plan_reserve A V s of
      None \<Rightarrow> None | Some (n, s1) \<Rightarrow> zc' n s1) else run' s)"
    and zc: "\<And>n. same I (zc n) (zc' n)" and run: "same I run run'"
  shows "same I c c'"
proof (rule sameI)
  show "c s = c' s" if "I s" for s
  proof (cases "plan_reserve A V s")
    case (Some x)
    then obtain n t where x: "plan_reserve A V s = Some (n, t)" by (cases x) simp
    show ?thesis
      unfolding assms(1) [of s] assms(2) [of s] x
      using sameD [OF zc plan_reserve_keeps [OF x that]] sameD [OF run that] by simp
  qed (use sameD [OF run that] in \<open>simp add: assms(1) [of s] assms(2) [of s]\<close>)
  show "preserves I c"
  proof (rule preservesI)
    fix s r t
    assume I: "I s" and "c s = Some (r, t)"
    then consider "run s = Some (r, t)" | n u where "plan_reserve A V s = Some (n, u)" "zc n u = Some (r, t)"
      unfolding assms(1) [of s] by (auto split: if_splits option.splits)
    then show "I t"
      by cases (erule preservesD [OF same_preserves [OF run] I],
        erule preservesD [OF same_preserves [OF zc] plan_reserve_keeps [OF _ I], rotated])
  qed
qed

lemma run_communicator_same: "same I (run_communicator A V n) (run_communicator A W n)"
  unfolding run_communicator_def by (intro same_intros opbase_test_same same_refl preserve_intros)

lemma start_test_same: "same I (start_test A V) (start_test A W)"
proof (rule planned_same)
  show "start_test A W s = (if enable_zero_copy s then (case plan_reserve A V s of
        None \<Rightarrow> None
      | Some (n, s1) \<Rightarrow> steps [check_alloc_memory_size A n,
          attempt (invoke A (Acl (ReserveMemAddress n)) (\<lambda>s. Some
             (alloc A (Acl (ReserveMemAddress n)) Reserved (unat n) (\<lambda>p s. s\<lparr>vir_ptr := p\<rparr>) s)))
           (\<lambda>_. steps [say ''aclrtReserveMemAddress failed.'', error_device_init A])
           (run_communicator A W n)] s1)
      else run_communicator A W 0 s)" for s
    unfolding start_test_def plan_reserve_same ..
qed (unfold start_test_def, rule refl, (intro same_intros run_communicator_same same_refl preserve_intros)+)

end

end
