(* ===== verification/Release_Agreement.thy ===== *)
theory Release_Agreement
  imports Driver_Agreement Exit_Status
begin

text \<open>
  The two releases side by side: where the newer program behaves as the older one, and the status
  that only the older one checks.
\<close>

subsection \<open>The driver\<close>

text \<open>None of the options \<open>-a\<close>, \<open>-h\<close>, \<open>-s\<close> and \<open>-t\<close>, and data types of \<open>P\<close> only.\<close>

definition quiet_options :: "(int \<Rightarrow> bool) \<Rightarrow> (char \<times> string) list \<Rightarrow> bool" where
  "quiet_options P opts \<longleftrightarrow> list_all (\<lambda>(opt, optarg).
     opt \<notin> {CHR ''a'', CHR ''h'', CHR ''s'', CHR ''t''} \<and> (opt = CHR ''d'' \<longrightarrow> P (get_hccl_dtype_from_str optarg))) opts"

definition comm_never_fails :: "api \<Rightarrow> bool" where
  "comm_never_fails A \<longleftrightarrow> (\<forall>log n info r. status A log (Hccl (CommInitRootInfo n info r)) = 0)"

lemma parse_opt_same:
  assumes "opt \<notin> {CHR ''a'', CHR ''h'', CHR ''s'', CHR ''t''}" "opt = CHR ''d'' \<longrightarrow> P (get_hccl_dtype_from_str optarg)"
  shows "same (plain P) (parse_opt A opt optarg :: 'a HcclOpBaseTest_scheme cmd) (older_parse_opt A opt optarg)"
proof -
  have "parse_opt A opt optarg = (older_parse_opt A opt optarg :: 'a HcclOpBaseTest_scheme cmd)"
    using assms by (simp add: parse_opt_def older_parse_opt_def older_shared)
  moreover have "preserves (plain P) (parse_opt A opt optarg :: 'a HcclOpBaseTest_scheme cmd)"
    using assms
    by (simp add: parse_opt_def) (intro conjI impI preserve_intros; auto simp: plain_def)
  ultimately show ?thesis by (simp add: same_def)
qed

lemma parse_cmd_line_same:
  assumes "quiet_options P opts"
  shows "same (plain P) (parse_cmd_line A opts rest :: 'a HcclOpBaseTest_scheme cmd) (older_parse_cmd_line A opts rest)"
  unfolding parse_cmd_line_def older_parse_cmd_line_def
  using assms
proof (induction opts)
  case Nil
  show ?case by (auto intro!: same_intros same_refl preserve_intros)
next
  case (Cons x opts)
  then show ?case
    by (cases x) (auto simp: quiet_options_def intro!: same_intros parse_opt_same)
qed

lemma check_data_count_plain [preserve_intros]:
  "preserves (plain P) (check_data_count :: 'a HcclOpBaseTest_scheme cmd)"
  unfolding check_data_count_def
  by (intro preserve_intros; auto simp: plain_def set_step_def align_data_def Let_def split: option.splits if_splits)

lemma check_cmd_line_same:
  "same (plain P) (check_cmd_line :: 'a HcclOpBaseTest_scheme cmd) older_check_cmd_line"
  unfolding check_cmd_line_def older_check_cmd_line_def older_check_data_count_def
  by (intro same_intros same_refl preserve_intros same_drop)
    (simp add: check_only_device_exec_time_def cmd_defs plain_def)

lemma get_mpi_proc_plain [preserve_intros]:
  "preserves (plain P) (get_mpi_proc A :: 'a HcclOpBaseTest_scheme cmd)"
  unfolding get_mpi_proc_def by (intro preserve_intros; auto simp: plain_def split: if_splits)

lemma device_init_same:
  "same (plain P) (device_init A :: 'a HcclOpBaseTest_scheme cmd) (older_device_init A)"
  unfolding device_init_def older_device_init_def older_set_device_sat_mode_def
  by (intro same_intros same_drop same_refl preserve_intros; simp add: plain_def cmd_defs)

lemma get_env_resource_same:
  assumes "getenv A ''HCCL_BUFFSIZE'' = None"
  shows "same (plain P) (get_env_resource A :: 'a HcclOpBaseTest_scheme cmd) (older_get_env_resource A)"
proof -
  have digits: "preserves (plain P) (require_digits e m :: 'a HcclOpBaseTest_scheme cmd)" for e m
    unfolding require_digits_def by (intro preserve_intros)
  have noop: "assign (\<lambda>s. s\<lparr>hccl_buffsize := 200\<rparr>) s = Some (0, s)" if "plain P s" for s :: "'a HcclOpBaseTest_scheme"
    using that by (simp add: cmd_defs plain_def)
  have drop: "same I (steps [c, d, e]) (steps [c, e])"
    if "same I c c" "same I e e" "\<And>s. I s \<Longrightarrow> d s = Some (0, s)" for I :: "'b \<Rightarrow> bool" and c d e
    using that by (intro same_intros same_drop)
  show ?thesis
    unfolding get_env_resource_def older_get_env_resource_def assms option.case
    by (intro drop same_refl preserve_intros digits noop; simp add: plain_def)
qed

lemma init_hcclComm_same:
  assumes "comm_never_fails A"
  shows "same (plain P) (init_hcclComm A :: 'a HcclOpBaseTest_scheme cmd) (older_init_hcclComm A)"
proof -
  have "same (plain P) (if_else (\<lambda>s. nslb_flag s = 1) (init_nslb A) (ignore (init_hcclComm_without_nslb A)))
      (if_else (\<lambda>s. nslb_flag s = 1) (older_init_nslb A) (CommInit A) :: 'a HcclOpBaseTest_scheme cmd)"
    (is "same (plain P) ?new ?old")
  proof -
    have eq: "?new s = CommInit A s" "?old s = CommInit A s" if "plain P s" for s
      using that assms
      by (simp_all add: cmd_defs plain_def init_hcclComm_without_nslb_def CommInit_def call_value_def invoke_def
          comm_never_fails_def Let_def)
    moreover have "preserves (plain P) ?new"
      using plain.CommInit(1) [where A = A] eq(1) unfolding preserves_def by metis
    ultimately show ?thesis by (simp add: same_def)
  qed
  then show ?thesis
    unfolding init_hcclComm_def older_init_hcclComm_def older_share_root_info_def
    by (intro same_Cons same_Nil same_refl preserve_intros)
qed

lemma destory_hcclComm_same:
  "same (plain P) (destory_hcclComm A :: 'a HcclOpBaseTest_scheme cmd) (older_destory_hcclComm A)"
  unfolding destory_hcclComm_def older_destory_hcclComm_def
  by (rule same_drop) (simp add: cmd_defs plain_def, intro same_refl preserve_intros)

lemma error_reserve_memAddress_same:
  "same (plain P) (error_reserve_memAddress A :: 'a HcclOpBaseTest_scheme cmd) (older_error_reserve_memAddress A)"
  unfolding error_reserve_memAddress_def older_error_reserve_memAddress_def error_device_init_def
  by (intro same_intros same_refl preserve_intros destory_hcclComm_same)

lemma steps_flat: "steps [c, steps cs] = steps (c # cs)"
  by (rule ext) (simp add: steps.simps(2) split: option.split)

lemma error_reserve_lpcMemory_same:
  "same (plain P) (error_reserve_lpcMemory A :: 'a HcclOpBaseTest_scheme cmd) (older_error_reserve_lpcMemory A)"
proof -
  have "error_reserve_lpcMemory A = (steps
      [when_do enable_zero_copy
         (with_state (\<lambda>s. ignore (call A (Hccl (CommUnsetMemoryRange (hccl_comm s) (vir_ptr s)))))),
       with_state (\<lambda>s. ignore (call A (Hccl (CommDestroy (hccl_comm s))))),
       error_reserve_memAddress A] :: 'a HcclOpBaseTest_scheme cmd)"
    by (simp only: error_reserve_lpcMemory_def error_destory_comm_def steps_flat)
  then show ?thesis
    unfolding older_error_reserve_lpcMemory_def
    by (simp only:) (intro same_intros same_refl preserve_intros error_reserve_memAddress_same)
qed

text \<open>
  The interface of the comparison: a test of the newer release and its counterpart in the older one.
\<close>

locale twins = tester V for V :: "('a HcclOpBaseTest_scheme) vtable" +
  fixes W :: "('a HcclOpBaseTest_scheme) vtable" and P :: "int \<Rightarrow> bool"
  assumes same_op: "same (plain P) (hccl_op_base_test V) (hccl_op_base_test W)"
    and same_sizes: "init_malloc_Ksize_by_data W = init_malloc_Ksize_by_data V"
      "init_send_recv_size_by_data W = init_send_recv_size_by_data V"

sublocale twins \<subseteq> both: same_tests "plain P" V W
  by (intro same_tests.intro same_tests_axioms.intro plain.settings_frame_axioms tester_axioms same_op same_sizes)

context twins
begin

lemma run_communicator_same:
  assumes "comm_never_fails A"
  shows "same (plain P) (run_communicator A V n) (older_run_communicator A W n)"
  unfolding run_communicator_def older_run_communicator_def older_opbase_test_by_data_size_def
  by (intro same_intros init_hcclComm_same assms error_reserve_memAddress_same error_reserve_lpcMemory_same
      both.opbase_test_same same_refl preserve_intros)

lemma plan_reserve_same: "older_plan_reserve A W s = plan_reserve A V s"
  unfolding older_plan_reserve_def plan_reserve_def older_shared both.get_buff_size_same ..

lemma start_test_same:
  assumes "comm_never_fails A"
  shows "same (plain P) (start_test A V) (older_start_test A W)"
proof (rule both.planned_same)
  show "older_start_test A W s = (if enable_zero_copy s then (case plan_reserve A V s of
        None \<Rightarrow> None
      | Some (n, s1) \<Rightarrow> steps [check_alloc_memory_size A n,
          attempt (invoke A (Acl (ReserveMemAddress n)) (\<lambda>s. Some
             (alloc A (Acl (ReserveMemAddress n)) Reserved (unat n) (\<lambda>p s. s\<lparr>vir_ptr := p\<rparr>) s)))
           (\<lambda>_. steps [say ''aclrtReserveMemAddress failed.'', older_destory_hcclComm A])
           (older_run_communicator A W n)] s1)
      else older_run_communicator A W 0 s)" for s
    unfolding older_start_test_def plan_reserve_same older_shared ..
qed (unfold start_test_def, rule refl, unfold error_device_init_def,
    (intro same_intros run_communicator_same destory_hcclComm_same assms same_refl preserve_intros)+)

end

lemma older_labels:
  "older_hccltesterr3 = hccltesterr3" "older_hccltesterr2 = hccltesterr2" "older_hccltesterr1 = hccltesterr1"
  by (simp_all add: fun_eq_iff older_hccltesterr3_def hccltesterr3_def older_hccltesterr2_def hccltesterr2_def
      older_hccltesterr1_def hccltesterr1_def older_shared)

context twins
begin

lemma run_test_same:
  assumes "getenv A ''HCCL_BUFFSIZE'' = None" "comm_never_fails A"
  shows "same (plain P) (run_test A V) (older_run_test A W)"
  unfolding run_test_def older_run_test_def older_labels older_get_mpi_proc_def older_set_env_resource_def
  by (intro same_intros check_cmd_line_same device_init_same get_env_resource_same start_test_same assms
      same_refl preserve_intros)

lemma main_same:
  assumes "\<And>s. plain P (init_opbase_ptr s)" "quiet_options P opts"
    and "getenv A ''HCCL_BUFFSIZE'' = None" "comm_never_fails A"
  shows "main A init_opbase_ptr V opts rest s = older_main A init_opbase_ptr W opts rest s"
proof -
  have parsed: "(case parse_cmd_line A opts rest s of
       None \<Rightarrow> None
     | Some (r, s') \<Rightarrow>
         if r = 1 then hccltesterr2 A 0 s'
         else if r = - 1 then steps [say ''This is an error in parse_cmd_line.'', hccltesterr2 A (- 1)] s'
         else run_test A V s') =
      (case older_parse_cmd_line A opts rest s of
       None \<Rightarrow> None
     | Some (r, s') \<Rightarrow>
         if r = 1 then hccltesterr2 A 0 s'
         else if r = - 1 then steps [say ''This is an error in parse_cmd_line.'', hccltesterr2 A (- 1)] s'
         else older_run_test A W s')" if "plain P s" for s
  proof (cases "parse_cmd_line A opts rest s")
    case (Some x)
    then obtain r t where x: "parse_cmd_line A opts rest s = Some (r, t)" by (cases x) simp
    note parse = parse_cmd_line_same [OF assms(2), of A rest]
    from x have "plain P t" using preservesD [OF same_preserves [OF parse] that] by blast
    from sameD [OF run_test_same [OF assms(3,4)] this] x sameD [OF parse that] show ?thesis by simp
  qed (use sameD [OF parse_cmd_line_same [OF assms(2), of A rest] that] in simp)
  show ?thesis
    unfolding main_def older_main_def older_labels
    by (rule fun_cong [where x = s], rule arg_cong [where f = steps])
      (simp add: fun_eq_iff attempt_def steps.simps(2) assign_def parsed assms(1) split: option.splits)
qed

end

subsection \<open>Where the releases agree\<close>

lemma init_plain:
  assumes "P (dtype_value HCCL_DATA_TYPE_FP32)"
  shows "plain P (allreduce_init_opbase_ptr s)"
    "plain P (reduce_init_opbase_ptr s)"
    "plain P (reducescatter_init_opbase_ptr s)"
    "plain P (reducescatterv_init_opbase_ptr s1)"
    "plain P (brocast_init_opbase_ptr s)"
    "plain P (allgather_init_opbase_ptr s)"
    "plain P (allgatherv_init_opbase_ptr s2)"
    "plain P (scatter_init_opbase_ptr s)"
    "plain P (alltoall_init_opbase_ptr s3)"
    "plain P (alltoallv_init_opbase_ptr s4)"
    "plain P (alltoallvc_init_opbase_ptr s5)"
  using assms
  by (simp_all add: plain_def construct_HcclOpBaseTest_def construct_HcclTest_def
      allreduce_init_opbase_ptr_def reduce_init_opbase_ptr_def reducescatter_init_opbase_ptr_def
      reducescatterv_init_opbase_ptr_def brocast_init_opbase_ptr_def allgather_init_opbase_ptr_def
      allgatherv_init_opbase_ptr_def scatter_init_opbase_ptr_def alltoall_init_opbase_ptr_def
      alltoallv_init_opbase_ptr_def alltoallvc_init_opbase_ptr_def)

interpretation twin_allreduce: twins "allreduce_vtable A" "older_allreduce_vtable A" shared_type for A
  by (intro twins.intro twins_axioms.intro allreduce.tester_axioms)
    (simp_all add: allreduce_vtable_def older_allreduce_vtable_def allreduce_same)

interpretation twin_reduce: twins "reduce_vtable A" "older_reduce_vtable A" shared_type for A
  by (intro twins.intro twins_axioms.intro reduce_test.tester_axioms)
    (simp_all add: reduce_vtable_def older_reduce_vtable_def reduce_same)

interpretation twin_reducescatter: twins "reducescatter_vtable A" "older_reducescatter_vtable A" shared_type for A
  by (intro twins.intro twins_axioms.intro reducescatter.tester_axioms)
    (simp_all add: reducescatter_vtable_def older_reducescatter_vtable_def reducescatter_same)

interpretation twin_reducescatterv: twins "reducescatterv_vtable A" "older_reducescatterv_vtable A" shared_type for A
  by (intro twins.intro twins_axioms.intro reducescatterv.tester_axioms)
    (simp_all add: reducescatterv_vtable_def older_reducescatterv_vtable_def reducescatterv_same)

interpretation twin_brocast: twins "brocast_vtable A" "older_brocast_vtable A" "\<lambda>_. True" for A
  by (intro twins.intro twins_axioms.intro brocast.tester_axioms)
    (simp_all add: brocast_vtable_def older_brocast_vtable_def brocast_same)

interpretation twin_allgather: twins "allgather_vtable A" "older_allgather_vtable A" "\<lambda>_. True" for A
  by (intro twins.intro twins_axioms.intro allgather.tester_axioms)
    (simp_all add: allgather_vtable_def older_allgather_vtable_def allgather_same)

interpretation twin_allgatherv: twins "allgatherv_vtable A" "older_allgatherv_vtable A" "\<lambda>_. True" for A
  by (intro twins.intro twins_axioms.intro allgatherv.tester_axioms)
    (simp_all add: allgatherv_vtable_def older_allgatherv_vtable_def allgatherv_same)

interpretation twin_scatter: twins "scatter_vtable A" "older_scatter_vtable A" "\<lambda>_. True" for A
  by (intro twins.intro twins_axioms.intro scatter.tester_axioms)
    (simp_all add: scatter_vtable_def older_scatter_vtable_def scatter_same)

interpretation twin_alltoall: twins "alltoall_vtable A" "older_alltoall_vtable A" "\<lambda>_. True" for A
  by (intro twins.intro twins_axioms.intro alltoall.tester_axioms)
    (simp_all add: alltoall_vtable_def older_alltoall_vtable_def alltoall_same)

interpretation twin_alltoallv: twins "alltoallv_vtable A" "older_alltoallv_vtable A" "\<lambda>_. True" for A
  by (intro twins.intro twins_axioms.intro alltoallv.tester_axioms)
    (simp_all add: alltoallv_vtable_def older_alltoallv_vtable_def alltoallv_same)

interpretation twin_alltoallvc: twins "alltoallvc_vtable A" "older_alltoallvc_vtable A" "\<lambda>_. True" for A
  by (intro twins.intro twins_axioms.intro alltoallvc.tester_axioms)
    (simp_all add: alltoallvc_vtable_def older_alltoallvc_vtable_def alltoallvc_same)

text \<open>
  C6.  The newer release is a conservative extension of the older one.  Without the options \<open>-a\<close>,
  \<open>-s\<close>, \<open>-t\<close> and \<open>-h\<close>, without \<open>HCCL_BUFFSIZE\<close>, and with a library that creates communicators, each of
  the eleven programs of \<open>build/hccl_test_probe\<close> makes the same calls in the same order, prints the
  same and returns the same as the program of \<open>build/hccl_test\<close>, in every environment and whatever
  else fails; for the reductions if no option selects \<open>uint64\<close> or \<open>fp64\<close>.
\<close>
theorem releases_agree:
  assumes "quiet_options (\<lambda>_. True) opts" "getenv A ''HCCL_BUFFSIZE'' = None" "comm_never_fails A"
  shows "(quiet_options shared_type opts \<longrightarrow>
     main A allreduce_init_opbase_ptr (allreduce_vtable A) opts rest s =
       older_main A allreduce_init_opbase_ptr (older_allreduce_vtable A) opts rest s \<and>
     main A reduce_init_opbase_ptr (reduce_vtable A) opts rest s =
       older_main A reduce_init_opbase_ptr (older_reduce_vtable A) opts rest s \<and>
     main A reducescatter_init_opbase_ptr (reducescatter_vtable A) opts rest s =
       older_main A reducescatter_init_opbase_ptr (older_reducescatter_vtable A) opts rest s \<and>
     main A reducescatterv_init_opbase_ptr (reducescatterv_vtable A) opts rest s1 =
       older_main A reducescatterv_init_opbase_ptr (older_reducescatterv_vtable A) opts rest s1) \<and>
     main A brocast_init_opbase_ptr (brocast_vtable A) opts rest s =
       older_main A brocast_init_opbase_ptr (older_brocast_vtable A) opts rest s \<and>
     main A allgather_init_opbase_ptr (allgather_vtable A) opts rest s =
       older_main A allgather_init_opbase_ptr (older_allgather_vtable A) opts rest s \<and>
     main A allgatherv_init_opbase_ptr (allgatherv_vtable A) opts rest s2 =
       older_main A allgatherv_init_opbase_ptr (older_allgatherv_vtable A) opts rest s2 \<and>
     main A scatter_init_opbase_ptr (scatter_vtable A) opts rest s =
       older_main A scatter_init_opbase_ptr (older_scatter_vtable A) opts rest s \<and>
     main A alltoall_init_opbase_ptr (alltoall_vtable A) opts rest s3 =
       older_main A alltoall_init_opbase_ptr (older_alltoall_vtable A) opts rest s3 \<and>
     main A alltoallv_init_opbase_ptr (alltoallv_vtable A) opts rest s4 =
       older_main A alltoallv_init_opbase_ptr (older_alltoallv_vtable A) opts rest s4 \<and>
     main A alltoallvc_init_opbase_ptr (alltoallvc_vtable A) opts rest s5 =
       older_main A alltoallvc_init_opbase_ptr (older_alltoallvc_vtable A) opts rest s5"
proof (intro conjI impI)
  have "shared_type (dtype_value HCCL_DATA_TYPE_FP32)" by (simp add: shared_type_def)
  note red = init_plain [where P = shared_type, OF this] and move = init_plain [where P = "\<lambda>_. True", OF TrueI]
  show "main A allreduce_init_opbase_ptr (allreduce_vtable A) opts rest s =
       older_main A allreduce_init_opbase_ptr (older_allreduce_vtable A) opts rest s"
    if "quiet_options shared_type opts"
    by (rule twin_allreduce.main_same [OF red(1) that assms(2,3)])
  show "main A reduce_init_opbase_ptr (reduce_vtable A) opts rest s =
       older_main A reduce_init_opbase_ptr (older_reduce_vtable A) opts rest s"
    if "quiet_options shared_type opts"
    by (rule twin_reduce.main_same [OF red(2) that assms(2,3)])
  show "main A reducescatter_init_opbase_ptr (reducescatter_vtable A) opts rest s =
       older_main A reducescatter_init_opbase_ptr (older_reducescatter_vtable A) opts rest s"
    if "quiet_options shared_type opts"
    by (rule twin_reducescatter.main_same [OF red(3) that assms(2,3)])
  show "main A reducescatterv_init_opbase_ptr (reducescatterv_vtable A) opts rest s1 =
       older_main A reducescatterv_init_opbase_ptr (older_reducescatterv_vtable A) opts rest s1"
    if "quiet_options shared_type opts"
    by (rule twin_reducescatterv.main_same [OF red(4) that assms(2,3)])
  show "main A brocast_init_opbase_ptr (brocast_vtable A) opts rest s =
       older_main A brocast_init_opbase_ptr (older_brocast_vtable A) opts rest s"
    by (rule twin_brocast.main_same [OF move(5) assms])
  show "main A allgather_init_opbase_ptr (allgather_vtable A) opts rest s =
       older_main A allgather_init_opbase_ptr (older_allgather_vtable A) opts rest s"
    by (rule twin_allgather.main_same [OF move(6) assms])
  show "main A allgatherv_init_opbase_ptr (allgatherv_vtable A) opts rest s2 =
       older_main A allgatherv_init_opbase_ptr (older_allgatherv_vtable A) opts rest s2"
    by (rule twin_allgatherv.main_same [OF move(7) assms])
  show "main A scatter_init_opbase_ptr (scatter_vtable A) opts rest s =
       older_main A scatter_init_opbase_ptr (older_scatter_vtable A) opts rest s"
    by (rule twin_scatter.main_same [OF move(8) assms])
  show "main A alltoall_init_opbase_ptr (alltoall_vtable A) opts rest s3 =
       older_main A alltoall_init_opbase_ptr (older_alltoall_vtable A) opts rest s3"
    by (rule twin_alltoall.main_same [OF move(9) assms])
  show "main A alltoallv_init_opbase_ptr (alltoallv_vtable A) opts rest s4 =
       older_main A alltoallv_init_opbase_ptr (older_alltoallv_vtable A) opts rest s4"
    by (rule twin_alltoallv.main_same [OF move(10) assms])
  show "main A alltoallvc_init_opbase_ptr (alltoallvc_vtable A) opts rest s5 =
       older_main A alltoallvc_init_opbase_ptr (older_alltoallvc_vtable A) opts rest s5"
    by (rule twin_alltoallvc.main_same [OF move(11) assms])
qed

lemma releases_agree_witness:
  "let A = ideal_api (mpi_values 1 0 1); opts = [(CHR ''b'', ''8''), (CHR ''e'', ''8''), (CHR ''d'', ''int8'')]
   in main A allreduce_init_opbase_ptr (allreduce_vtable A) opts [] zero_object =
      older_main A allreduce_init_opbase_ptr (older_allreduce_vtable A) opts [] zero_object"
proof -
  let ?opts = "[(CHR ''b'', ''8''), (CHR ''e'', ''8''), (CHR ''d'', ''int8'')]"
  have "quiet_options (\<lambda>_. True) ?opts" "quiet_options shared_type ?opts"
    by (simp_all add: quiet_options_def shared_type_def)
      (simp add: get_hccl_dtype_from_str_def test_typenames_def)
  moreover have "getenv (ideal_api (mpi_values 1 0 1)) ''HCCL_BUFFSIZE'' = None"
    "comm_never_fails (ideal_api (mpi_values 1 0 1))"
    by (simp_all add: comm_never_fails_def ideal_api_def)
  ultimately show ?thesis unfolding Let_def using releases_agree by blast
qed

subsection \<open>A communicator that cannot be created\<close>

text \<open>
  The older release checks what the newer one ignores: when the library fails to create the
  communicator, \<open>init_hcclComm\<close> of the older release returns that status, and its \<open>start_test\<close> goes
  straight to the clean-up, without running the test.
\<close>
theorem older_stops_without_communicator:
  assumes "\<not> enable_zero_copy s" "older_share_root_info A s = Some (0, s1)" "nslb_flag s1 \<noteq> 1"
    and "status A (call_log s1) (Hccl (CommInitRootInfo (word_of_int (rank_size s1)) (comm_id s1)
          (word_of_int (rank_id s1)))) = e" "e \<noteq> 0"
  shows "\<exists>s2. older_init_hcclComm A s = Some (e, s2) \<and> older_start_test A V s = older_error_reserve_memAddress A s2"
proof -
  have "\<exists>s2. older_init_hcclComm A s = Some (e, s2)"
    using assms(2-5)
    by (simp add: older_init_hcclComm_def steps.simps(2) if_else_def CommInit_def with_state_def call_value_def
        invoke_def Let_def)
  with assms(1,5) show ?thesis
    by (auto simp: older_start_test_def older_run_communicator_def attempt_def)
qed

lemma older_stops_without_communicator_witness:
  "\<exists>s2. older_init_hcclComm (failing_at (\<lambda>c. c = Hccl (CommInitRootInfo 0 [] 0))) new_tester = Some (7, s2)"
proof -
  let ?A = "failing_at (\<lambda>c. c = Hccl (CommInitRootInfo 0 [] 0))"
  have z: "\<not> enable_zero_copy new_tester" by (simp add: tester_defs)
  obtain s1 where s1: "older_share_root_info ?A new_tester = Some (0, s1)" "nslb_flag s1 \<noteq> 1"
      "rank_size s1 = 0" "comm_id s1 = []" "rank_id s1 = 0"
    by (simp add: older_shared share_root_info_def cmd_defs call_def invoke_def failing_at_def ideal_api_def logged_def
        say_def print_def tester_defs Let_def)
  then have "status ?A (call_log s1) (Hccl (CommInitRootInfo (word_of_int (rank_size s1)) (comm_id s1)
      (word_of_int (rank_id s1)))) = 7"
    by (simp add: failing_at_def)
  from older_stops_without_communicator [OF z s1(1,2) this] show ?thesis by auto
qed

end
