(* ===== verification/Unverified_Types.thy ===== *)
theory Unverified_Types
  imports Older_Tests Allreduce_Verdict
begin

text \<open>
  Data types that a reduction accepts but cannot verify: its \<open>switch\<close> has no case for them, so the
  test is marked as failed whatever the device delivers, or it expects the result of another type.
\<close>

subsection \<open>The object before and after the comparison\<close>

definition pending :: "HcclDataType \<Rightarrow> int \<Rightarrow> int \<Rightarrow> int \<Rightarrow> 'a HcclOpBaseTest_scheme \<Rightarrow> bool" where
  "pending t e r q s \<longleftrightarrow>
     dtype s = dtype_value t \<and> check s = 1 \<and> check_err s = e \<and> rank_id s = r \<and> root_rank s = q"

text \<open>The error count has grown by one, and the row of the root rank reads \<open>failed\<close>.\<close>

definition marked_failed :: "'a HcclOpBaseTest_scheme \<Rightarrow> 'a HcclOpBaseTest_scheme \<Rightarrow> bool" where
  "marked_failed s u \<longleftrightarrow> check_err u = check_err s + 1 \<and>
     (rank_id s = root_rank s \<longrightarrow> (\<exists>n a b. last (printed u) = ResultRow n a b ''failed''))"

definition row_failed :: "int \<Rightarrow> int \<Rightarrow> int \<Rightarrow> 'a HcclOpBaseTest_scheme \<Rightarrow> bool" where
  "row_failed e r q s \<longleftrightarrow> check_err s = e \<and> (r = q \<longrightarrow> (\<exists>n a b. last (printed s) = ResultRow n a b ''failed''))"

interpretation pending: world_object "pending t e r q" for t e r q
  by unfold_locales (simp_all add: pending_def set_block_def synced_def split: option.split)

subsection \<open>The steps of a test\<close>

lemma leads_measured:
  assumes "\<And>time. leads (\<lambda>_. True) P (k time) Q" "quiet_frame P"
  shows "leads (\<lambda>_. True) P (measured A k) Q"
  using assms quiet_frame.logged [OF assms(2)]
  unfolding leads_def measured_def with_state_def call_then_def Let_def by (metis option.inject prod.inject)

lemma leads_compare:
  assumes "checks t = None"
  shows "leads (\<lambda>_. True) (pending t e r q) (compare_result checks n) (pending t (e + 1) r q)"
proof -
  have "leads (\<lambda>_. True) (pending t e r q) (steps [say ''no match datatype'', count_failure 1]) (pending t (e + 1) r q)"
    by (auto simp: leads_def cmd_defs say_def print_def count_failure_def s32_inc_def pending_def split: option.splits if_splits)
  moreover have "compare_result checks n s = steps [say ''no match datatype'', count_failure 1] s"
    if "pending t e r q s" for s :: "'a HcclOpBaseTest_scheme"
    using that assms by (simp add: compare_result_def pending_def)
  ultimately show ?thesis unfolding leads_def by metis
qed

lemma leads_report:
  assumes "e \<noteq> 0"
  shows "leads (\<lambda>_. True) (pending t e r q) (report_time b time) (row_failed e r q)"
  using assms
  by (auto simp: leads_def report_time_def print_execution_time_def print_header_once_def cmd_defs print_def Let_def
      pending_def row_failed_def split: if_splits)

lemma free_row [preserve_intros]: "preserves (row_failed e r q) (free p)"
  by (auto simp: preserves_def free_def release_def logged_def row_failed_def split: if_splits option.splits)

lemma no_guard:
  assumes "t \<in> {HCCL_DATA_TYPE_UINT64, HCCL_DATA_TYPE_FP64}" "pending t e r q s"
  shows "allreduce_is_data_overflow s = s" "reduce_is_data_overflow s = s"
    "reducescatter_is_data_overflow s = s" "reducescatterv_is_data_overflow s = s"
proof -
  have "\<not> has_dtype s ts" if "HCCL_DATA_TYPE_UINT64 \<notin> set ts" "HCCL_DATA_TYPE_FP64 \<notin> set ts" for ts
    using that assms has_dtype_value [of s t] by (auto simp: pending_def)
  then show "allreduce_is_data_overflow s = s" "reduce_is_data_overflow s = s"
    "reducescatter_is_data_overflow s = s" "reducescatterv_is_data_overflow s = s"
    by (simp_all add: overflow_defs guard_def)
qed

lemma leads_last:
  assumes "cs \<noteq> []" "list_all (preserves P) (butlast cs)" "leads (\<lambda>_. True) P (last cs) Q"
  shows "leads (\<lambda>_. True) P (steps cs) Q"
  using assms
proof (induction cs)
  case (Cons c cs)
  show ?case
  proof (cases "cs = []")
    case True
    with Cons.prems show ?thesis by (auto intro!: leads_Cons leads_Nil)
  next
    case False
    with Cons show ?thesis by (auto intro!: leads_Cons [OF leads_keep])
  qed
qed simp

text \<open>The check of a test: the result is fetched and compared by a \<open>switch\<close> without a case for the type.\<close>

lemma leads_check:
  assumes "checks t = None"
  shows "leads (\<lambda>_. True) (pending t e r q)
     (steps [with_state (\<lambda>s. fetch_result A (n s) (p s)), with_state (\<lambda>s. compare_result checks (m s))])
     (pending t (e + 1) r q)"
  by (rule leads_last) (simp_all add: leads_with_state leads_compare [of checks, OF assms] preserves_with_state pending.buffers)

text \<open>The end of a test: the check, then the row, then statements that leave the row alone.\<close>

lemma leads_verdict:
  assumes "leads (\<lambda>_. True) (pending t e r q) check_result (pending t (e + 1) r q)" "0 \<le> e"
    and "list_all (preserves (row_failed (e + 1) r q)) rest"
  shows "leads (\<lambda>_. True) (pending t e r q)
     (steps (when_do (\<lambda>s. check s = 1) check_result # with_state (\<lambda>s. report_time (b s) time) # rest))
     (row_failed (e + 1) r q)"
proof -
  have "leads (\<lambda>_. True) (pending t e r q) (when_do (\<lambda>s. check s = 1) check_result) (pending t (e + 1) r q)"
    using assms(1) by (auto intro!: leads_when simp: pending_def elim: leads_weaken)
  moreover have "leads (\<lambda>_. True) (pending t (e + 1) r q) (with_state (\<lambda>s. report_time (b s) time)) (row_failed (e + 1) r q)"
    using assms(2) by (intro leads_with_state leads_report) simp
  moreover have "leads (\<lambda>_. True) (row_failed (e + 1) r q) (steps rest) (row_failed (e + 1) r q)"
    using assms(3) by (intro leads_keep preserves_steps) simp_all
  ultimately show ?thesis by (auto intro: leads_Cons)
qed

subsection \<open>The tests\<close>

lemma rsv_arrays: "pending t e r q (s\<lparr>rsv_send_counts := p\<rparr>) \<longleftrightarrow> pending t e r q s"
  "pending t e r q (s\<lparr>rsv_send_disp := p\<rparr>) \<longleftrightarrow> pending t e r q s"
  by (simp_all add: pending_def)

lemma overflow_kept:
  assumes "t \<in> {HCCL_DATA_TYPE_UINT64, HCCL_DATA_TYPE_FP64}"
  shows "preserves (pending t e r q) (assign allreduce_is_data_overflow)"
    "preserves (pending t e r q) (assign reduce_is_data_overflow)"
    "preserves (pending t e r q) (assign reducescatter_is_data_overflow)"
    "preserves (pending t e r q) (assign reducescatterv_is_data_overflow)"
  by (rule preserves_assign, simp add: no_guard [OF assms])+

lemma reducescatterv_unlisted:
  assumes t: "t \<in> {HCCL_DATA_TYPE_UINT64, HCCL_DATA_TYPE_FP64}" and e: "0 \<le> e"
  shows "leads (\<lambda>_. True) (pending t e r q)
    (reducescatterv_hccl_op_base_test A :: 'a HcclOpBaseReducescatterVTest_scheme cmd) (row_failed (e + 1) r q)"
proof -
  have "leads (\<lambda>_. True) (pending t e r q)
      (reducescatterv_check_buf_result A :: 'a HcclOpBaseReducescatterVTest_scheme cmd) (pending t (e + 1) r q)"
    unfolding reducescatterv_check_buf_result_def by (rule leads_check) (use t in auto)
  moreover have "list_all (preserves (row_failed (e + 1) r q)) [free_send_buf :: 'a HcclOpBaseReducescatterVTest_scheme cmd]"
    unfolding free_send_buf_def by (intro preserve_intros)
  ultimately have "leads (\<lambda>_. True) (pending t e r q) (measured A (\<lambda>time. steps
      [when_do (\<lambda>s. check s = 1) (reducescatterv_check_buf_result A), reducescatterv_cal_execution_time time,
       free_send_buf :: 'a HcclOpBaseReducescatterVTest_scheme cmd])) (row_failed (e + 1) r q)"
    unfolding reducescatterv_cal_execution_time_def
    by (intro leads_measured pending.quiet_frame_axioms leads_verdict e)
  then show ?thesis
    unfolding reducescatterv_hccl_op_base_test_def
    by (intro leads_last)
      (simp_all, intro conjI overflow_kept t, simp_all add: reducescatterv_init_buf_val_def malloc_send_buf_def
        HcclReduceScatterV_def, (intro preserve_intros; simp add: rsv_arrays)+)
qed

lemma older_checker_unlisted:
  "t \<in> {HCCL_DATA_TYPE_UINT64, HCCL_DATA_TYPE_FP64} \<Longrightarrow> older_reduce_checker t = None"
  by auto

lemma leads_again:
  assumes "preserves P (steps cs)" "leads (\<lambda>_. True) P c Q"
  shows "leads (\<lambda>_. True) P (steps [when_do b (steps cs), c]) Q"
  using assms by (intro leads_last) (simp_all add: preserves_when_do)

lemma older_allreduce_unlisted:
  assumes t: "t \<in> {HCCL_DATA_TYPE_UINT64, HCCL_DATA_TYPE_FP64}" and e: "0 \<le> e"
  shows "leads (\<lambda>_. True) (pending t e r q)
    (older_allreduce_hccl_op_base_test A :: 'a HcclOpBaseTest_scheme cmd) (row_failed (e + 1) r q)"
proof -
  have "leads (\<lambda>_. True) (pending t e r q)
      (older_allreduce_check_buf_result A :: 'a HcclOpBaseTest_scheme cmd) (pending t (e + 1) r q)"
    unfolding older_allreduce_check_buf_result_def by (rule leads_check) (rule older_checker_unlisted [OF t])
  then show ?thesis
    unfolding older_allreduce_hccl_op_base_test_def allreduce_cal_execution_time_def older_timed_run_def HcclAllReduce_def
    by (intro leads_last)
      (simp_all add: overflow_kept [OF t], (intro conjI leads_measured pending.quiet_frame_axioms leads_verdict leads_again e
          preserve_intros; simp add: older_allreduce_init_buf_val_def)+)
qed

lemma older_reducescatter_unlisted:
  assumes t: "t \<in> {HCCL_DATA_TYPE_UINT64, HCCL_DATA_TYPE_FP64}" and e: "0 \<le> e"
  shows "leads (\<lambda>_. True) (pending t e r q)
    (older_reducescatter_hccl_op_base_test A :: 'a HcclOpBaseTest_scheme cmd) (row_failed (e + 1) r q)"
proof -
  have "leads (\<lambda>_. True) (pending t e r q)
      (older_reducescatter_check_buf_result A :: 'a HcclOpBaseTest_scheme cmd) (pending t (e + 1) r q)"
    unfolding older_reducescatter_check_buf_result_def by (rule leads_check) (rule older_checker_unlisted [OF t])
  then show ?thesis
    unfolding older_reducescatter_hccl_op_base_test_def reducescatter_cal_execution_time_def older_timed_run_def
      HcclReduceScatter_def
    by (intro leads_last)
      (simp_all add: overflow_kept [OF t], (intro conjI leads_measured pending.quiet_frame_axioms leads_verdict leads_again e
          preserve_intros; simp add: older_reducescatter_init_buf_val_def)+)
qed

lemma older_reduce_unlisted:
  assumes t: "t \<in> {HCCL_DATA_TYPE_UINT64, HCCL_DATA_TYPE_FP64}" and e: "0 \<le> e"
  shows "leads (\<lambda>_. True) (pending t e r r)
    (older_reduce_hccl_op_base_test A :: 'a HcclOpBaseTest_scheme cmd) (row_failed (e + 1) r r)"
proof -
  have "leads (\<lambda>_. True) (pending t e r r) (when_do (\<lambda>s. rank_id s = root_rank s)
      (with_state (\<lambda>s. compare_result older_reduce_checker (count (data s))))) (pending t (e + 1) r r)"
    by (intro leads_when leads_with_state leads_weaken [OF leads_compare [of older_reduce_checker t, OF older_checker_unlisted [OF t]]])
      (auto simp: pending_def)
  then have "leads (\<lambda>_. True) (pending t e r r)
      (older_reduce_check_buf_result A :: 'a HcclOpBaseTest_scheme cmd) (pending t (e + 1) r r)"
    unfolding older_reduce_check_buf_result_def
    by (intro leads_last) (simp_all add: preserves_with_state pending.buffers)
  then show ?thesis
    unfolding older_reduce_hccl_op_base_test_def reduce_cal_execution_time_def older_timed_run_def HcclReduce_def
    by (intro leads_last)
      (simp_all add: overflow_kept [OF t], (intro conjI leads_measured pending.quiet_frame_axioms leads_verdict e
          preserve_intros; simp add: older_reduce_init_buf_val_def)+)
qed

subsection \<open>Types that always fail\<close>

lemma marked_failed_leads:
  assumes "leads (\<lambda>_. True) (pending t (check_err s) (rank_id s) (root_rank s)) c
      (row_failed (check_err s + 1) (rank_id s) (root_rank s))"
    and "dtype s = dtype_value t" "check s = 1" "c s = Some (0, u)"
  shows "marked_failed s u"
  using leadsD [OF assms(1) _ assms(4)] assms(2,3) by (simp add: pending_def row_failed_def marked_failed_def)

text \<open>
  C14.  The newer \<open>reducescatterv\<close> test, and the older \<open>allreduce\<close>, \<open>reducescatter\<close> and (on the root) \<open>reduce\<close>
  tests, accept \<open>-d uint64\<close> and \<open>-d fp64\<close> with verification on, but their \<open>switch\<close> has no case for these
  types: whenever the test completes, in every environment and whatever the device has delivered,
  the error count has grown by one and the row of the root reads \<open>failed\<close>.
\<close>
theorem unlisted_type_fails:
  assumes "t \<in> {HCCL_DATA_TYPE_UINT64, HCCL_DATA_TYPE_FP64}"
    and "dtype s = dtype_value t" "check s = 1" "0 \<le> check_err s"
    and "dtype v = dtype_value t" "check v = 1" "0 \<le> check_err v"
  shows "(reducescatterv_hccl_op_base_test A v = Some (0, w) \<longrightarrow> marked_failed v w) \<and>
    (older_allreduce_hccl_op_base_test A s = Some (0, u) \<longrightarrow> marked_failed s u) \<and>
    (older_reducescatter_hccl_op_base_test A s = Some (0, u) \<longrightarrow> marked_failed s u) \<and>
    (older_reduce_hccl_op_base_test A s = Some (0, u) \<and> rank_id s = root_rank s \<longrightarrow> marked_failed s u)"
proof (intro conjI impI)
  show "marked_failed s u" if "older_reduce_hccl_op_base_test A s = Some (0, u) \<and> rank_id s = root_rank s"
    using that assms(2,3)
    by (intro marked_failed_leads [where c = "older_reduce_hccl_op_base_test A" and t = t])
      (auto intro: older_reduce_unlisted [OF assms(1,4)])
qed (rule marked_failed_leads, rule reducescatterv_unlisted older_allreduce_unlisted older_reducescatter_unlisted,
    (rule assms)+, assumption)+

text \<open>Rank 0 of one, no elements, no iterations.\<close>

definition empty_run :: HcclOpBaseTest where
  "empty_run = new_tester\<lparr>dtype := dtype_value HCCL_DATA_TYPE_UINT64, rank_size := 1, iters := 0, warmup_iters := 0,
     blocks := [1 \<mapsto> (Device, []), 2 \<mapsto> (Device, [])], next_block := 3, send_buff := (1, 0), recv_buff := (2, 0)\<rparr>"

lemmas run_defs = malloc_host_buf_def malloc_check_buf_def aclrtMallocHost_def invoke_def alloc_def upd_defs
  fill_host_def update_buffer_def hccl_host_buf_init_def host_buf_init_int64_def for_range_def set_block_def
  host_to_send_def aclrtMemcpy_def read_mem_def write_mem_def readable_def block_bytes_def write_at_def
  older_allreduce_init_buf_val_def older_fill_expected_def older_hccl_reduce_check_buf_init_def older_routines
  reduce_check_buf_init_int64_def older_timed_run_def call_def aclrtSynchronizeStream_def synced_def
  measured_def call_then_def older_allreduce_check_buf_result_def fetch_result_def compare_result_def
  say_def print_def count_failure_def s32_inc_def allreduce_cal_execution_time_def report_time_def
  print_execution_time_def print_header_once_def ideal_api_def logged_def

lemma unlisted_type_fails_witness:
  "\<exists>u. older_allreduce_hccl_op_base_test (ideal_api (\<lambda>_ _. 0)) empty_run = Some (0, u) \<and> marked_failed empty_run u"
proof -
  let ?A = "ideal_api (\<lambda>_ _. 0)"
  let ?v = "HcclOpBaseTest.extend empty_run (HcclOpBaseReducescatterVTest.fields nullptr nullptr)"
  have s: "dtype empty_run = dtype_value HCCL_DATA_TYPE_UINT64" "check empty_run = 1" "check_err empty_run = 0"
    by (simp_all add: empty_run_def tester_defs)
  then have v: "dtype ?v = dtype_value HCCL_DATA_TYPE_UINT64" "check ?v = 1" "check_err ?v = 0"
    by (simp_all add: HcclOpBaseTest.defs)
  have f: "malloc_kSize empty_run = 0" "count (data empty_run) = 0" "warmup_iters empty_run = 0" "iters empty_run = 0"
    "blocks empty_run = [1 \<mapsto> (Device, []), 2 \<mapsto> (Device, [])]" "next_block empty_run = 3"
    "send_buff empty_run = (1, 0)" "recv_buff empty_run = (2, 0)" "rank_id empty_run = 0" "root_rank empty_run = 0"
    "rank_size empty_run = 1" "print_header empty_run" "op_type empty_run = op_value HCCL_REDUCE_SUM"
    by (simp_all add: empty_run_def tester_defs)
  have g: "allreduce_is_data_overflow empty_run = empty_run"
    by (rule no_guard [where t = HCCL_DATA_TYPE_UINT64 and e = 0 and r = 0 and q = 0])
      (simp_all add: pending_def empty_run_def tester_defs)
  obtain u where u: "older_allreduce_hccl_op_base_test ?A empty_run = Some (0, u)"
    by (simp add: older_allreduce_hccl_op_base_test_def cmd_defs g run_defs s f Let_def del: dtype_value.simps)
  from unlisted_type_fails [where t = HCCL_DATA_TYPE_UINT64 and v = ?v, OF _ s(1,2) _ v(1,2)] u s(3) v(3)
  show ?thesis by auto
qed

subsection \<open>Products of doubles\<close>

lemma f64_mul_subnormal: "f64_mul 2 2 = 0" "f64_mul 2 0 = 0" "f64_mul 2 (f64_of_int 1) = 2"
  by (simp_all add: fp_eval)

lemma product_vanishes:
  assumes "2 \<le> n"
  shows "foldr f64_mul (replicate n 2) (f64_of_int 1) = 0"
proof -
  have "foldr f64_mul (replicate (Suc (Suc k)) 2) (f64_of_int 1) = 0" for k
    by (induction k) (simp_all add: f64_mul_subnormal)
  from this [of "n - 2"] assms show ?thesis by (simp add: numeral_2_eq_2 Suc_diff_Suc)
qed

text \<open>
  C32.  A product of \<open>-d fp64\<close> cannot be verified either.  The tests write the integer 2 into an element
  of a \<open>double\<close> buffer, which is the bit pattern of a subnormal number, and expect the integer
  \<open>2 ^ rank_size\<close>; from two ranks on the IEEE product of these numbers is zero.
\<close>
theorem fp64_product_expectation:
  assumes "2 \<le> n" "n < 63" "length m = 8"
  shows "hccl_host_buf_init m 0 1 (dtype_value HCCL_DATA_TYPE_FP64) 2 = Some (le_bytes 8 2) \<and>
    hccl_reduce_check_buf_init m 0 1 (dtype_value HCCL_DATA_TYPE_FP64) (op_value HCCL_REDUCE_PROD) 2 n =
      Some (le_bytes 8 (2 ^ nat n)) \<and>
    foldr f64_mul (replicate (nat n) 2) (f64_of_int 1) = 0"
proof (intro conjI)
  have one: "elems 8 (\<lambda>_. x) (Suc 0) = le_bytes 8 x" for x by (simp add: elems_def)
  show "hccl_host_buf_init m 0 1 (dtype_value HCCL_DATA_TYPE_FP64) 2 = Some (le_bytes 8 2)"
    unfolding host.fills using assms(3)
    by (simp add: filled_def host_content_def elem_width_def s_enc_def one write_at_all)
  have "(2::int) ^ nat n < 2 ^ 64" using assms(2) by (intro power_strict_increasing) simp_all
  then have e: "s_enc 8 (2 ^ nat n) = 2 ^ nat n" by (simp add: s_enc_def nat_power_eq)
  have "in_s 64 (2 ^ nat n :: int)" using assms by (intro pow_in_s) simp_all
  then have c: "reduce_content HCCL_DATA_TYPE_FP64 2 (op_value HCCL_REDUCE_PROD) n = Fill (s_enc 8 (2 ^ nat n))"
    using c_pow_two [of n] assms(1,2) by (simp add: reduce_content_def Let_def elem_width_def f64_to_s_def)
  show "hccl_reduce_check_buf_init m 0 1 (dtype_value HCCL_DATA_TYPE_FP64) (op_value HCCL_REDUCE_PROD) 2 n =
      Some (le_bytes 8 (2 ^ nat n))"
    using reduce.fills [of m 0 1 HCCL_DATA_TYPE_FP64 "(2, op_value HCCL_REDUCE_PROD, n)"] assms(3)
    by (simp add: c filled_def elem_width_def one write_at_all e del: op_value.simps dtype_value.simps)
  show "foldr f64_mul (replicate (nat n) 2) (f64_of_int 1) = 0"
    using assms(1) by (intro product_vanishes) simp
qed

lemma fp64_product_expectation_witness:
  "hccl_reduce_check_buf_init (replicate 8 0) 0 1 (dtype_value HCCL_DATA_TYPE_FP64) (op_value HCCL_REDUCE_PROD) 2 2 =
     Some (le_bytes 8 (2 ^ 2)) \<and> foldr f64_mul (replicate 2 2) (f64_of_int 1) = 0"
proof -
  have "length (replicate 8 0 :: 8 word list) = 8" "nat 2 = 2" by (rule length_replicate) simp
  with fp64_product_expectation [of 2 "replicate 8 0"] show ?thesis
    by (simp only:)
qed

end
