(* ===== verification/Zero_Copy.thy ===== *)
theory Zero_Copy
  imports Test_Programs
begin

text \<open>
  Zero copy: the driver reserves one range of device addresses for the whole run and maps memory to
  its beginning, more of it when a size needs more.  A test of every size gets its send buffer at
  the beginning of the range and its receive buffer behind it.  Shown here: what the driver gives a
  test is mapped, and the two buffers do not overlap.
\<close>

subsection \<open>The reserved addresses\<close>

definition region :: "nat \<Rightarrow> nat \<Rightarrow> (ptr \<times> nat) list \<Rightarrow> 'a world_scheme \<Rightarrow> bool" where
  "region b n ms s \<longleftrightarrow>
     (\<exists>m. blocks s b = Some (Reserved, m) \<and> length m = n) \<and> b < next_block s \<and> mapped s = ms"

lemma region_set_block:
  "length m = length (block_bytes s b') \<Longrightarrow> region b n ms (set_block b' m s) \<longleftrightarrow> region b n ms s"
  by (auto simp: region_def set_block_def block_bytes_def split: option.splits)

lemma region_synced: "region b n ms (synced A s) \<longleftrightarrow> region b n ms s"
  by (auto simp: region_def synced_def split: option.splits)

interpretation region: test_frame "region b n ms" for b n ms
  by unfold_locales (auto simp: region_set_block region_synced, auto simp: region_def)

interpretation region_rsv: rsv_frame "region b n ms" for b n ms
  by unfold_locales (auto simp: region_def)

interpretation region_agv: agv_frame "region b n ms" for b n ms
  by unfold_locales (auto simp: region_def)

interpretation region_a2a: a2a_frame "region b n ms" for b n ms
  by unfold_locales (auto simp: region_def)

interpretation region_a2av: a2av_frame "region b n ms" for b n ms
  by unfold_locales (auto simp: region_def)

interpretation region_a2avc: a2avc_frame "region b n ms" for b n ms
  by unfold_locales (auto simp: region_def)

text \<open>The settings on which the sizes of the buffers depend, beside the size of the data.\<close>

type_synonym config = "int \<times> int \<times> bool \<times> u64"

definition config :: "'a HcclTest_scheme \<Rightarrow> config" where
  "config s = (dtype s, rank_size s, enable_zero_copy s, granularity s)"

text \<open>
  Of \<open>r\<close> reserved bytes the first \<open>current_alloc_phy_mem_byte\<close> are mapped; \<open>g\<close> and \<open>c\<close> are the
  granularity of the mapping and the settings.
\<close>

definition reserved :: "nat \<Rightarrow> u64 \<Rightarrow> config \<Rightarrow> 'a HcclTest_scheme \<Rightarrow> bool" where
  "reserved r g c s \<longleftrightarrow> g \<noteq> 0 \<and> physicalGranularity s = g \<and> config s = c \<and> snd (vir_ptr s) = 0 \<and>
     region (fst (vir_ptr s)) r (mapped s) s \<and>
     (\<forall>i < unat (current_alloc_phy_mem_byte s). is_mapped (mapped s) (fst (vir_ptr s)) i)"

subsection \<open>Buffers in place\<close>

text \<open>The least multiple of \<open>g\<close> that is at least \<open>x\<close>, in unbounded numbers.\<close>

definition rounded :: "nat \<Rightarrow> nat \<Rightarrow> nat" where
  "rounded g x = (x + g - 1) div g * g"

lemma rounded_ge: "0 < g \<Longrightarrow> x \<le> rounded g x"
  unfolding rounded_def by (rule round_up_nat(1))

lemma rounded_less: "0 < g \<Longrightarrow> rounded g x < x + g"
  unfolding rounded_def by (rule round_up_nat(2))

lemma rounded_mono: "x \<le> y \<Longrightarrow> rounded g x \<le> rounded g y"
  unfolding rounded_def by (intro mult_le_mono1 div_le_mono) simp

text \<open>Buffers of \<open>m\<close> and \<open>n\<close> bytes fit into \<open>r\<close> reserved bytes, and no sum wraps.\<close>

definition room :: "nat \<Rightarrow> u64 \<Rightarrow> u64 \<Rightarrow> u64 \<Rightarrow> bool" where
  "room r g m n \<longleftrightarrow> unat m + unat g \<le> 2 ^ 64 \<and> unat n + unat g \<le> 2 ^ 64 \<and>
     rounded (unat g) (unat m) + rounded (unat g) (unat n) \<le> r \<and>
     rounded (unat g) (unat m) + rounded (unat g) (unat n) < 2 ^ 64"

definition in_place :: "u64 \<Rightarrow> u64 \<Rightarrow> 'a HcclTest_scheme \<Rightarrow> bool" where
  "in_place m n s \<longleftrightarrow> readable s (send_buff s) (unat m) \<and> readable s (recv_buff s) (unat n) \<and>
     fst (send_buff s) = fst (recv_buff s) \<and> snd (send_buff s) + unat m \<le> snd (recv_buff s)"

lemma round_up_rounded:
  assumes "unat x + unat g \<le> 2 ^ 64" "g \<noteq> 0" "rounded (unat g) (unat x) < 2 ^ 64"
  shows "unat (round_up x g) = rounded (unat g) (unat x)"
proof -
  have g: "0 < unat g" using assms(2) by (simp add: unat_gt_0)
  have "unat ((x + g - 1) div g) = (unat x + unat g - 1) div unat g"
    using unat_round_div [OF assms(2), of x] assms(1) g by simp
  then show ?thesis
    using assms(3) by (simp add: round_up_def rounded_def unat_word_ariths)
qed

subsection \<open>One size\<close>

lemma enableerr0_fails: "r \<noteq> 0 \<Longrightarrow> enableerr0 A msg r s = Some (q, t) \<Longrightarrow> q \<noteq> 0"
  by (auto simp: enableerr0_def cmd_defs split: option.splits if_splits)

lemma attempt_ok:
  assumes "attempt c (enableerr0 A msg) k s = Some (0, t)"
  obtains u where "c s = Some (0, u)" "k u = Some (0, t)"
  using assms by (auto simp: attempt_def dest: enableerr0_fails split: option.splits if_splits)

lemma enable_memory_ok:
  assumes "enable_memory A at k c s = Some (0, t)"
  shows "\<exists>l h. t = s\<lparr>mapped := (at, unat k) # mapped s, call_log := l, phy_alloc_mem_handle := h,
    current_alloc_phy_mem_byte := c\<rparr>"
proof -
  from assms obtain u v w where "call A (Acl (MallocPhysical k)) s = Some (0, u)"
    and "aclrtMapMem A at k (delivered A (call_log s) (Acl (MallocPhysical k))) u = Some (0, v)"
    and "call A (Hccl (CommActivateCommMemory (hccl_comm v) at k (delivered A (call_log s) (Acl (MallocPhysical k))))) v
      = Some (0, w)"
    and "t = w\<lparr>phy_alloc_mem_handle := phy_alloc_mem_handle w @ [(at, delivered A (call_log s) (Acl (MallocPhysical k)))],
      current_alloc_phy_mem_byte := c\<rparr>"
    unfolding enable_memory_def with_state_def Let_def
    by (elim attempt_ok) (auto simp: assign_def)
  then have "t = s\<lparr>mapped := (at, unat k) # mapped s, call_log := call_log t,
      phy_alloc_mem_handle := phy_alloc_mem_handle t, current_alloc_phy_mem_byte := c\<rparr>"
    by (auto simp: call_ok aclrtMapMem_def invoke_def logged_def Let_def split: if_splits)
  then show ?thesis by blast
qed

text \<open>\<open>prepare_zero_copy\<close> finds enough memory mapped or maps what is missing behind it.\<close>

lemma prepare_zero_copy_ok:
  assumes "prepare_zero_copy A m n s = Some (0, t)" "enable_zero_copy s"
  obtains "t = s" "m + n = 0 \<or> round_up m (physicalGranularity s) + round_up n (physicalGranularity s)
      \<le> current_alloc_phy_mem_byte s"
  | l h c where "c = round_up m (physicalGranularity s) + round_up n (physicalGranularity s)"
      "current_alloc_phy_mem_byte s < c"
      "t = s\<lparr>mapped := (ptr_add (vir_ptr s) (unat (current_alloc_phy_mem_byte s)),
           unat (c - current_alloc_phy_mem_byte s)) # mapped s,
         call_log := l, phy_alloc_mem_handle := h, current_alloc_phy_mem_byte := c\<rparr>"
proof (cases "m + n = 0 \<or> round_up m (physicalGranularity s) + round_up n (physicalGranularity s)
    \<le> current_alloc_phy_mem_byte s")
  case True
  with assms that(1) show ?thesis
    by (auto simp: prepare_zero_copy_def get_reseved_size_def Let_def split: if_splits)
next
  case False
  define c where "c = round_up m (physicalGranularity s) + round_up n (physicalGranularity s)"
  have "enable_memory A (ptr_add (vir_ptr s) (unat (current_alloc_phy_mem_byte s)))
      (c - current_alloc_phy_mem_byte s) c s = Some (0, t)"
    using False assms by (auto simp: prepare_zero_copy_def get_reseved_size_def c_def Let_def split: if_splits)
  from enable_memory_ok [OF this] False that(2) [OF c_def] show ?thesis by (auto simp: c_def not_le)
qed

lemma is_mapped_Cons: "is_mapped ((p, n) # ms) b i \<longleftrightarrow> fst p = b \<and> snd p \<le> i \<and> i < snd p + n \<or> is_mapped ms b i"
  by (cases p) (auto simp: is_mapped_def)

lemma prepare_reserved:
  assumes "prepare_zero_copy A m n s = Some (0, t)" "enable_zero_copy s" "reserved r g c s"
  shows "reserved r g c t" "m + n = 0 \<or> round_up m (physicalGranularity t) + round_up n (physicalGranularity t)
      \<le> current_alloc_phy_mem_byte t"
    "enable_zero_copy t" "malloc_kSize t = malloc_kSize s" "rank_size t = rank_size s"
proof -
  have "reserved r g c t \<and> (m + n = 0 \<or> round_up m (physicalGranularity t) + round_up n (physicalGranularity t)
      \<le> current_alloc_phy_mem_byte t) \<and> enable_zero_copy t \<and> malloc_kSize t = malloc_kSize s \<and> rank_size t = rank_size s"
    using assms(1,2)
  proof (cases rule: prepare_zero_copy_ok)
    case 1
    then show ?thesis using assms by simp
  next
    case (2 l h d)
    have "unat (current_alloc_phy_mem_byte s) + unat (d - current_alloc_phy_mem_byte s) = unat d"
      using 2(2) by (simp add: unat_sub less_imp_le word_less_nat_alt word_le_nat_alt)
    then show ?thesis
      using assms(2,3) 2(1)
      by (auto simp: 2(3) reserved_def region_def config_def is_mapped_Cons ptr_add_def not_less)
  qed
  then show "reserved r g c t" "m + n = 0 \<or> round_up m (physicalGranularity t) + round_up n (physicalGranularity t)
      \<le> current_alloc_phy_mem_byte t"
    "enable_zero_copy t" "malloc_kSize t = malloc_kSize s" "rank_size t = rank_size s"
    by simp_all
qed

lemma alloc_zero_copy:
  assumes "alloc_hccl_send_recv_buffer A m n s = Some (0, t)" "enable_zero_copy s"
  shows "t = s\<lparr>send_buff := vir_ptr s,
    recv_buff := ptr_add (vir_ptr s) (unat (round_up m (physicalGranularity s)))\<rparr>"
  using assms by (auto simp: alloc_hccl_send_recv_buffer_def cmd_defs split: if_splits)

lemma in_place_placed:
  assumes "reserved r g c s" "room r g m n"
    and "m + n = 0 \<or> round_up m g + round_up n g \<le> current_alloc_phy_mem_byte s"
    and "send_buff s = vir_ptr s" "recv_buff s = ptr_add (vir_ptr s) (unat (round_up m g))"
  shows "in_place m n s"
proof -
  let ?m = "rounded (unat g) (unat m)" and ?n = "rounded (unat g) (unat n)"
  have g: "g \<noteq> 0" "0 < unat g" using assms(1) by (simp_all add: reserved_def unat_gt_0)
  have u: "unat (round_up m g) = ?m" "unat (round_up n g) = ?n"
    using assms(2) g by (simp_all add: round_up_rounded room_def)
  have le: "unat m \<le> ?m" "unat n \<le> ?n" by (simp_all add: rounded_ge g)
  have v: "unat (round_up m g + round_up n g) = ?m + ?n"
    using assms(2) by (simp add: unat_word_ariths u room_def)
  have c: "?m + unat n \<le> unat (current_alloc_phy_mem_byte s) \<or> unat m = 0 \<and> unat n = 0"
    using assms(3)
  proof
    assume "m + n = 0"
    moreover have "unat m + unat n < 2 ^ 64" using assms(2) le by (simp add: room_def)
    ultimately have "unat m + unat n = 0" using unat_add_lem [of m n] by simp
    then show ?thesis by simp
  next
    assume "round_up m g + round_up n g \<le> current_alloc_phy_mem_byte s"
    then show ?thesis using le by (simp add: word_le_nat_alt v)
  qed
  obtain k where b: "blocks s (fst (vir_ptr s)) = Some (Reserved, k)" "length k = r" and z: "snd (vir_ptr s) = 0"
    and mp: "\<And>i. i < unat (current_alloc_phy_mem_byte s) \<Longrightarrow> is_mapped (mapped s) (fst (vir_ptr s)) i"
    using assms(1) by (auto simp: reserved_def region_def)
  have fit: "?m + ?n \<le> length k" using assms(2) b by (simp add: room_def)
  show ?thesis
    using c le fit mp b(1) z
    by (auto simp: in_place_def readable_def assms(4,5) ptr_add_def u list_all_iff)
qed

subsection \<open>All sizes\<close>

text \<open>
  The same program with a check before each test: in zero-copy mode, when the buffers that the test
  announces are not in place, it runs \<open>alt\<close> instead.  When this program behaves as the original one
  whatever \<open>alt\<close> is, no test of a run finds its buffers out of place.
\<close>

definition watched ::
    "'a HcclOpBaseTest_scheme cmd \<Rightarrow> ('a HcclOpBaseTest_scheme) vtable \<Rightarrow> ('a HcclOpBaseTest_scheme) vtable" where
  "watched alt V = V\<lparr>hccl_op_base_test := (\<lambda>s. case init_send_recv_size_by_data V s of (m, n) \<Rightarrow>
     if enable_zero_copy s \<and> \<not> in_place m n s then alt s else hccl_op_base_test V s)\<rparr>"

lemma watched_sizes:
  "init_malloc_Ksize_by_data (watched alt V) = init_malloc_Ksize_by_data V"
  "init_send_recv_size_by_data (watched alt V) = init_send_recv_size_by_data V"
  by (simp_all add: watched_def)

lemma get_buff_size_watched: "get_buff_size (watched alt V) s = get_buff_size V s"
  unfolding get_buff_size_def watched_sizes ..

text \<open>What holds between the sizes.\<close>

definition zc_ready :: "nat \<Rightarrow> u64 \<Rightarrow> config \<Rightarrow> 'a HcclTest_scheme \<Rightarrow> bool" where
  "zc_ready r g c s \<longleftrightarrow> (enable_zero_copy s \<longrightarrow> reserved r g c s)"

lemma reserved_members:
  "reserved r g c (s\<lparr>data := d\<rparr>) \<longleftrightarrow> reserved r g c s" "reserved r g c (s\<lparr>malloc_kSize := k\<rparr>) \<longleftrightarrow> reserved r g c s"
  "reserved r g c (s\<lparr>send_buff := p\<rparr>) \<longleftrightarrow> reserved r g c s" "reserved r g c (s\<lparr>recv_buff := p\<rparr>) \<longleftrightarrow> reserved r g c s"
  by (simp_all add: reserved_def region_def config_def)

lemma zc_ready_data: "zc_ready r g c (s\<lparr>data := d\<rparr>) \<longleftrightarrow> zc_ready r g c s"
  by (simp add: zc_ready_def reserved_members)

lemma zc_ready_off: "zc_ready r 0 c s \<longleftrightarrow> \<not> enable_zero_copy s"
  by (simp add: zc_ready_def reserved_def)

interpretation zc_off: driver_frame "\<lambda>s. \<not> enable_zero_copy s"
  by unfold_locales (simp_all add: set_block_def synced_def split: option.split)

lemma frame_zero_copy:
  assumes "frame t = frame s"
  shows "config t = config s" "physicalGranularity t = physicalGranularity s"
    "vir_ptr t = vir_ptr s" "current_alloc_phy_mem_byte t = current_alloc_phy_mem_byte s"
  using assms by (simp_all add: frame_def config_def HcclTest.defs)

lemma config_zero_copy: "config t = config s \<Longrightarrow> enable_zero_copy t = enable_zero_copy s"
  by (simp add: config_def)

text \<open>A command that leaves the settings and the region alone leaves the reserved addresses as they were.\<close>

lemma zc_ready_frame:
  assumes "zc_ready r g c s" "\<And>k. preserves (\<lambda>u. frame u = k) k0" "\<And>b n ms. preserves (region b n ms) k0"
    and "k0 s = Some (q, t)"
  shows "zc_ready r g c t"
proof -
  have f: "frame t = frame s" by (rule preservesD [OF assms(2) refl assms(4)])
  note f' = frame_zero_copy [OF f]
  have "region b n ms t" if "region b n ms s" for b n ms by (rule preservesD [OF assms(3) that assms(4)])
  moreover from this have "mapped t = ms" if "region b n ms s" for b n ms using that by (auto simp: region_def)
  ultimately show ?thesis
    using assms(1) by (auto simp: zc_ready_def reserved_def f' config_zero_copy [OF f'(1)])
qed

text \<open>
  What the driver relies on: a test leaves the reserved addresses alone, and the sizes it announces
  depend on the memory size and the number of ranks only.
\<close>

locale zero_copy_tester = tester V for V :: "('a HcclOpBaseTest_scheme) vtable" +
  assumes op_region: "preserves (region b n ms) (hccl_op_base_test V)"
    and announced: "malloc_kSize s = malloc_kSize t \<Longrightarrow> rank_size s = rank_size t \<Longrightarrow>
      init_send_recv_size_by_data V s = init_send_recv_size_by_data V t"
begin

lemma get_buff_size_frame:
  assumes "get_buff_size V s = Some (b, t)"
  shows "\<exists>d k. t = s\<lparr>data := d, malloc_kSize := k\<rparr> \<and> data_size d = data_size (data s)"
proof -
  have "\<exists>d. init_data_count s = s\<lparr>data := d\<rparr> \<and> data_size d = data_size (data s)"
    by (auto simp: init_data_count_def Let_def split: option.splits HcclDataType.splits)
  then show ?thesis
    using assms by (auto simp: get_buff_size_def Let_def split: option.splits dest!: size_frame) force
qed

lemma get_buff_size_ready:
  assumes "get_buff_size V s = Some ((m, n), t)" "zc_ready r g c s"
  shows "zc_ready r g c t" "init_send_recv_size_by_data V t = (m, n)"
proof -
  obtain d k where "t = s\<lparr>data := d, malloc_kSize := k\<rparr>"
    using get_buff_size_frame [OF assms(1)] by blast
  then show "zc_ready r g c t" using assms(2) by (simp add: zc_ready_def reserved_members)
  show "init_send_recv_size_by_data V t = (m, n)"
    using assms(1) by (auto simp: get_buff_size_def Let_def split: option.splits)
qed

lemma buffers_in_place:
  assumes "steps [prepare_zero_copy A m n, alloc_hccl_send_recv_buffer A m n] s = Some (0, t)"
    and "zc_ready r g c s" "init_send_recv_size_by_data V s = (m, n)"
  shows "zc_ready r g c t"
    "(enable_zero_copy s \<Longrightarrow> room r g m n) \<Longrightarrow> hccl_op_base_test (watched alt V) t = hccl_op_base_test V t"
proof -
  obtain u where u: "prepare_zero_copy A m n s = Some (0, u)" "alloc_hccl_send_recv_buffer A m n u = Some (0, t)"
    using assms(1) by (auto simp: steps.simps split: option.splits if_splits)
  have "zc_ready r g c t \<and> ((enable_zero_copy s \<longrightarrow> room r g m n) \<longrightarrow>
      hccl_op_base_test (watched alt V) t = hccl_op_base_test V t)"
  proof (cases "enable_zero_copy s")
    case False
    have "\<not> enable_zero_copy t"
      by (rule steps_keep [where I = "\<lambda>s. \<not> enable_zero_copy s", OF assms(1) _ False]) (intro preserve_intros)
    then show ?thesis by (simp add: watched_def zc_ready_def split: prod.split)
  next
    case True
    then have "reserved r g c s" using assms(2) by (simp add: zc_ready_def)
    note p = prepare_reserved [OF u(1) True this]
    note t = alloc_zero_copy [OF u(2) p(3)]
    have g: "physicalGranularity u = g" using p(1) by (simp add: reserved_def)
    have r: "reserved r g c t" using p(1) by (simp add: t reserved_members)
    moreover have "init_send_recv_size_by_data V t = (m, n)"
      using announced [of t s] p(4,5) assms(3) by (simp add: t)
    moreover have "room r g m n \<Longrightarrow> in_place m n t"
      using p(2) by (intro in_place_placed [OF r]) (simp_all add: t g)
    ultimately show ?thesis using True by (auto simp: watched_def zc_ready_def)
  qed
  then show "zc_ready r g c t"
    "(enable_zero_copy s \<Longrightarrow> room r g m n) \<Longrightarrow> hccl_op_base_test (watched alt V) t = hccl_op_base_test V t" by auto
qed

lemma size_body_watched:
  assumes "zc_ready r g c s" "\<And>m n t. get_buff_size V s = Some ((m, n), t) \<Longrightarrow> enable_zero_copy s \<Longrightarrow> room r g m n"
  shows "size_body A (watched alt V) s = size_body A V s"
proof (cases "get_buff_size V s")
  case (Some x)
  then obtain m n t where x: "get_buff_size V s = Some ((m, n), t)" by (cases x) auto
  note t = get_buff_size_ready [OF x assms(1)]
  have "enable_zero_copy t = enable_zero_copy s" using get_buff_size_frame [OF x] by auto
  then have "hccl_op_base_test (watched alt V) u = hccl_op_base_test V u"
    if "steps [prepare_zero_copy A m n, alloc_hccl_send_recv_buffer A m n] t = Some (0, u)" for u
    using buffers_in_place(2) [OF that t] assms(2) [OF x] by simp
  then show ?thesis
    by (auto simp: size_body_def get_buff_size_watched x simp del: steps.simps split: option.splits)
qed (simp add: size_body_def get_buff_size_watched)

lemma size_body_ready:
  assumes "zc_ready r g c s" "size_body A V s = Some (None, t)"
  shows "zc_ready r g c t"
proof -
  from assms(2) obtain m n s1 s2 q s3 where 1: "get_buff_size V s = Some ((m, n), s1)"
    and 2: "steps [prepare_zero_copy A m n, alloc_hccl_send_recv_buffer A m n] s1 = Some (0, s2)"
    and 3: "hccl_op_base_test V s2 = Some (q, s3)"
    and 4: "free_send_recv_buff_and_disable_local_buffer A s3 = Some (0, t)"
    by (auto simp: size_body_def simp del: steps.simps split: option.splits if_splits)
  have "zc_ready r g c s2" by (rule buffers_in_place(1) [OF 2 get_buff_size_ready [OF 1 assms(1)]])
  then have "zc_ready r g c s3"
    by (rule zc_ready_frame [OF _ _ op_region 3]) (auto intro: preservesI dest: op_frame)
  then show ?thesis by (rule zc_ready_frame [OF _ cfg.free_buffers region.free_buffers 4])
qed

end

subsection \<open>The planned sizes\<close>

text \<open>A bound on the bytes of one buffer, and the inputs for which no size computation wraps.\<close>

definition limit :: "config \<Rightarrow> u64 \<Rightarrow> nat" where
  "limit c x = (case c of (t, k, z, a) \<Rightarrow> unat x + 8 * (128 * nat k + 1))"

definition unwrapped :: "config \<Rightarrow> u64 \<Rightarrow> u64 \<Rightarrow> bool" where
  "unwrapped c x g \<longleftrightarrow> (case c of (t, k, z, a) \<Rightarrow> a = 128 \<and> 1 \<le> k \<and> k < 2 ^ 31) \<and>
     2 * (limit c x + unat g) \<le> 2 ^ 64"

lemma unwrapped_mono: "unwrapped c y g \<Longrightarrow> x \<le> y \<Longrightarrow> unwrapped c x g"
  by (auto simp: unwrapped_def limit_def word_le_nat_alt split: prod.splits)

text \<open>\<open>r\<close> bytes are what the sizes for \<open>y\<close> bytes of data need.\<close>

definition planned :: "(config \<Rightarrow> u64 \<Rightarrow> nat \<times> nat) \<Rightarrow> nat \<Rightarrow> u64 \<Rightarrow> config \<Rightarrow> u64 \<Rightarrow> bool" where
  "planned need r g c y \<longleftrightarrow> g \<noteq> 0 \<and> unwrapped c y g \<and>
     r = rounded (unat g) (fst (need c y)) + rounded (unat g) (snd (need c y))"

text \<open>The loop over the sizes stays below \<open>y\<close>.\<close>

definition below :: "u64 \<Rightarrow> DataSize \<Rightarrow> bool" where
  "below y d \<longleftrightarrow> max_bytes d \<le> y \<or>
     step_bytes d = 0 \<and> f64_le (step_factor d) (f64_of_int 1) \<and> data_size d \<le> y"

lemma below_next: "below y d \<Longrightarrow> loop_data e = loop_data d \<Longrightarrow> next_size e = Some f \<Longrightarrow> below y f"
  by (auto simp: below_def loop_data_def next_size_def split: if_splits)

text \<open>The interface of a test whose sizes grow with the size of the data; \<open>need\<close> are the bytes of its buffers.\<close>

locale growing_tester = zero_copy_tester V for V :: "('a HcclOpBaseTest_scheme) vtable" +
  fixes need :: "config \<Rightarrow> u64 \<Rightarrow> nat \<times> nat"
  assumes needs: "get_buff_size V s = Some ((m, n), t) \<Longrightarrow> unwrapped (config s) (data_size (data s)) g \<Longrightarrow>
      need (config s) (data_size (data s)) = (unat m, unat n)"
    and need_mono: "x \<le> y \<Longrightarrow> fst (need c x) \<le> fst (need c y) \<and> snd (need c x) \<le> snd (need c y)"
    and need_limit: "unwrapped c x g \<Longrightarrow> fst (need c x) \<le> limit c x \<and> snd (need c x) \<le> limit c x"
begin

lemma sizes_fit:
  assumes "get_buff_size V s = Some ((m, n), t)" "config s = c" "data_size (data s) \<le> y" "planned need r g c y"
  shows "room r g m n"
proof -
  have u: "unwrapped c y g" and g: "0 < unat g" using assms(4) by (simp_all add: planned_def unat_gt_0)
  have m: "need c (data_size (data s)) = (unat m, unat n)"
    using needs [OF assms(1)] unwrapped_mono [OF u assms(3)] assms(2) by simp
  have le: "unat m \<le> fst (need c y)" "unat n \<le> snd (need c y)"
    using need_mono [OF assms(3), of c] by (simp_all add: m)
  have lim: "fst (need c y) \<le> limit c y" "snd (need c y) \<le> limit c y" "2 * (limit c y + unat g) \<le> 2 ^ 64"
    using need_limit [OF u] u by (simp_all add: unwrapped_def)
  have "rounded (unat g) (unat m) + rounded (unat g) (unat n) \<le> r"
    using assms(4) rounded_mono [OF le(1)] rounded_mono [OF le(2)] by (auto simp: planned_def intro: add_mono)
  moreover have "rounded (unat g) (unat m) < unat m + unat g" "rounded (unat g) (unat n) < unat n + unat g"
    using g by (simp_all add: rounded_less)
  ultimately show ?thesis using le lim by (simp add: room_def)
qed

text \<open>Without room for a size, its receive buffer ends beyond the reserved addresses.\<close>

lemma overrun:
  assumes "reserved r g c s" "enable_zero_copy s" "get_buff_size V s = Some ((m, n), t)"
    and "unwrapped c (data_size (data s)) g"
    and "steps [prepare_zero_copy A m n, alloc_hccl_send_recv_buffer A m n] t = Some (0, x)"
    and "r < rounded (unat g) (unat m) + unat n"
  shows "\<not> in_place m n x"
proof -
  have c: "config s = c" and g: "g \<noteq> 0" using assms(1) by (simp_all add: reserved_def)
  obtain d k where t: "t = s\<lparr>data := d, malloc_kSize := k\<rparr>" using get_buff_size_frame [OF assms(3)] by blast
  then have t': "reserved r g c t" "enable_zero_copy t" using assms(1,2) by (simp_all add: reserved_members)
  obtain u where u: "prepare_zero_copy A m n t = Some (0, u)" "alloc_hccl_send_recv_buffer A m n u = Some (0, x)"
    using assms(5) by (auto simp: steps.simps split: option.splits if_splits)
  note p = prepare_reserved [OF u(1) t'(2,1)]
  note x = alloc_zero_copy [OF u(2) p(3)]
  have "planned need (rounded (unat g) (unat m) + rounded (unat g) (unat n)) g c (data_size (data s))"
    using needs [OF assms(3), of g] assms(4) g by (simp add: planned_def c)
  from sizes_fit [OF assms(3) c order_refl this] have "unat (round_up m g) = rounded (unat g) (unat m)"
    using g by (simp add: room_def round_up_rounded)
  moreover obtain b where "blocks u (fst (vir_ptr u)) = Some (Reserved, b)" "length b = r"
    "snd (vir_ptr u) = 0" "physicalGranularity u = g"
    using p(1) by (auto simp: reserved_def region_def)
  ultimately show ?thesis using assms(6) by (auto simp: in_place_def readable_def x ptr_add_def)
qed

lemma size_loop_watched:
  assumes "zc_ready r g c s" "enable_zero_copy s \<Longrightarrow> planned need r g c y \<and> below y (data s)"
  shows "size_loop A (watched alt V) s = size_loop A V s"
proof -
  let ?I = "\<lambda>s. zc_ready r g c s \<and> (enable_zero_copy s \<longrightarrow> planned need r g c y \<and> below y (data s))"
  show ?thesis
  proof (rule size_loop_cong [where I = ?I])
    show "?I s" using assms by simp
    show "size_body A (watched alt V) s = size_body A V s" if "?I s" "data_size (data s) \<le> max_bytes (data s)" for s
    proof (rule size_body_watched [of r g c])
      show "room r g m n" if "get_buff_size V s = Some ((m, n), t)" "enable_zero_copy s" for m n t
      proof (rule sizes_fit [OF that(1)])
        show "config s = c" using \<open>?I s\<close> that(2) by (simp add: zc_ready_def reserved_def)
        show "data_size (data s) \<le> y"
          using \<open>?I s\<close> that(2) \<open>data_size (data s) \<le> _\<close> by (auto simp: below_def)
        show "planned need r g c y" using \<open>?I s\<close> that(2) by simp
      qed
    qed (use that in simp)
    show "?I (t\<lparr>data := d\<rparr>)" if "?I s" "size_body A V s = Some (None, t)" "next_size (data t) = Some d" for s t d
    proof -
      have "zc_ready r g c t" using size_body_ready that(1,2) by blast
      moreover have "enable_zero_copy s" if "enable_zero_copy t"
        using size_body_ready [of r 0 c s A t] that \<open>size_body A V s = Some (None, t)\<close> by (auto simp: zc_ready_off)
      moreover have "below y (data s) \<Longrightarrow> below y d"
        by (rule below_next [OF _ size_body_loop_data [OF that(2)] that(3)])
      ultimately show ?thesis using that(1) by (auto simp: zc_ready_data)
    qed
  qed
qed

end

subsection \<open>The whole test\<close>

interpretation zc: comm_frame "\<lambda>s. zc_ready r g c s \<and> P (data s)" for r g c P
  by unfold_locales
    (auto simp: zc_ready_def reserved_def config_def region_set_block region_synced synced_def set_block_def region_def
      block_bytes_def split: option.splits)

lemma steps_cong:
  "(\<And>t. c s = Some (0, t) \<Longrightarrow> steps cs t = steps ds t) \<Longrightarrow> steps (c # cs) s = steps (c # ds) s"
  by (auto simp: steps.simps split: option.split)

lemma steps_last_cong: "c s = d s \<Longrightarrow> steps [c] s = steps [d] s"
  by (simp add: steps.simps)

text \<open>The size at which the memory is planned: the first one beyond the last, or the first when the step is zero.\<close>

lemma size_scan_result:
  assumes "size_scan d = Some e"
  shows "max_bytes e < data_size e \<and> (min_bytes e, max_bytes e, step_bytes e, step_factor e) =
    (min_bytes d, max_bytes d, step_bytes d, step_factor d)"
  using assms
proof (induction rule: size_scan.raw_induct [rotated, consumes 1])
  case (1 f d e)
  then show ?case by (fastforce simp: next_size_def split: if_splits option.splits)
qed

lemma planned_data:
  assumes "(if b \<and> step_bytes (data s) = 0 then Some (data (start_at_min s)) else size_scan (data (start_at_min s))) = Some d"
    and "b \<and> step_bytes (data s) = 0 \<longrightarrow> f64_le (step_factor (data s)) (f64_of_int 1)"
    and "loop_data (data t) = loop_data d"
  shows "below (data_size (data t)) (data (start_at_min t))"
  using assms size_scan_result [of "data (start_at_min s)" d]
  by (auto simp: below_def start_at_min_def loop_data_def split: if_splits)

context growing_tester
begin

lemma plan_reserve_watched: "plan_reserve A (watched alt V) s = plan_reserve A V s"
  unfolding plan_reserve_def get_buff_size_watched ..

lemma plan_reserve_sizes:
  assumes "plan_reserve A V s = Some (n, t)"
  obtains d c m k where
    "(if stepbytes_flag s \<noteq> 0 \<and> step_bytes (data s) = 0 then Some (data (start_at_min s))
      else size_scan (data (start_at_min s))) = Some d"
    "get_buff_size V ((logged c s)\<lparr>data := d, physicalGranularity := physicalGranularity t\<rparr>) = Some ((m, k), t)"
    "get_reseved_size m k (physicalGranularity t) = Some n" "loop_data (data t) = loop_data d"
proof -
  from assms obtain d c g m k where d: "(if stepbytes_flag s \<noteq> 0 \<and> step_bytes (data s) = 0 then Some (data (start_at_min s))
      else size_scan (data (start_at_min s))) = Some d"
    and b: "get_buff_size V ((logged c s)\<lparr>data := d, physicalGranularity := g\<rparr>) = Some ((m, k), t)"
    and r: "get_reseved_size m k g = Some n"
    unfolding plan_reserve_def Let_def by (fastforce split: option.splits)
  have "physicalGranularity t = g" using get_buff_size_frame [OF b] by auto
  moreover have "loop_data (data t) = loop_data d" using get_buff_size_loop_data [OF b] by simp
  ultimately show ?thesis using d b r that by simp
qed

lemma plan_reserve_result:
  assumes plan: "plan_reserve A V s = Some (n, t)"
    and u: "unwrapped (config s) (data_size (data t)) (physicalGranularity t)"
  shows "current_alloc_phy_mem_byte t = current_alloc_phy_mem_byte s" "config t = config s"
    "planned need (unat n) (physicalGranularity t) (config s) (data_size (data t))"
proof -
  let ?g = "physicalGranularity t"
  obtain d c m k where b: "get_buff_size V ((logged c s)\<lparr>data := d, physicalGranularity := ?g\<rparr>) = Some ((m, k), t)"
    and r: "get_reseved_size m k ?g = Some n" and "loop_data (data t) = loop_data d"
    by (rule plan_reserve_sizes [OF plan])
  then have d: "data_size d = data_size (data t)" by (simp add: loop_data_def)
  obtain e l where t: "t = ((logged c s)\<lparr>data := d, physicalGranularity := ?g\<rparr>)\<lparr>data := e, malloc_kSize := l\<rparr>"
    using get_buff_size_frame [OF b] by blast
  show "current_alloc_phy_mem_byte t = current_alloc_phy_mem_byte s" "config t = config s"
    by (subst t, simp add: logged_def config_def)+
  have c: "config ((logged c s)\<lparr>data := d, physicalGranularity := ?g\<rparr>) = config s" by (simp add: logged_def config_def)
  have need: "need (config s) (data_size (data t)) = (unat m, unat k)"
    using needs [OF b, of ?g] u by (simp add: c d)
  have g: "?g \<noteq> 0" and n: "n = round_up m ?g + round_up k ?g"
    using r by (auto simp: get_reseved_size_def split: if_splits)
  let ?r = "rounded (unat ?g) (unat m) + rounded (unat ?g) (unat k)"
  have p: "planned need ?r ?g (config s) (data_size (data t))"
    using u g need by (simp add: planned_def)
  then have "room ?r ?g m k" by (intro sizes_fit [OF b c]) (simp_all add: d)
  then have "unat n = ?r"
    using g unfolding n by (simp add: room_def round_up_rounded unat_word_ariths)
  with p show "planned need (unat n) ?g (config s) (data_size (data t))" by simp
qed

lemma run_communicator_watched:
  assumes "zc_ready r g c s" "enable_zero_copy s \<Longrightarrow> planned need r g c y \<and> below y (data (start_at_min s))"
  shows "run_communicator A (watched alt V) n s = run_communicator A V n s"
  unfolding run_communicator_def
proof (intro attempt_cong)
  fix t u
  assume t: "init_hcclComm A s = Some (0, t)"
    and u: "when_do enable_zero_copy
      (with_state (\<lambda>s. call A (Hccl (CommSetMemoryRange (hccl_comm s) (vir_ptr s) n)))) t = Some (0, u)"
  have keep: "zc_ready r g' c u \<and> data u = data s" if "zc_ready r g' c s" for g'
  proof -
    let ?I = "\<lambda>u. zc_ready r g' c u \<and> data u = data s"
    have "preserves ?I (when_do enable_zero_copy
        (with_state (\<lambda>s. call A (Hccl (CommSetMemoryRange (hccl_comm s) (vir_ptr s) n)))))"
      by (intro preserve_intros)
    moreover have "?I t" by (rule preservesD [where I = ?I, OF zc.init_hcclComm _ t]) (simp add: that)
    ultimately show ?thesis using u by (rule preservesD [where I = ?I])
  qed
  have u: "zc_ready r g c u" "data u = data s" using keep [OF assms(1)] by simp_all
  have "enable_zero_copy s" if "enable_zero_copy u" using keep [of 0] that by (auto simp: zc_ready_off)
  then have "size_loop A (watched alt V) (start_at_min u) = size_loop A V (start_at_min u)"
    using u assms(2) by (intro size_loop_watched [of r g c _ y]) (simp_all add: start_at_min_def zc_ready_data)
  then have "opbase_test_by_data_size A (watched alt V) u = opbase_test_by_data_size A V u"
    by (simp add: opbase_test_by_data_size_def)
  then show "steps [ignore (opbase_test_by_data_size A (watched alt V)), error_reserve_lpcMemory A] u =
      steps [ignore (opbase_test_by_data_size A V), error_reserve_lpcMemory A] u"
    by (simp add: steps.simps ignore_def)
qed

lemma start_test_watched:
  assumes "current_alloc_phy_mem_byte s = 0"
    and "\<And>n t. plan_reserve A V s = Some (n, t) \<Longrightarrow> unwrapped (config s) (data_size (data t)) (physicalGranularity t)"
    and "stepbytes_flag s \<noteq> 0 \<and> step_bytes (data s) = 0 \<longrightarrow> f64_le (step_factor (data s)) (f64_of_int 1)"
  shows "start_test A (watched alt V) s = start_test A V s"
proof (cases "enable_zero_copy s")
  case False
  then have "run_communicator A (watched alt V) 0 s = run_communicator A V 0 s"
    by (intro run_communicator_watched [of 0 0 "config s"]) (simp_all add: zc_ready_off)
  with False show ?thesis by (simp add: start_test_def)
next
  case True
  show ?thesis
  proof (cases "plan_reserve A V s")
    case (Some x)
    then obtain n s1 where x: "plan_reserve A V s = Some (n, s1)" by (cases x) simp
    note p = plan_reserve_result [OF x assms(2) [OF x]]
    have below: "below (data_size (data s1)) (data (start_at_min s1))"
      using plan_reserve_sizes [OF x] planned_data [OF _ assms(3)] by metis
    have run: "run_communicator A (watched alt V) n u = run_communicator A V n u"
      if a: "invoke A (Acl (ReserveMemAddress n)) (\<lambda>s. Some (alloc A (Acl (ReserveMemAddress n)) Reserved (unat n)
          (\<lambda>p s. s\<lparr>vir_ptr := p\<rparr>) s)) t = Some (0, u)"
        and t: "check_alloc_memory_size A n s1 = Some (0, t)" for t u
    proof (rule run_communicator_watched)
      have l: "t = s1\<lparr>call_log := call_log t, printed := printed t\<rparr>"
        using t by (auto simp: check_alloc_memory_size_def fail_with_def logged_def Let_def split: option.splits if_splits)
      have "physicalGranularity s1 \<noteq> 0" using p(3) by (simp add: planned_def)
      then show "zc_ready (unat n) (physicalGranularity s1) (config s) u"
        using a p(1,2) assms(1)
        by (subst (asm) l) (auto simp: invoke_def alloc_def logged_def zc_ready_def reserved_def region_def config_def
            Let_def split: if_splits)
      have "data u = data s1" using a by (subst (asm) l) (auto simp: invoke_def alloc_def logged_def Let_def split: if_splits)
      then show "planned need (unat n) (physicalGranularity s1) (config s) (data_size (data s1)) \<and>
          below (data_size (data s1)) (data (start_at_min u))"
        using p(3) below by (simp add: start_at_min_def)
    qed
    then show ?thesis
      using True by (auto simp: start_test_def plan_reserve_watched x intro!: steps_cong steps_last_cong attempt_cong run)
  qed (simp add: start_test_def plan_reserve_watched True)
qed

end

end
