(* ===== verification/Zero_Copy_Safety.thy ===== *)
theory Zero_Copy_Safety
  imports Zero_Copy Exchange_Laws
begin

text \<open>
  The sizes that the eleven tests announce, and with them the memory safety of zero copy: the memory
  planned for the size beyond the last one is enough for every size of the loop.
\<close>

subsection \<open>Elements\<close>

definition width :: "int \<Rightarrow> nat" where
  "width t = (case dtype_of t of Some e \<Rightarrow> elem_width e | None \<Rightarrow> 4)"

definition elems_for :: "int \<Rightarrow> u64 \<Rightarrow> nat" where
  "elems_for t x = (unat x + width t - 1) div width t"

lemma width_range: "1 \<le> width t" "width t \<le> 8"
  using elem_width_range by (auto simp: width_def split: option.split)

lemma init_data_count_width:
  "init_data_count s = s\<lparr>data := (data s)\<lparr>
     count := (data_size (data s) + of_nat (width (dtype s)) - 1) div of_nat (width (dtype s)),
     type_size := of_nat (width (dtype s))\<rparr>\<rparr>"
proof (cases "dtype_of (dtype s)")
  case (Some e)
  then have "dtype s = dtype_value e" by (simp add: dtype_of_eq_Some)
  then show ?thesis using Some by (subst init_data_count_eq [of s e]) (simp_all add: width_def)
qed (simp add: init_data_count_def width_def Let_def)

lemma counted_members:
  "ranks (init_data_count s) = ranks s" "granularity (init_data_count s) = granularity s"
  "enable_zero_copy (init_data_count s) = enable_zero_copy s"
  by (simp_all add: init_data_count_width ranks_def)

lemma elems_for_mono: "x \<le> y \<Longrightarrow> elems_for t x \<le> elems_for t y"
  unfolding elems_for_def by (intro div_le_mono) (simp add: word_le_nat_alt)

lemma elems_for_bytes: "elems_for t x * width t \<le> unat x + 7"
  using round_up_nat(2) [of "width t" "unat x"] width_range [of t] by (simp add: elems_for_def)

lemma counted:
  assumes "unwrapped (config s) (data_size (data s)) g"
  shows "unat (count (data (init_data_count s))) = elems_for (dtype s) (data_size (data s))"
    "unat (type_size (data (init_data_count s))) = width (dtype s)"
proof -
  let ?w = "of_nat (width (dtype s)) :: u64"
  have w: "unat ?w = width (dtype s)" using width_range [of "dtype s"] by (intro unat_of_nat_small) simp
  then have "?w \<noteq> 0" using width_range(1) [of "dtype s"] by auto
  moreover have "unat (data_size (data s)) + width (dtype s) \<le> 2 ^ 64"
    using assms width_range(2) [of "dtype s"] by (simp add: unwrapped_def limit_def config_def)
  ultimately show "unat (count (data (init_data_count s))) = elems_for (dtype s) (data_size (data s))"
    "unat (type_size (data (init_data_count s))) = width (dtype s)"
    using w by (simp_all add: init_data_count_width elems_for_def unat_round_div)
qed

subsection \<open>Three ways to size a buffer\<close>

text \<open>All elements; the elements of one rank; all elements, their number rounded up for the exchange.\<close>

fun whole :: "config \<Rightarrow> u64 \<Rightarrow> nat" where
  "whole (t, k, z, a) x = elems_for t x * width t"

fun share :: "config \<Rightarrow> u64 \<Rightarrow> nat" where
  "share (t, k, z, a) x = (elems_for t x + nat k - 1) div nat k * width t"

fun shares :: "config \<Rightarrow> u64 \<Rightarrow> nat" where
  "shares (t, k, z, a) x = share (t, k, z, a) x * nat k"

fun exchanged :: "bool \<Rightarrow> config \<Rightarrow> u64 \<Rightarrow> nat" where
  "exchanged b (t, k, z, a) x =
     rounded (if nat k * 128 \<le> elems_for t x \<or> b \<and> z then nat k * 128 else nat k) (elems_for t x) * width t"

lemma rounded_multiple: "rounded n (n * m) = n * m"
proof (cases n)
  case (Suc l)
  have "(l + n * m) div n = m" by (subst div_mult_self2) (simp_all add: Suc)
  then show ?thesis by (simp add: rounded_def Suc ac_simps)
qed (simp add: rounded_def)

lemma needs_mono:
  assumes "x \<le> y"
  shows "whole c x \<le> whole c y" "share c x \<le> share c y" "shares c x \<le> shares c y" "exchanged b c x \<le> exchanged b c y"
proof -
  obtain t k z a where c: "c = (t, k, z, a)" by (cases c) auto
  note e = elems_for_mono [OF assms, of t]
  show "whole c x \<le> whole c y" unfolding c whole.simps by (intro mult_le_mono1 e)
  show s: "share c x \<le> share c y" unfolding c share.simps by (intro mult_le_mono1 div_le_mono diff_le_mono add_le_mono1 e)
  then show "shares c x \<le> shares c y" unfolding c shares.simps by (rule mult_le_mono1)
  show "exchanged b c x \<le> exchanged b c y"
  proof (cases "nat k * 128 \<le> elems_for t x \<or> b \<and> z")
    case True
    then show ?thesis using e unfolding c by (auto intro!: mult_le_mono1 rounded_mono)
  next
    case small: False
    show ?thesis
    proof (cases "nat k * 128 \<le> elems_for t y")
      case True
      have "rounded (nat k) (elems_for t x) \<le> rounded (nat k) (nat k * 128)"
        using small by (intro rounded_mono) simp
      also have "rounded (nat k) (nat k * 128) = nat k * 128" by (rule rounded_multiple)
      also have "nat k * 128 \<le> elems_for t y" by (rule True)
      also have "elems_for t y \<le> rounded (nat k * 128) (elems_for t y)"
        using small True by (intro rounded_ge) auto
      finally have "rounded (nat k) (elems_for t x) \<le> rounded (nat k * 128) (elems_for t y)" .
      then show ?thesis using small True unfolding c by (auto intro!: mult_le_mono1)
    next
      case False
      then show ?thesis using small e unfolding c by (auto intro!: mult_le_mono1 rounded_mono)
    qed
  qed
qed

lemma needs_limit:
  assumes "unwrapped c x g"
  shows "whole c x \<le> limit c x" "share c x \<le> limit c x" "shares c x \<le> limit c x" "exchanged b c x \<le> limit c x"
proof -
  obtain t k z a where c: "c = (t, k, z, a)" by (cases c) auto
  have k: "1 \<le> nat k" using assms by (auto simp: unwrapped_def c Suc_le_eq)
  note w = elems_for_bytes [of t x] width_range [of t]
  have l: "limit (t, k, z, a) x = unat x + 8 * (128 * nat k + 1)" by (simp add: limit_def)
  have r: "(elems_for t x + n) * width t \<le> unat x + 7 + n * 8" for n
    using w by (simp add: add_mult_distrib add_mono)
  show "whole c x \<le> limit c x" using w(1) by (simp add: l c)
  have "(elems_for t x + nat k - 1) div nat k * nat k \<le> elems_for t x + (nat k - 1)"
    using round_up_nat(2) [of "nat k" "elems_for t x"] k by simp
  then have "(elems_for t x + nat k - 1) div nat k * nat k * width t \<le> unat x + 7 + (nat k - 1) * 8"
    using r [of "nat k - 1"] mult_le_mono1 le_trans by blast
  also have "\<dots> \<le> unat x + 7 + nat k * 8" by simp
  finally have "(elems_for t x + nat k - 1) div nat k * nat k * width t \<le> unat x + 7 + nat k * 8" .
  then show s: "shares c x \<le> limit c x" using k by (simp add: l c ac_simps)
  have "share c x \<le> shares c x" using k by (simp add: c)
  with s show "share c x \<le> limit c x" by simp
  define m where "m = (if nat k * 128 \<le> elems_for t x \<or> b \<and> z then nat k * 128 else nat k)"
  have m: "0 < m" "m \<le> nat k * 128" using k by (auto simp: m_def Suc_le_eq)
  have "rounded m (elems_for t x) \<le> elems_for t x + nat k * 128"
    using rounded_less [OF m(1), of "elems_for t x"] m(2) by simp
  then have "rounded m (elems_for t x) * width t \<le> unat x + 7 + nat k * 128 * 8"
    using r [of "nat k * 128"] mult_le_mono1 le_trans by blast
  then show "exchanged b c x \<le> limit c x" by (simp add: l c m_def)
qed


lemma limit_small: "unwrapped c x g \<Longrightarrow> limit c x < 2 ^ 64"
  by (simp add: unwrapped_def)

lemma whole_bytes:
  assumes "unwrapped (config s) (data_size (data s)) g"
  shows "unat (count (data (init_data_count s)) * type_size (data (init_data_count s))) =
    whole (config s) (data_size (data s))"
  using needs_limit(1) [OF assms] limit_small [OF assms]
  by (simp add: unat_mult_small counted [OF assms] config_def)

lemma ranks_unwrapped:
  assumes "unwrapped (config s) (data_size (data s)) g"
  shows "unat (ranks s) = nat (rank_size s)" "1 \<le> nat (rank_size s)" "nat (rank_size s) < 2 ^ 31"
    "elems_for (dtype s) (data_size (data s)) + nat (rank_size s) * 128 \<le> 2 ^ 64"
proof -
  have k: "1 \<le> rank_size s" "rank_size s < 2 ^ 31" using assms by (auto simp: unwrapped_def config_def)
  then show "unat (ranks s) = nat (rank_size s)" by (intro ranks_nat) simp_all
  show "1 \<le> nat (rank_size s)" "nat (rank_size s) < 2 ^ 31" using k by simp_all
  have "elems_for (dtype s) (data_size (data s)) \<le> elems_for (dtype s) (data_size (data s)) * width (dtype s)"
    using width_range(1) [of "dtype s"] by (cases "width (dtype s)") simp_all
  also have "\<dots> \<le> unat (data_size (data s)) + 7" by (rule elems_for_bytes)
  finally show "elems_for (dtype s) (data_size (data s)) + nat (rank_size s) * 128 \<le> 2 ^ 64"
    using assms by (simp add: unwrapped_def config_def limit_def)
qed

lemma share_bytes:
  assumes "share_count (init_data_count s) = Some (n, t)" and u: "unwrapped (config s) (data_size (data s)) g"
  shows "unat n = share (config s) (data_size (data s))" "unat (n * ranks s) = shares (config s) (data_size (data s))"
proof -
  let ?e = "elems_for (dtype s) (data_size (data s))" and ?c = "count (data (init_data_count s))"
  note r = ranks_unwrapped [OF u] and lim = needs_limit [OF u] limit_small [OF u]
  have n: "n = (?c + ranks s - 1) div ranks s * type_size (data (init_data_count s))" and nz: "ranks s \<noteq> 0"
    using assms(1) by (auto simp: share_count_def Let_def ranks_def init_data_count_width split: if_splits)
  have "unat ((?c + ranks s - 1) div ranks s) = (?e + nat (rank_size s) - 1) div nat (rank_size s)"
    using unat_round_div [OF nz, of ?c] r by (simp add: counted [OF u])
  then show s: "unat n = share (config s) (data_size (data s))"
    using lim(2,5) unfolding n by (simp add: unat_mult_small counted [OF u] config_def)
  show "unat (n * ranks s) = shares (config s) (data_size (data s))"
    using lim(3,5) by (simp add: unat_mult_small s r(1) config_def)
qed

lemma exchanged_bytes:
  assumes "round_count (if ranks s * 128 \<le> count (data (init_data_count s)) \<or> b \<and> enable_zero_copy s
      then ranks s * 128 else ranks s) (init_data_count s) = Some (n, t)"
    and u: "unwrapped (config s) (data_size (data s)) g"
  shows "unat n = exchanged b (config s) (data_size (data s))"
proof -
  let ?e = "elems_for (dtype s) (data_size (data s))" and ?c = "count (data (init_data_count s))"
  note r = ranks_unwrapped [OF u] and lim = needs_limit(4) [OF u, of b] limit_small [OF u]
  have r128: "unat (ranks s * 128) = nat (rank_size s) * 128" using r(1,3) by (simp add: unat_mult_small)
  define a where "a = (if ranks s * 128 \<le> ?c \<or> b \<and> enable_zero_copy s then ranks s * 128 else ranks s)"
  define k where "k = (if nat (rank_size s) * 128 \<le> ?e \<or> b \<and> enable_zero_copy s
    then nat (rank_size s) * 128 else nat (rank_size s))"
  have a: "unat a = k" by (simp add: a_def k_def word_le_nat_alt r128 r(1) counted [OF u])
  have k: "1 \<le> k" "k \<le> nat (rank_size s) * 128" using r(2) by (simp_all add: k_def)
  have nz: "a \<noteq> 0" using a k(1) by auto
  have n: "n = (?c + a - 1) div a * a * type_size (data (init_data_count s))"
    using assms(1) by (auto simp: round_count_def Let_def a_def [symmetric] split: if_splits)
  have "unat ((?c + a - 1) div a) = (?e + k - 1) div k"
    using unat_round_div [OF nz, of ?c] r(4) k(2) by (simp add: counted [OF u] a)
  moreover have x: "exchanged b (config s) (data_size (data s)) = rounded k ?e * width (dtype s)"
    by (simp add: config_def k_def)
  moreover have "rounded k ?e < 2 ^ 64"
  proof -
    have "rounded k ?e \<le> exchanged b (config s) (data_size (data s))"
      unfolding x using width_range(1) [of "dtype s"] by (cases "width (dtype s)") simp_all
    then show ?thesis using lim by (rule le_less_trans [OF order_trans])
  qed
  ultimately have "unat ((?c + a - 1) div a * a) = rounded k ?e"
    by (simp add: unat_mult_small a rounded_def)
  then show ?thesis using lim unfolding n x by (simp add: unat_mult_small counted [OF u])
qed

subsection \<open>The tests\<close>

text \<open>What \<open>get_buff_size\<close> delivers for each of the three ways.\<close>

lemma get_buff_size_whole:
  assumes "get_buff_size V s = Some ((m, n), t)"
    and "init_malloc_Ksize_by_data V = (\<lambda>s. Some (count (data s) * type_size (data s), s))"
    and "unwrapped (config s) (data_size (data s)) g"
  shows "(m, n) = init_send_recv_size_by_data V t" "unat (malloc_kSize t) = whole (config s) (data_size (data s))"
  using assms(1,2) whole_bytes [OF assms(3)] by (auto simp: get_buff_size_def Let_def)

lemma get_buff_size_share:
  assumes "get_buff_size V s = Some ((m, n), t)" "init_malloc_Ksize_by_data V = share_count"
    and "unwrapped (config s) (data_size (data s)) g"
  shows "(m, n) = init_send_recv_size_by_data V t" "unat (malloc_kSize t) = share (config s) (data_size (data s))"
    "unat (malloc_kSize t * ranks t) = shares (config s) (data_size (data s))"
proof -
  from assms(1,2) obtain k u where u: "share_count (init_data_count s) = Some (k, u)" "t = u\<lparr>malloc_kSize := k\<rparr>"
    and mn: "(m, n) = init_send_recv_size_by_data V t"
    by (auto simp: get_buff_size_def Let_def split: option.splits)
  show "(m, n) = init_send_recv_size_by_data V t" by (rule mn)
  have "ranks t = ranks s" using share_count_frame [OF u(1)] by (auto simp: u(2) ranks_def init_data_count_width)
  then show "unat (malloc_kSize t) = share (config s) (data_size (data s))"
    "unat (malloc_kSize t * ranks t) = shares (config s) (data_size (data s))"
    using share_bytes [OF u(1) assms(3)] by (simp_all add: u(2))
qed

lemma get_buff_size_exchanged:
  assumes "get_buff_size V s = Some ((m, n), t)"
    and "init_malloc_Ksize_by_data V = (\<lambda>s. round_count
      (if ranks s * granularity s \<le> count (data s) \<or> b \<and> enable_zero_copy s then ranks s * granularity s else ranks s) s)"
    and "unwrapped (config s) (data_size (data s)) g"
  shows "(m, n) = init_send_recv_size_by_data V t"
    "unat (malloc_kSize t) = exchanged b (config s) (data_size (data s))"
proof -
  have "granularity s = 128" using assms(3) by (simp add: unwrapped_def config_def)
  with assms(1,2) obtain k u where u: "round_count (if ranks s * 128 \<le> count (data (init_data_count s)) \<or>
        b \<and> enable_zero_copy s then ranks s * 128 else ranks s) (init_data_count s) = Some (k, u)"
    "t = u\<lparr>malloc_kSize := k\<rparr>" and mn: "(m, n) = init_send_recv_size_by_data V t"
    by (auto simp: get_buff_size_def Let_def counted_members split: option.splits cong: if_cong)
  show "(m, n) = init_send_recv_size_by_data V t" by (rule mn)
  show "unat (malloc_kSize t) = exchanged b (config s) (data_size (data s))"
    using exchanged_bytes [OF u(1) assms(3)] by (simp add: u(2))
qed

lemmas needs_rules = needs_mono needs_limit

interpretation allreduce_sizes: growing_tester "allreduce_vtable A" "\<lambda>c x. (whole c x, whole c x)" for A
proof (unfold_locales, goal_cases)
  case (3 s m n t g)
  show ?case
    using get_buff_size_whole [OF 3(1) _ 3(2)]
    by (simp add: allreduce_vtable_def allreduce_init_malloc_Ksize_by_data_def allreduce_init_send_recv_size_by_data_def fun_eq_iff)
qed (simp_all add: allreduce_vtable_def region.allreduce allreduce_init_send_recv_size_by_data_def ranks_def needs_rules)

interpretation reduce_sizes: growing_tester "reduce_vtable A" "\<lambda>c x. (whole c x, whole c x)" for A
proof (unfold_locales, goal_cases)
  case (3 s m n t g)
  show ?case
    using get_buff_size_whole [OF 3(1) _ 3(2)]
    by (simp add: reduce_vtable_def reduce_init_malloc_Ksize_by_data_def reduce_init_send_recv_size_by_data_def fun_eq_iff)
qed (simp_all add: reduce_vtable_def region.reduce reduce_init_send_recv_size_by_data_def ranks_def needs_rules)

interpretation reducescatter_sizes: growing_tester "reducescatter_vtable A" "\<lambda>c x. (shares c x, share c x)" for A
proof (unfold_locales, goal_cases)
  case (3 s m n t g)
  show ?case
    using get_buff_size_share [OF 3(1) _ 3(2)]
    by (simp add: reducescatter_vtable_def reducescatter_init_malloc_Ksize_by_data_def reducescatter_init_send_recv_size_by_data_def fun_eq_iff)
qed (simp_all add: reducescatter_vtable_def region.reducescatter reducescatter_init_send_recv_size_by_data_def ranks_def needs_rules)

interpretation reducescatterv_sizes: growing_tester "reducescatterv_vtable A" "\<lambda>c x. (shares c x, share c x)" for A
proof (unfold_locales, goal_cases)
  case (3 s m n t g)
  show ?case
    using get_buff_size_share [OF 3(1) _ 3(2)]
    by (simp add: reducescatterv_vtable_def reducescatterv_init_malloc_Ksize_by_data_def reducescatterv_init_send_recv_size_by_data_def fun_eq_iff)
qed (simp_all add: reducescatterv_vtable_def region_rsv.reducescatterv reducescatterv_init_send_recv_size_by_data_def ranks_def needs_rules)

interpretation brocast_sizes: growing_tester "brocast_vtable A" "\<lambda>c x. (whole c x, 0)" for A
proof (unfold_locales, goal_cases)
  case (3 s m n t g)
  show ?case
    using get_buff_size_whole [OF 3(1) _ 3(2)]
    by (simp add: brocast_vtable_def brocast_init_malloc_Ksize_by_data_def brocast_init_send_recv_size_by_data_def fun_eq_iff)
qed (simp_all add: brocast_vtable_def region.brocast brocast_init_send_recv_size_by_data_def ranks_def needs_rules)

interpretation allgather_sizes: growing_tester "allgather_vtable A" "\<lambda>c x. (share c x, shares c x)" for A
proof (unfold_locales, goal_cases)
  case (3 s m n t g)
  show ?case
    using get_buff_size_share [OF 3(1) _ 3(2)]
    by (simp add: allgather_vtable_def allgather_init_malloc_Ksize_by_data_def allgather_init_send_recv_size_by_data_def fun_eq_iff)
qed (simp_all add: allgather_vtable_def region.allgather allgather_init_send_recv_size_by_data_def ranks_def needs_rules)

interpretation allgatherv_sizes: growing_tester "allgatherv_vtable A" "\<lambda>c x. (share c x, shares c x)" for A
proof (unfold_locales, goal_cases)
  case (3 s m n t g)
  show ?case
    using get_buff_size_share [OF 3(1) _ 3(2)]
    by (simp add: allgatherv_vtable_def allgatherv_init_malloc_Ksize_by_data_def allgatherv_init_send_recv_size_by_data_def fun_eq_iff)
qed (simp_all add: allgatherv_vtable_def region_agv.allgatherv allgatherv_init_send_recv_size_by_data_def ranks_def needs_rules)

interpretation scatter_sizes: growing_tester "scatter_vtable A" "\<lambda>c x. (shares c x, share c x)" for A
proof (unfold_locales, goal_cases)
  case (3 s m n t g)
  show ?case
    using get_buff_size_share [OF 3(1) _ 3(2)]
    by (simp add: scatter_vtable_def scatter_init_malloc_Ksize_by_data_def scatter_init_send_recv_size_by_data_def fun_eq_iff)
qed (simp_all add: scatter_vtable_def region.scatter scatter_init_send_recv_size_by_data_def ranks_def needs_rules)

interpretation alltoall_sizes: growing_tester "alltoall_vtable A" "\<lambda>c x. (exchanged True c x, exchanged True c x)" for A
proof (unfold_locales, goal_cases)
  case (3 s m n t g)
  show ?case
    using get_buff_size_exchanged [OF 3(1) _ 3(2), where b = True]
    by (simp add: alltoall_vtable_def alltoall_init_malloc_Ksize_by_data_def alltoall_init_send_recv_size_by_data_def fun_eq_iff)
qed (simp_all add: alltoall_vtable_def region_a2a.alltoall alltoall_init_send_recv_size_by_data_def ranks_def needs_rules)

interpretation alltoallv_sizes: growing_tester "alltoallv_vtable A" "\<lambda>c x. (exchanged False c x, exchanged False c x)" for A
proof (unfold_locales, goal_cases)
  case (3 s m n t g)
  show ?case
    using get_buff_size_exchanged [OF 3(1) _ 3(2), where b = False]
    by (simp add: alltoallv_vtable_def alltoallv_init_malloc_Ksize_by_data_def alltoallv_init_send_recv_size_by_data_def fun_eq_iff)
qed (simp_all add: alltoallv_vtable_def region_a2av.alltoallv alltoallv_init_send_recv_size_by_data_def ranks_def needs_rules)

interpretation alltoallvc_sizes: growing_tester "alltoallvc_vtable A" "\<lambda>c x. (exchanged False c x, exchanged False c x)" for A
proof (unfold_locales, goal_cases)
  case (3 s m n t g)
  show ?case
    using get_buff_size_exchanged [OF 3(1) _ 3(2), where b = False]
    by (simp add: alltoallvc_vtable_def alltoallvc_init_malloc_Ksize_by_data_def alltoallvc_init_send_recv_size_by_data_def fun_eq_iff)
qed (simp_all add: alltoallvc_vtable_def region_a2avc.alltoallvc alltoallvc_init_send_recv_size_by_data_def ranks_def needs_rules)

subsection \<open>No test finds its buffers out of place\<close>

text \<open>
  Before a run nothing is mapped; the planned sizes do not wrap; and a step of zero bytes is not
  combined with a factor.
\<close>

definition safely_planned :: "api \<Rightarrow> ('a HcclOpBaseTest_scheme) vtable \<Rightarrow> 'a HcclOpBaseTest_scheme \<Rightarrow> bool" where
  "safely_planned A V s \<longleftrightarrow> current_alloc_phy_mem_byte s = 0 \<and>
     (case plan_reserve A V s of None \<Rightarrow> True
      | Some (n, t) \<Rightarrow> unwrapped (config s) (data_size (data t)) (physicalGranularity t)) \<and>
     (stepbytes_flag s \<noteq> 0 \<and> step_bytes (data s) = 0 \<longrightarrow> f64_le (step_factor (data s)) (f64_of_int 1))"

context growing_tester
begin

lemma safely_planned_watched: "safely_planned A V s \<Longrightarrow> start_test A (watched alt V) s = start_test A V s"
  by (rule start_test_watched) (auto simp: safely_planned_def)

end

text \<open>
  C3.  Zero copy is memory safe: for each of the eleven tests, every environment and every status its
  calls return, whenever the driver enters a test of any size, the send and the receive buffer it
  announced lie in mapped parts of the reserved addresses and do not overlap.  The memory planned
  for the size beyond the last one is enough for all sizes, unless a size computation wraps, or a
  step of zero is combined with a factor.
\<close>
theorem zero_copy_in_place:
  "(safely_planned A (allreduce_vtable A) s \<longrightarrow>
      start_test A (watched alt (allreduce_vtable A)) s = start_test A (allreduce_vtable A) s) \<and>
   (safely_planned A (reduce_vtable A) s \<longrightarrow>
      start_test A (watched alt (reduce_vtable A)) s = start_test A (reduce_vtable A) s) \<and>
   (safely_planned A (reducescatter_vtable A) s \<longrightarrow>
      start_test A (watched alt (reducescatter_vtable A)) s = start_test A (reducescatter_vtable A) s) \<and>
   (safely_planned A (reducescatterv_vtable A) s1 \<longrightarrow>
      start_test A (watched alt1 (reducescatterv_vtable A)) s1 = start_test A (reducescatterv_vtable A) s1) \<and>
   (safely_planned A (brocast_vtable A) s \<longrightarrow>
      start_test A (watched alt (brocast_vtable A)) s = start_test A (brocast_vtable A) s) \<and>
   (safely_planned A (allgather_vtable A) s \<longrightarrow>
      start_test A (watched alt (allgather_vtable A)) s = start_test A (allgather_vtable A) s) \<and>
   (safely_planned A (allgatherv_vtable A) s2 \<longrightarrow>
      start_test A (watched alt2 (allgatherv_vtable A)) s2 = start_test A (allgatherv_vtable A) s2) \<and>
   (safely_planned A (scatter_vtable A) s \<longrightarrow>
      start_test A (watched alt (scatter_vtable A)) s = start_test A (scatter_vtable A) s) \<and>
   (safely_planned A (alltoall_vtable A) s3 \<longrightarrow>
      start_test A (watched alt3 (alltoall_vtable A)) s3 = start_test A (alltoall_vtable A) s3) \<and>
   (safely_planned A (alltoallv_vtable A) s4 \<longrightarrow>
      start_test A (watched alt4 (alltoallv_vtable A)) s4 = start_test A (alltoallv_vtable A) s4) \<and>
   (safely_planned A (alltoallvc_vtable A) s5 \<longrightarrow>
      start_test A (watched alt5 (alltoallvc_vtable A)) s5 = start_test A (alltoallvc_vtable A) s5)"
  by (intro conjI impI; (erule allreduce_sizes.safely_planned_watched reduce_sizes.safely_planned_watched
        reducescatter_sizes.safely_planned_watched reducescatterv_sizes.safely_planned_watched
        brocast_sizes.safely_planned_watched allgather_sizes.safely_planned_watched
        allgatherv_sizes.safely_planned_watched scatter_sizes.safely_planned_watched
        alltoall_sizes.safely_planned_watched alltoallv_sizes.safely_planned_watched
        alltoallvc_sizes.safely_planned_watched))

text \<open>One rank, 8 bytes of \<open>float\<close>, and a granularity of 2 MB.\<close>

definition zc_tester :: HcclOpBaseTest where
  "zc_tester = new_tester\<lparr>dtype := dtype_value HCCL_DATA_TYPE_FP32, rank_size := 1, enable_zero_copy := True,
     data := zero_data\<lparr>min_bytes := 8, max_bytes := 8, step_bytes := 8, step_factor := f64_of_int 1\<rparr>\<rparr>"

abbreviation mb2_api :: api where "mb2_api \<equiv> ideal_api (\<lambda>_ _. 2097152)"

lemma zc_tester_plan:
  "\<exists>t. plan_reserve mb2_api (allreduce_vtable mb2_api) zc_tester = Some (4194304, t) \<and> data_size (data t) = 16
    \<and> physicalGranularity t = 2097152"
  by (simp add: plan_reserve_def start_at_min_def zc_tester_def size_scan.simps next_size_def factor_one ideal_api_def
      logged_def get_buff_size_def Let_def init_data_count_eq elem_width_def allreduce_vtable_def
      allreduce_init_malloc_Ksize_by_data_def allreduce_init_send_recv_size_by_data_def get_reseved_size_def round_up_def
      tester_defs del: dtype_value.simps)

lemma zero_copy_in_place_witness:
  "\<forall>alt. safely_planned mb2_api (allreduce_vtable mb2_api) zc_tester \<and> enable_zero_copy zc_tester \<and>
     start_test mb2_api (watched alt (allreduce_vtable mb2_api)) zc_tester =
       start_test mb2_api (allreduce_vtable mb2_api) zc_tester"
proof (rule allI)
  fix alt :: "HcclOpBaseTest cmd"
  have "config zc_tester = (dtype_value HCCL_DATA_TYPE_FP32, 1, True, 128)"
    "current_alloc_phy_mem_byte zc_tester = 0" "step_bytes (data zc_tester) = 8" "enable_zero_copy zc_tester"
    by (simp_all add: config_def zc_tester_def tester_defs)
  then have p: "safely_planned mb2_api (allreduce_vtable mb2_api) zc_tester" "enable_zero_copy zc_tester"
    using zc_tester_plan by (auto simp: safely_planned_def unwrapped_def limit_def)
  then show "safely_planned mb2_api (allreduce_vtable mb2_api) zc_tester \<and> enable_zero_copy zc_tester \<and>
     start_test mb2_api (watched alt (allreduce_vtable mb2_api)) zc_tester =
       start_test mb2_api (allreduce_vtable mb2_api) zc_tester"
    using zero_copy_in_place by blast
qed

subsection \<open>A step of zero bytes with a factor\<close>

text \<open>
  C22.  With \<open>-i 0\<close> the driver reserves memory for \<open>minbytes\<close> only, also when \<open>-f\<close> makes the sizes
  grow: when a later size needs more, its receive buffer reaches beyond the reserved addresses
  although every call has succeeded.
\<close>
theorem zero_step_reserves_too_little:
  assumes plan: "plan_reserve A (allreduce_vtable A) s = Some (r, t)"
    and zero: "stepbytes_flag s \<noteq> 0" "step_bytes (data s) = 0"
    and u: "unwrapped (config s) (min_bytes (data s)) g" "physicalGranularity t = g" "reserved (unat r) g (config s) v"
      "enable_zero_copy s"
    and size: "get_buff_size (allreduce_vtable A) v = Some ((m, n), w)" "unwrapped (config s) (data_size (data v)) g"
      "steps [prepare_zero_copy A m n, alloc_hccl_send_recv_buffer A m n] w = Some (0, x)"
    and more: "2 * rounded (unat g) (whole (config s) (min_bytes (data s))) <
      rounded (unat g) (whole (config s) (data_size (data v))) + whole (config s) (data_size (data v))"
  shows "unat r = 2 * rounded (unat g) (whole (config s) (min_bytes (data s))) \<and> \<not> in_place m n x"
proof -
  obtain d where "(if stepbytes_flag s \<noteq> 0 \<and> step_bytes (data s) = 0 then Some (data (start_at_min s))
      else size_scan (data (start_at_min s))) = Some d" "loop_data (data t) = loop_data d"
    by (rule allreduce_sizes.plan_reserve_sizes [OF plan])
  then have "loop_data (data t) = loop_data (data (start_at_min s))" using zero by simp
  then have t: "data_size (data t) = min_bytes (data s)" by (simp add: loop_data_def start_at_min_def)
  have r: "unat r = 2 * rounded (unat g) (whole (config s) (min_bytes (data s)))"
    using allreduce_sizes.plan_reserve_result(3) [OF plan] u(1,2) by (simp add: t planned_def)
  have c: "config v = config s" using u(3) by (simp add: reserved_def)
  have "enable_zero_copy v" using u(4) config_zero_copy [OF c] by simp
  moreover have "unat m = whole (config s) (data_size (data v))" "unat n = whole (config s) (data_size (data v))"
    using allreduce_sizes.needs [OF size(1), of g] size(2) by (simp_all add: c)
  ultimately have "\<not> in_place m n x"
    using more r by (intro allreduce_sizes.overrun [OF u(3) _ size(1,2,3)]) simp_all
  with r show ?thesis by simp
qed

definition growing :: HcclOpBaseTest where
  "growing = zc_tester\<lparr>stepbytes_flag := 1,
     data := zero_data\<lparr>min_bytes := 4, max_bytes := 8, step_bytes := 0, step_factor := f64_of_int 2\<rparr>\<rparr>"

text \<open>After the first size of 4 bytes, with 8 bytes reserved and mapped.\<close>

definition second_size :: HcclOpBaseTest where
  "second_size = growing\<lparr>data := (data growing)\<lparr>data_size := 8\<rparr>, physicalGranularity := 4, vir_ptr := (1, 0),
     blocks := [1 \<mapsto> (Reserved, replicate 8 0)], next_block := 2, mapped := [((1, 0), 8)],
     current_alloc_phy_mem_byte := 8\<rparr>"

abbreviation b4_api :: api where "b4_api \<equiv> ideal_api (\<lambda>_ _. 4)"

lemma zero_step_reserves_too_little_witness:
  "\<exists>t w x. plan_reserve b4_api (allreduce_vtable b4_api) growing = Some (8, t) \<and>
     get_buff_size (allreduce_vtable b4_api) second_size = Some ((8, 8), w) \<and>
     steps [prepare_zero_copy b4_api 8 8, alloc_hccl_send_recv_buffer b4_api 8 8] w = Some (0, x) \<and> \<not> in_place 8 8 x"
proof -
  have 1: "\<exists>t. plan_reserve b4_api (allreduce_vtable b4_api) growing = Some (8, t) \<and> physicalGranularity t = 4"
    by (simp add: plan_reserve_def start_at_min_def zc_tester_def growing_def ideal_api_def
      logged_def get_buff_size_def Let_def init_data_count_eq elem_width_def allreduce_vtable_def
      allreduce_init_malloc_Ksize_by_data_def allreduce_init_send_recv_size_by_data_def get_reseved_size_def round_up_def
      tester_defs del: dtype_value.simps)
  then obtain t where t: "plan_reserve b4_api (allreduce_vtable b4_api) growing = Some (8, t)" "physicalGranularity t = 4"
    by blast
  have c: "config growing = (dtype_value HCCL_DATA_TYPE_FP32, 1, True, 128)" "config second_size = config growing"
    "stepbytes_flag growing \<noteq> 0" "step_bytes (data growing) = 0" "min_bytes (data growing) = 4" "enable_zero_copy growing"
    "data_size (data second_size) = 8"
    by (simp_all add: config_def second_size_def growing_def zc_tester_def tester_defs)
  have r: "reserved (unat (8 :: u64)) 4 (config growing) second_size"
    by (auto simp: reserved_def c(2)) (auto simp: second_size_def region_def is_mapped_def)
  obtain w where w: "get_buff_size (allreduce_vtable b4_api) second_size = Some ((8, 8), w)"
    by (simp add: second_size_def growing_def zc_tester_def get_buff_size_def Let_def init_data_count_eq elem_width_def
      allreduce_vtable_def allreduce_init_malloc_Ksize_by_data_def allreduce_init_send_recv_size_by_data_def
      tester_defs del: dtype_value.simps)
  obtain d k where dk: "w = second_size\<lparr>data := d, malloc_kSize := k\<rparr>" using allreduce_sizes.get_buff_size_frame [OF w] by blast
  obtain x where x: "steps [prepare_zero_copy b4_api 8 8, alloc_hccl_send_recv_buffer b4_api 8 8] w = Some (0, x)"
    by (simp add: dk second_size_def growing_def zc_tester_def prepare_zero_copy_def get_reseved_size_def round_up_def
      Let_def enable_memory_def attempt_def call_def invoke_def aclrtMapMem_def alloc_hccl_send_recv_buffer_def
      cmd_defs ideal_api_def logged_def tester_defs)
  have n: "whole (config growing) 4 = 4" "whole (config growing) 8 = 8" "unwrapped (config growing) 4 4"
    "unwrapped (config growing) 8 4" "2 * rounded (unat (4 :: u64)) 4 < rounded (unat (4 :: u64)) 8 + 8"
    by (simp_all add: c(1) unwrapped_def limit_def rounded_def elems_for_def width_def elem_width_def del: dtype_value.simps)
  have "\<not> in_place 8 8 x"
    by (rule zero_step_reserves_too_little [OF t(1) c(3,4), of 4 second_size 8 8 w x, unfolded c(5,7) n(1,2),
          OF n(3) t(2) r c(6) w n(4) x n(5), THEN conjunct2])
  with t(1) w x show ?thesis by blast
qed

end
