(* ===== verification/Typed_Options.thy ===== *)
theory Typed_Options
  imports Driver_Agreement
begin

text \<open>
  The types of the options.  The members \<open>dtype\<close> and \<open>op_type\<close> are of type \<open>int\<close> where the code means
  an enumeration, and other options are numbers with a range.  Shown here: a program only ever
  enters a test with options that are what they stand for.
\<close>

subsection \<open>Well-typed options\<close>

definition typed :: "'a HcclTest_scheme \<Rightarrow> bool" where
  "typed s \<longleftrightarrow> dtype_of (dtype s) \<noteq> None \<and> op_of (op_type s) \<noteq> None \<and>
     0 \<le> accelerator_config s \<and> accelerator_config s < int (length test_accelerator_config) \<and>
     0 \<le> warmup_iters s \<and> 0 \<le> iters s \<and> 0 \<le> root_rank s \<and> root_rank s < rank_size s \<and>
     check s \<in> {0, 1} \<and> 1 \<le> npus s \<and> npus s \<le> uint (dev_count s) \<and>
     only_device_exec_time s \<in> {0, 1} \<and>
     (only_device_exec_time s = 1 \<longrightarrow> warmup_iters s \<le> 100 \<and> iters s \<le> 100 \<and> accelerator_config s \<noteq> 2)"

text \<open>While the options are read: a name that is not in its table has become \<open>-1\<close>.\<close>

definition found :: "(int \<Rightarrow> 'b option) \<Rightarrow> int \<Rightarrow> bool" where
  "found table i \<longleftrightarrow> i = - 1 \<or> table i \<noteq> None"

definition looked_up :: "'a HcclTest_scheme \<Rightarrow> bool" where
  "looked_up s \<longleftrightarrow> found dtype_of (dtype s) \<and> found op_of (op_type s) \<and>
     - 1 \<le> accelerator_config s \<and> accelerator_config s < int (length test_accelerator_config) \<and>
     in_s 32 (npus s)"

interpretation typed: settings_frame "\<lambda>s. typed s" by unfold_locales (simp_all add: typed_def)

interpretation looked_up: settings_frame "\<lambda>s. looked_up s" by unfold_locales (simp_all add: looked_up_def)

lemma typed_frame:
  assumes "frame t = frame s" "check_kept (check s) t" "typed s"
  shows "typed t"
  using assms by (auto simp: frame_def typed_def check_kept_def HcclTest.defs)

subsection \<open>From the arguments to the settings\<close>

lemma names_looked_up:
  "found dtype_of (get_hccl_dtype_from_str n)" "found op_of (get_hccl_op_from_str n)"
  "- 1 \<le> get_accelerator_config_value_from_str n"
  "get_accelerator_config_value_from_str n < int (length test_accelerator_config)"
  by (auto simp: found_def get_hccl_dtype_from_str_def get_hccl_op_from_str_def get_accelerator_config_value_from_str_def
      test_typenames_def test_types_def dtype_of_def test_opnames_def test_ops_def op_of_def
      test_accelerator_config_def split: option.splits if_splits)

lemma print_help_looked_up [preserve_intros]: "preserves looked_up (print_help A :: 'a HcclOpBaseTest_scheme cmd)"
  by (auto simp: preserves_def print_help_def cmd_defs say_def print_def looked_up.stable split: option.splits)

lemma parse_opt_looked_up [preserve_intros]:
  "preserves looked_up (parse_opt A opt optarg :: 'a HcclOpBaseTest_scheme cmd)"
  unfolding parse_opt_def by (intro preserves_if preserve_intros; auto simp: looked_up_def names_looked_up wrap_s_bounds)

lemma parse_cmd_line_looked_up:
  "preserves looked_up (parse_cmd_line A opts rest :: 'a HcclOpBaseTest_scheme cmd)"
  unfolding parse_cmd_line_def
  by (rule preserves_steps, unfold list_all_append) (intro conjI preserve_intros)

lemma get_mpi_proc_looked_up: "preserves looked_up (get_mpi_proc A :: 'a HcclOpBaseTest_scheme cmd)"
  unfolding get_mpi_proc_def by (intro preserve_intros; auto simp: looked_up_def wrap_s_bounds split: if_splits)

lemma check_data_count_looked_up [preserve_intros]:
  "preserves looked_up (check_data_count :: 'a HcclOpBaseTest_scheme cmd)"
  unfolding check_data_count_def
  by (intro preserve_intros; auto simp: looked_up_def set_step_def align_data_def Let_def split: option.splits if_splits)

lemma check_cmd_line_looked_up: "preserves looked_up (check_cmd_line :: 'a HcclOpBaseTest_scheme cmd)"
  unfolding check_cmd_line_def check_only_device_exec_time_def by (intro preserve_intros)

lemma check_cmd_line_typed:
  assumes "looked_up s" "check_cmd_line s = Some (0, t)"
  shows "typed (t :: 'a HcclOpBaseTest_scheme)"
proof -
  have "looked_up t" by (rule preservesD [OF check_cmd_line_looked_up assms])
  then show ?thesis
    using assms(2) npus_compare [of "npus t" "dev_count t"]
    by (auto simp: check_cmd_line_def check_only_device_exec_time_def ok_stages looked_up_def found_def typed_def cong: if_cong
        split: if_splits)
qed

lemma get_env_resource_typed [preserve_intros]:
  "preserves typed (get_env_resource A :: 'a HcclOpBaseTest_scheme cmd)"
proof -
  have digits: "preserves typed (require_digits e m :: 'a HcclOpBaseTest_scheme cmd)" for e m
    unfolding require_digits_def by (intro preserve_intros)
  show ?thesis unfolding get_env_resource_def by (intro preserve_intros digits) (auto simp: typed_def)
qed

subsection \<open>The programs\<close>

text \<open>
  A test replaced by any command \<open>alt\<close> where its options are not well typed.  When a program behaves
  the same with it whatever \<open>alt\<close> is, it never enters the test with such options.
\<close>

definition typed_only ::
    "'a HcclOpBaseTest_scheme cmd \<Rightarrow> ('a HcclOpBaseTest_scheme) vtable \<Rightarrow> ('a HcclOpBaseTest_scheme) vtable" where
  "typed_only alt V = V\<lparr>hccl_op_base_test := (\<lambda>s. if typed s then hccl_op_base_test V s else alt s)\<rparr>"

context tester
begin

lemma same_typed: "same_tests typed V (typed_only alt V)"
proof (intro same_tests.intro same_tests_axioms.intro typed.settings_frame_axioms tester_axioms)
  show "same typed (hccl_op_base_test V) (hccl_op_base_test (typed_only alt V))"
    by (rule sameI) (auto simp: typed_only_def preserves_def intro: typed_frame [OF op_frame op_check])
qed (simp_all add: typed_only_def)

lemma run_test_typed:
  assumes "looked_up s"
  shows "run_test A (typed_only alt V) s = run_test A V s"
proof -
  let ?tail = "\<lambda>V. attempt (device_init A)
       (\<lambda>r. steps [say ''This is an error in device_init.'', hccltesterr2 A r])
     (attempt (get_env_resource A)
       (\<lambda>_. steps [say ''This is an error in get_env.'', hccltesterr1 A])
     (attempt (set_env_resource A)
       (\<lambda>_. steps [say ''This is an error in set_env.'', hccltesterr1 A])
     (steps [ignore (start_test A V), hccltesterr1 A])))"
  have tail: "same typed (?tail V) (?tail (typed_only alt V))"
    by (intro same_intros same_tests.start_test_same same_typed same_refl preserve_intros)
  show ?thesis
    unfolding run_test_def
  proof (rule attempt_cong, rule attempt_cong)
    fix t u
    assume "get_mpi_proc A s = Some (0, t)" and u: "check_cmd_line t = Some (0, u)"
    then have "looked_up t" by (intro preservesD [OF get_mpi_proc_looked_up assms])
    then show "?tail (typed_only alt V) u = ?tail V u"
      using check_cmd_line_typed [OF _ u] sameD [OF tail] by simp
  qed
qed

lemma main_typed:
  assumes "\<And>s. looked_up (init_opbase_ptr s)"
  shows "main A init_opbase_ptr (typed_only alt V) opts rest s = main A init_opbase_ptr V opts rest s"
proof -
  have "run_test A (typed_only alt V) u = run_test A V u"
    if "parse_cmd_line A opts rest (init_opbase_ptr t) = Some (r, u)" for r t u
    using preservesD [OF parse_cmd_line_looked_up assms that] by (rule run_test_typed)
  then show ?thesis
    unfolding main_def by (auto simp: steps.simps attempt_def assign_def split: option.split)
qed

end

lemma init_looked_up:
  "looked_up (allreduce_init_opbase_ptr s)"
  "looked_up (reduce_init_opbase_ptr s)"
  "looked_up (reducescatter_init_opbase_ptr s)"
  "looked_up (reducescatterv_init_opbase_ptr s1)"
  "looked_up (brocast_init_opbase_ptr s)"
  "looked_up (allgather_init_opbase_ptr s)"
  "looked_up (allgatherv_init_opbase_ptr s2)"
  "looked_up (scatter_init_opbase_ptr s)"
  "looked_up (alltoall_init_opbase_ptr s3)"
  "looked_up (alltoallv_init_opbase_ptr s4)"
  "looked_up (alltoallvc_init_opbase_ptr s5)"
  by (simp_all add: looked_up_def found_def in_s_def construct_HcclOpBaseTest_def construct_HcclTest_def test_accelerator_config_def
      allreduce_init_opbase_ptr_def reduce_init_opbase_ptr_def reducescatter_init_opbase_ptr_def
      reducescatterv_init_opbase_ptr_def brocast_init_opbase_ptr_def allgather_init_opbase_ptr_def
      allgatherv_init_opbase_ptr_def scatter_init_opbase_ptr_def alltoall_init_opbase_ptr_def
      alltoallv_init_opbase_ptr_def alltoallvc_init_opbase_ptr_def del: dtype_value.simps op_value.simps)

text \<open>
  C7.  The programs are type safe: whatever the command line and the environment are, and whatever
  status the calls return, each of the eleven programs only enters its test with a data type and an
  operation of the enumerations, an accelerator of the table, a root among the ranks, iteration
  counts that are not negative, between one NPU and as many as there are devices, the switches of
  \<open>-c\<close> and \<open>-t\<close> 0 or 1, and with \<open>-t 1\<close> at most 100 iterations of each kind and not the accelerator
  \<open>aicpu_ts\<close>.
\<close>
theorem tests_entered_typed:
  "main A allreduce_init_opbase_ptr (typed_only alt (allreduce_vtable A)) opts rest s =
     main A allreduce_init_opbase_ptr (allreduce_vtable A) opts rest s \<and>
   main A reduce_init_opbase_ptr (typed_only alt (reduce_vtable A)) opts rest s =
     main A reduce_init_opbase_ptr (reduce_vtable A) opts rest s \<and>
   main A reducescatter_init_opbase_ptr (typed_only alt (reducescatter_vtable A)) opts rest s =
     main A reducescatter_init_opbase_ptr (reducescatter_vtable A) opts rest s \<and>
   main A reducescatterv_init_opbase_ptr (typed_only alt1 (reducescatterv_vtable A)) opts rest s1 =
     main A reducescatterv_init_opbase_ptr (reducescatterv_vtable A) opts rest s1 \<and>
   main A brocast_init_opbase_ptr (typed_only alt (brocast_vtable A)) opts rest s =
     main A brocast_init_opbase_ptr (brocast_vtable A) opts rest s \<and>
   main A allgather_init_opbase_ptr (typed_only alt (allgather_vtable A)) opts rest s =
     main A allgather_init_opbase_ptr (allgather_vtable A) opts rest s \<and>
   main A allgatherv_init_opbase_ptr (typed_only alt2 (allgatherv_vtable A)) opts rest s2 =
     main A allgatherv_init_opbase_ptr (allgatherv_vtable A) opts rest s2 \<and>
   main A scatter_init_opbase_ptr (typed_only alt (scatter_vtable A)) opts rest s =
     main A scatter_init_opbase_ptr (scatter_vtable A) opts rest s \<and>
   main A alltoall_init_opbase_ptr (typed_only alt3 (alltoall_vtable A)) opts rest s3 =
     main A alltoall_init_opbase_ptr (alltoall_vtable A) opts rest s3 \<and>
   main A alltoallv_init_opbase_ptr (typed_only alt4 (alltoallv_vtable A)) opts rest s4 =
     main A alltoallv_init_opbase_ptr (alltoallv_vtable A) opts rest s4 \<and>
   main A alltoallvc_init_opbase_ptr (typed_only alt5 (alltoallvc_vtable A)) opts rest s5 =
     main A alltoallvc_init_opbase_ptr (alltoallvc_vtable A) opts rest s5"
  by (intro conjI allreduce.main_typed reduce_test.main_typed reducescatter.main_typed reducescatterv.main_typed
      brocast.main_typed allgather.main_typed allgatherv.main_typed scatter.main_typed alltoall.main_typed
      alltoallv.main_typed alltoallvc.main_typed init_looked_up)

end
