(* ===== verification/Acl_Copy_Bench.thy ===== *)
theory Acl_Copy_Bench
  imports Bench_Common World "HOL-Library.Multiset"
begin

text \<open>
  The program \<open>benchmarks/acl_copy_bench.cpp\<close>: one thread per device copies a buffer between host
  and device memory.  The threads share nothing but the configuration, which they only read, and
  each writes a result of its own; so a thread is a command on a world of its own, with an
  environment of its own that answers its calls.
\<close>

subsection \<open>Configuration\<close>

record AclConfig =
  mode :: string
  devices :: "int list"
  affinity_lists :: "string list"
  copy_bytes :: u64
  acl_warmup_iters :: int
  acl_iters :: int

definition acl_default :: AclConfig where
  "acl_default =
     \<lparr>mode = ''h2d'', devices = [], affinity_lists = [], copy_bytes = 1024 * 1024 * 1024,
      acl_warmup_iters = 5, acl_iters = 20\<rparr>"

text \<open>The loop over \<open>std::getline\<close>: it fails when nothing is left, and leaves out empty parts.\<close>

function split :: "string \<Rightarrow> char \<Rightarrow> string list" where
  "split s delim =
     (if s = [] then []
      else let part = takeWhile (\<lambda>c. c \<noteq> delim) s; rest = tl (dropWhile (\<lambda>c. c \<noteq> delim) s)
           in if part \<noteq> [] then part # split rest delim else split rest delim)"
  by pat_completeness auto
termination
proof (relation "measure (\<lambda>(s, _). length s)")
  have shorter: "((tl (dropWhile p s), delim), s, delim) \<in> measure (\<lambda>(s, _). length s)" if "s \<noteq> []" for p s and delim :: char
    using that length_dropWhile_le [of p s] by (cases s) (auto simp: less_Suc_eq_le intro: le_trans)
  fix s delim x xa
  assume "s \<noteq> []" "xa = tl (dropWhile (\<lambda>c. c \<noteq> delim) s)"
  then show "((xa, delim), s, delim) \<in> measure (\<lambda>(s, _). length s)"
    "((xa, delim), s, delim) \<in> measure (\<lambda>(s, _). length s)"
    using shorter by simp_all
qed simp

declare split.simps [simp del]

text \<open>A piece that is no number is an exception.\<close>

definition parse_int_list :: "string \<Rightarrow> int list option" where
  "parse_int_list value = those (map stoi (split value (CHR '','')))"

definition acl_option :: "string \<Rightarrow> (string \<Rightarrow> AclConfig \<Rightarrow> bench_exit + AclConfig) option" where
  "acl_option arg =
     (if arg = ''--mode'' then Some (\<lambda>v c. Inr (c\<lparr>mode := v\<rparr>))
      else if arg = ''--devices'' then
        Some (\<lambda>v c. case parse_int_list v of None \<Rightarrow> Inl (Uncaught ''stoi'') | Some ds \<Rightarrow> Inr (c\<lparr>devices := ds\<rparr>))
      else if arg = ''--affinity-lists'' then Some (\<lambda>v c. Inr (c\<lparr>affinity_lists := split v (CHR ''/'')\<rparr>))
      else if arg = ''--size-mb'' then Some (megabytes_option (\<lambda>n c. c\<lparr>copy_bytes := n\<rparr>))
      else if arg = ''--warmup'' then Some (int_option (\<lambda>n c. c\<lparr>acl_warmup_iters := n\<rparr>))
      else if arg = ''--iters'' then Some (int_option (\<lambda>n c. c\<lparr>acl_iters := n\<rparr>))
      else None)"

definition acl_parse_args :: "string list \<Rightarrow> bench_exit + AclConfig" where
  "acl_parse_args argv =
     (case parse_loop acl_option argv acl_default of
        Inl e \<Rightarrow> Inl e
      | Inr c \<Rightarrow>
          if devices c = [] then Inl (Usage [''At least one device is required''])
          else if mode c \<noteq> ''h2d'' \<and> mode c \<noteq> ''d2h'' then Inl (Usage [''Unsupported mode: '' @ mode c])
          else if affinity_lists c \<noteq> [] \<and> length (affinity_lists c) \<noteq> length (devices c)
          then Inl (Usage [''Affinity list count must match device count''])
          else Inr c)"

subsection \<open>CPU lists\<close>

text \<open>\<open>CPU_SET\<close> ignores a number that is out of the set.\<close>

definition CPU_SET :: "int \<Rightarrow> bool list \<Rightarrow> bool list" where
  "CPU_SET cpu cs = (if 0 \<le> cpu then cs[nat cpu := True] else cs)"

text \<open>
  One token: a number or a range.  \<open>Inl\<close> is the exception of \<open>std::stoi\<close>; a range up to the
  largest \<open>int\<close> overflows the loop variable, which is undefined.
\<close>

definition cpu_token :: "string \<Rightarrow> bool list \<Rightarrow> (string + bool list) option" where
  "cpu_token token cs =
     (let tail = dropWhile (\<lambda>c. c \<noteq> CHR ''-'') token
      in if tail = [] then
           (case stoi token of None \<Rightarrow> Some (Inl ''stoi'') | Some n \<Rightarrow> Some (Inr (CPU_SET n cs)))
         else
           (case stoi (takeWhile (\<lambda>c. c \<noteq> CHR ''-'') token) of
              None \<Rightarrow> Some (Inl ''stoi'')
            | Some first \<Rightarrow>
                (case stoi (tl tail) of
                   None \<Rightarrow> Some (Inl ''stoi'')
                 | Some final \<Rightarrow>
                     if first \<le> final \<and> final = 2147483647 then None
                     else Some (Inr (fold CPU_SET [first..final] cs)))))"

fun cpu_tokens :: "string list \<Rightarrow> bool list \<Rightarrow> (string + bool list) option" where
  "cpu_tokens [] cs = Some (Inr cs)"
| "cpu_tokens (t # ts) cs =
     (case cpu_token t cs of
        None \<Rightarrow> None
      | Some (Inl e) \<Rightarrow> Some (Inl e)
      | Some (Inr cs') \<Rightarrow> cpu_tokens ts cs')"

definition parse_cpu_set :: "string \<Rightarrow> (string + bool list) option" where
  "parse_cpu_set value = cpu_tokens (split value (CHR '','')) (replicate CPU_SETSIZE False)"

subsection \<open>One worker\<close>

text \<open>The text of \<open>WorkerResult::error\<close>, which is never empty; the pieces of the first are put together.\<close>

datatype worker_error = AclError string int | What string

text \<open>
  The variables of \<open>run_worker\<close> and its \<open>WorkerResult\<close>, over the world of the thread.  A context
  and a stream are numbers, the null pointer is 0.  \<open>in_flight\<close> are the copies queued on the stream
  that need not have been made yet: destination, source and size.
\<close>

record acl_worker = world +
  result_device :: int
  context_handle :: nat
  stream_handle :: nat
  host_buffer :: ptr
  device_buffer :: ptr
  in_flight :: "(ptr \<times> ptr \<times> u64) list"
  clock_begin :: nat
  seconds :: u64
  gbps :: u64
  error :: "worker_error option"

text \<open>\<open>check_acl\<close> throws, and the \<open>catch\<close> of \<open>run_worker\<close> stores the text: the rest is skipped.\<close>

definition check_acl :: "string \<Rightarrow> 'a acl_worker_scheme cmd \<Rightarrow> 'a acl_worker_scheme cmd" where
  "check_acl expr c s =
     (case c s of
        None \<Rightarrow> None
      | Some (rc, s') \<Rightarrow> Some (rc, if rc \<noteq> 0 then s'\<lparr>error := Some (AclError expr rc)\<rparr> else s'))"

definition throw :: "string \<Rightarrow> 'a acl_worker_scheme cmd" where
  "throw m s = Some (1, s\<lparr>error := Some (What m)\<rparr>)"

definition bind_cpus :: "api \<Rightarrow> string \<Rightarrow> 'a acl_worker_scheme cmd" where
  "bind_cpus A cpu_list =
     (case parse_cpu_set cpu_list of
        None \<Rightarrow> (\<lambda>_. None)
      | Some (Inl m) \<Rightarrow> throw m
      | Some (Inr cs) \<Rightarrow>
          (\<lambda>s. let c = Os (SetAffinity cs) in
               if status A (call_log s) c \<noteq> 0 then throw ''pthread_setaffinity_np failed'' (logged c s)
               else Some (0, logged c s)))"

text \<open>
  \<open>aclrtMemcpyAsync\<close> only queues a copy.  \<open>aclrtSynchronizeStream\<close> returns when all of them have been
  made, in order; when it fails, they may still be under way.
\<close>

definition aclrtMemcpyAsync ::
    "api \<Rightarrow> ptr \<Rightarrow> u64 \<Rightarrow> ptr \<Rightarrow> u64 \<Rightarrow> memcpy_kind \<Rightarrow> nat \<Rightarrow> 'a acl_worker_scheme cmd" where
  "aclrtMemcpyAsync A dst destMax src n k stream =
     invoke A (Acl (MemcpyAsync dst destMax src n k stream))
       (\<lambda>s. if n \<le> destMax then Some (s\<lparr>in_flight := in_flight s @ [(dst, src, n)]\<rparr>) else None)"

fun make_copies :: "(ptr \<times> ptr \<times> u64) list \<Rightarrow> 'a acl_worker_scheme \<Rightarrow> 'a acl_worker_scheme option" where
  "make_copies [] s = Some s"
| "make_copies ((dst, src, n) # cs) s =
     Option.bind (read_mem s src (unat n)) (\<lambda>bs. Option.bind (write_mem dst bs s) (make_copies cs))"

definition finish_copies :: "api \<Rightarrow> nat \<Rightarrow> 'a acl_worker_scheme cmd" where
  "finish_copies A stream =
     invoke A (Acl (SynchronizeStream stream)) (\<lambda>s. map_option (\<lambda>t. t\<lparr>in_flight := []\<rparr>) (make_copies (in_flight s) s))"

text \<open>
  Memory that a queued copy reads or writes must not be freed, and a stream with queued copies must
  not be destroyed: what happens then is undefined.
\<close>

definition in_use :: "ptr \<Rightarrow> 'a acl_worker_scheme \<Rightarrow> bool" where
  "in_use p s \<longleftrightarrow> list_ex (\<lambda>(dst, src, n). fst dst = fst p \<or> fst src = fst p) (in_flight s)"

definition free_device :: "api \<Rightarrow> ptr \<Rightarrow> 'a acl_worker_scheme cmd" where
  "free_device A p s = (if in_use p s then None else aclrtFree A p s)"

definition free_host :: "api \<Rightarrow> ptr \<Rightarrow> 'a acl_worker_scheme cmd" where
  "free_host A p s = (if in_use p s then None else aclrtFreeHost A p s)"

definition destroy_stream :: "api \<Rightarrow> nat \<Rightarrow> 'a acl_worker_scheme cmd" where
  "destroy_stream A stream s =
     (if in_flight s \<noteq> [] then None else call A (Acl (DestroyStream stream)) s)"

definition copy_once :: "api \<Rightarrow> AclConfig \<Rightarrow> 'a acl_worker_scheme cmd" where
  "copy_once A c = with_state (\<lambda>s.
     if mode c = ''h2d'' then
       check_acl ''aclrtMemcpyAsync(H2D)''
         (aclrtMemcpyAsync A (device_buffer s) (copy_bytes c) (host_buffer s) (copy_bytes c) HOST_TO_DEVICE
            (stream_handle s))
     else
       check_acl ''aclrtMemcpyAsync(D2H)''
         (aclrtMemcpyAsync A (host_buffer s) (copy_bytes c) (device_buffer s) (copy_bytes c) DEVICE_TO_HOST
            (stream_handle s)))"

definition worker_setup :: "api \<Rightarrow> AclConfig \<Rightarrow> nat \<Rightarrow> 'a acl_worker_scheme cmd" where
  "worker_setup A c i =
     steps
      [when_do (\<lambda>_. affinity_lists c \<noteq> []) (bind_cpus A (affinity_lists c ! i)),
       with_state (\<lambda>s. check_acl ''aclrtSetDevice'' (call A (Acl (SetDevice (word_of_int (result_device s)))))),
       with_state (\<lambda>s. check_acl ''aclrtCreateContext''
         (call_value A (Acl (CreateContext (word_of_int (result_device s)))) (\<lambda>n s. s\<lparr>context_handle := n\<rparr>))),
       with_state (\<lambda>s. check_acl ''aclrtSetCurrentContext'' (call A (Acl (SetCurrentContext (context_handle s))))),
       check_acl ''aclrtCreateStream'' (call_value A (Acl CreateStream) (\<lambda>n s. s\<lparr>stream_handle := n\<rparr>)),
       check_acl ''aclrtMallocHost'' (aclrtMallocHost A (copy_bytes c) (\<lambda>p s. s\<lparr>host_buffer := p\<rparr>)),
       check_acl ''aclrtMalloc'' (aclrtMalloc A (copy_bytes c) (\<lambda>p s. s\<lparr>device_buffer := p\<rparr>)),
       with_state (\<lambda>s. update_opt (write_mem (host_buffer s) (replicate (unat (copy_bytes c)) 0x5A))),
       with_state (\<lambda>s. check_acl ''aclrtMemset''
         (aclrtMemset A (device_buffer s) (copy_bytes c) 0 (copy_bytes c)))]"

definition worker_copies :: "api \<Rightarrow> AclConfig \<Rightarrow> 'a acl_worker_scheme cmd" where
  "worker_copies A c =
     steps
      [repeat_do (nat (acl_warmup_iters c)) (copy_once A c),
       with_state (\<lambda>s. check_acl ''aclrtSynchronizeStream(warmup)'' (finish_copies A (stream_handle s))),
       read_clock A (\<lambda>n s. s\<lparr>clock_begin := n\<rparr>),
       repeat_do (nat (acl_iters c)) (copy_once A c),
       with_state (\<lambda>s. check_acl ''aclrtSynchronizeStream(measure)'' (finish_copies A (stream_handle s))),
       read_clock A (\<lambda>n s. s\<lparr>seconds := seconds_of (int n - int (clock_begin s))\<rparr>),
       assign (\<lambda>s. s\<lparr>gbps := bandwidth (copy_bytes c) (acl_iters c) (seconds s)\<rparr>)]"

definition worker_release :: "api \<Rightarrow> 'a acl_worker_scheme cmd" where
  "worker_release A =
     steps
      [when_do (\<lambda>s. device_buffer s \<noteq> nullptr) (with_state (\<lambda>s. ignore (free_device A (device_buffer s)))),
       when_do (\<lambda>s. host_buffer s \<noteq> nullptr) (with_state (\<lambda>s. ignore (free_host A (host_buffer s)))),
       when_do (\<lambda>s. stream_handle s \<noteq> 0)
         (with_state (\<lambda>s. ignore (destroy_stream A (stream_handle s)))),
       when_do (\<lambda>s. context_handle s \<noteq> 0)
         (with_state (\<lambda>s. ignore (call A (Acl (DestroyContext (context_handle s))))))]"

text \<open>The local variables; \<open>at\<close> throws when there is no such device, which ends the thread.\<close>

definition worker_locals :: "AclConfig \<Rightarrow> nat \<Rightarrow> 'a acl_worker_scheme cmd" where
  "worker_locals c i =
     update_opt (\<lambda>s. if i < length (devices c) then
         Some (s\<lparr>result_device := devices c ! i, context_handle := 0, stream_handle := 0,
                 host_buffer := nullptr, device_buffer := nullptr\<rparr>)
       else None)"

definition run_worker :: "api \<Rightarrow> AclConfig \<Rightarrow> nat \<Rightarrow> 'a acl_worker_scheme cmd" where
  "run_worker A c i =
     steps
      [worker_locals c i,
       ignore (steps [worker_setup A c i, worker_copies A c]),
       worker_release A]"

subsection \<open>The main function\<close>

datatype bench_line =
    ErrorLine int worker_error
  | Settings string u64 int "int list"
  | DeviceLine int u64 u64
  | SumLine u64
  | WallLine u64

definition f64_add :: "u64 \<Rightarrow> u64 \<Rightarrow> u64" where
  "f64_add a b = f64_encode (v_add (f64_decode a) (f64_decode b))"

definition new_worker :: acl_worker where
  "new_worker =
     \<lparr>call_log = [], blocks = (\<lambda>_. None), next_block = 1, mapped = [], printed = [],
      result_device = - 1, context_handle = 0, stream_handle = 0, host_buffer = nullptr,
      device_buffer = nullptr, in_flight = [], clock_begin = 0, seconds = f64_of_int 0, gbps = f64_of_int 0, error = None\<rparr>"

text \<open>What is printed after the threads have been joined, and the exit status.\<close>

definition acl_report :: "AclConfig \<Rightarrow> acl_worker list \<Rightarrow> int \<times> bench_line list" where
  "acl_report c results =
     (let has_error = list_ex (\<lambda>r. error r \<noteq> None) results;
          good = filter (\<lambda>r. error r = None) results;
          aggregate_gbps = fold (\<lambda>r x. f64_add x (gbps r)) good (f64_of_int 0);
          max_seconds = fold (\<lambda>r x. if f64_gt (seconds r) x then seconds r else x) good (f64_of_int 0);
          total_bytes = f64_mul (f64_mul (f64_of_int (uint (copy_bytes c))) (f64_of_int (acl_iters c)))
                          (f64_of_int (int (length (devices c))))
      in (if has_error then 1 else 0,
          concat (map (\<lambda>r. case error r of None \<Rightarrow> [] | Some e \<Rightarrow> [ErrorLine (result_device r) e]) results)
          @ Settings (mode c) (copy_bytes c) (acl_iters c) (devices c)
          # map (\<lambda>r. DeviceLine (result_device r) (seconds r) (gbps r)) good
          @ (if has_error then []
             else [SumLine aggregate_gbps,
                   WallLine (f64_div (f64_div total_bytes max_seconds) (f64_of_int 1000000000))])))"

text \<open>
  \<open>A\<close> answers the main thread, \<open>W i\<close> the worker \<open>i\<close>; \<open>spawn_ok i\<close> says whether that thread can be
  created.  A worker whose behaviour is undefined makes that of the program undefined.
\<close>

definition acl_main ::
    "api \<Rightarrow> (nat \<Rightarrow> api) \<Rightarrow> (nat \<Rightarrow> bool) \<Rightarrow> string list \<Rightarrow> (bench_exit + int \<times> bench_line list) option" where
  "acl_main A W spawn_ok argv =
     (case acl_parse_args argv of
        Inl e \<Rightarrow> Some (Inl e)
      | Inr c \<Rightarrow>
          if status A [] (Acl AclInit) \<noteq> 0 then Some (Inl (Uncaught ''aclInit failed''))
          else if \<not> list_all spawn_ok [0..<length (devices c)] then Some (Inl (Uncaught ''std::thread''))
          else map_option (\<lambda>results. Inr (acl_report c results))
                 (those (map (\<lambda>i. map_option snd (run_worker (W i) c i new_worker)) [0..<length (devices c)])))"

end
