(* ===== verification/Acl_Copy_Laws.thy ===== *)
theory Acl_Copy_Laws
  imports Acl_Copy_Bench Command_Logic
begin

text \<open>
  The workers of \<open>acl_copy_bench\<close>: total triples, the ledger of what a worker holds at each stage of
  \<open>run_worker\<close>, its release with and without copies in flight, and the lines and exit status of the program.
\<close>

subsection \<open>Total triples\<close>

text \<open>
  \<open>runs I P c Q\<close>: started in \<open>P\<close>, \<open>c\<close> has a result, in \<open>Q\<close> if its status is 0 and in \<open>I\<close> otherwise.
\<close>

definition runs :: "('s \<Rightarrow> bool) \<Rightarrow> ('s \<Rightarrow> bool) \<Rightarrow> 's cmd \<Rightarrow> ('s \<Rightarrow> bool) \<Rightarrow> bool" where
  "runs I P c Q \<longleftrightarrow> (\<forall>s. P s \<longrightarrow> (\<exists>r t. c s = Some (r, t) \<and> (if r = 0 then Q t else I t)))"

lemma runs_Nil: "(\<And>s. P s \<Longrightarrow> Q s) \<Longrightarrow> runs I P (steps []) Q"
  by (simp add: runs_def)

lemma runs_Cons:
  assumes "runs I P c R" "runs I R (steps cs) Q"
  shows "runs I P (steps (c # cs)) Q"
  unfolding runs_def
proof (intro allI impI)
  fix s assume "P s"
  then obtain r t where 1: "c s = Some (r, t)" "if r = 0 then R t else I t"
    using assms(1) by (auto simp: runs_def)
  show "\<exists>r t. steps (c # cs) s = Some (r, t) \<and> (if r = 0 then Q t else I t)"
    using 1 assms(2) by (cases "r = 0") (auto simp: runs_def steps.simps)
qed

lemma runs_when:
  "runs I (\<lambda>s. P s \<and> b s) c Q \<Longrightarrow> (\<And>s. P s \<Longrightarrow> \<not> b s \<Longrightarrow> Q s) \<Longrightarrow> runs I P (when_do b c) Q"
  by (auto simp: runs_def when_do_def)

lemma runs_with_state: "(\<And>x. runs I (\<lambda>s. P s \<and> s = x) (c x) Q) \<Longrightarrow> runs I P (with_state c) Q"
  by (auto simp: runs_def with_state_def)

lemma runs_assign: "(\<And>s. P s \<Longrightarrow> Q (f s)) \<Longrightarrow> runs I P (assign f) Q"
  by (auto simp: runs_def assign_def)

lemma runs_update: "(\<And>s. P s \<Longrightarrow> \<exists>t. f s = Some t \<and> Q t) \<Longrightarrow> runs I P (update_opt f) Q"
  by (force simp: runs_def update_opt_def)

lemma runs_repeat: "runs I P c P \<Longrightarrow> runs I P (repeat_do n c) P"
  by (induction n) (auto simp: repeat_do_def intro: runs_Nil runs_Cons)

lemma runs_ignore: "runs Q P c Q \<Longrightarrow> runs I P (ignore c) Q"
  by (force simp: runs_def ignore_def split: if_splits)

lemma runs_weaken: "runs I P' c Q' \<Longrightarrow> (\<And>s. P s \<Longrightarrow> P' s) \<Longrightarrow> (\<And>s. Q' s \<Longrightarrow> Q s) \<Longrightarrow> runs I P c Q"
  unfolding runs_def by meson


subsection \<open>What a worker holds\<close>

text \<open>
  The streams and contexts created and not destroyed, from the log (latest call first).  Nothing
  may be destroyed that is not held: \<open>None\<close>.
\<close>

definition give_up :: "'a \<Rightarrow> 'a multiset \<Rightarrow> 'a multiset option" where
  "give_up x h = (if x \<in># h then Some (h - {#x#}) else None)"

fun held :: "api \<Rightarrow> call list \<Rightarrow> (nat + nat) multiset option" where
  "held A [] = Some {#}"
| "held A (q # log) =
     (if status A log q \<noteq> 0 then held A log
      else case q of
        Acl (CreateContext _) \<Rightarrow> map_option (add_mset (Inl (delivered A log q))) (held A log)
      | Acl CreateStream \<Rightarrow> map_option (add_mset (Inr (delivered A log q))) (held A log)
      | Acl (DestroyContext n) \<Rightarrow> Option.bind (held A log) (give_up (Inl n))
      | Acl (DestroyStream n) \<Rightarrow> Option.bind (held A log) (give_up (Inr n))
      | _ \<Rightarrow> held A log)"

text \<open>All calls of the log succeeded; reading the clock has no status.\<close>

fun all_ok :: "api \<Rightarrow> call list \<Rightarrow> bool" where
  "all_ok A [] = True"
| "all_ok A (q # log) = ((q = Os ReadClock \<or> status A log q = 0) \<and> all_ok A log)"

text \<open>The last call queued a copy.\<close>

fun just_queued :: "api \<Rightarrow> call list \<Rightarrow> bool" where
  "just_queued A [] = False"
| "just_queued A (q # log) =
     (case q of Acl (MemcpyAsync d m s n k st) \<Rightarrow> status A log q = 0 | _ \<Rightarrow> False)"

definition live :: "kind \<Rightarrow> nat \<Rightarrow> ptr \<Rightarrow> 'a world_scheme \<Rightarrow> bool" where
  "live k n p s \<longleftrightarrow> snd p = 0 \<and> (\<exists>m. blocks s (fst p) = Some (k, m) \<and> length m = n)"

definition store :: "nat \<Rightarrow> acl_worker \<Rightarrow> bool" where
  "store n s \<longleftrightarrow>
     0 < next_block s \<and> (\<forall>b \<ge> next_block s. blocks s b = None) \<and> blocks s 0 = None
     \<and> (host_buffer s = nullptr \<or> live Host n (host_buffer s) s)
     \<and> (device_buffer s = nullptr \<or> live Device n (device_buffer s) s)
     \<and> (\<forall>b. blocks s b \<noteq> None \<longrightarrow> b = fst (host_buffer s) \<or> b = fst (device_buffer s))"

definition in_hand :: "acl_worker \<Rightarrow> (nat + nat) multiset" where
  "in_hand s =
     (if stream_handle s = 0 then {#} else {#Inr (stream_handle s)#})
     + (if context_handle s = 0 then {#} else {#Inl (context_handle s)#})"

definition ledger :: "api \<Rightarrow> nat \<Rightarrow> acl_worker \<Rightarrow> bool" where
  "ledger A n s \<longleftrightarrow> store n s \<and> held A (call_log s) = Some (in_hand s)"

lemma worker_logged [simp]:
  "host_buffer (logged q s) = host_buffer s" "device_buffer (logged q s) = device_buffer s"
  "stream_handle (logged q s) = stream_handle s" "context_handle (logged q s) = context_handle s"
  "error (logged q s) = error s" "call_log (logged q s) = q # call_log s"
  "next_block (logged q s) = next_block s" "blocks (logged q s) = blocks s"
  "in_flight (logged q s) = in_flight s" "result_device (logged q s) = result_device s"
  by (simp_all add: logged_def)

lemma logged_memory [simp]: "live k n p (logged q s) = live k n p s" "store n (logged q s) = store n s"
    "in_hand (logged q s) = in_hand s"
  by (simp_all add: live_def store_def in_hand_def logged_def)

lemma error_memory [simp]: "live k n p (s\<lparr>error := e\<rparr>) = live k n p s" "store n (s\<lparr>error := e\<rparr>) = store n s"
    "in_hand (s\<lparr>error := e\<rparr>) = in_hand s"
  by (simp_all add: live_def store_def in_hand_def)

lemma flight_memory [simp]: "live k n p (s\<lparr>in_flight := fl\<rparr>) = live k n p s"
    "store n (s\<lparr>in_flight := fl\<rparr>) = store n s" "in_hand (s\<lparr>in_flight := fl\<rparr>) = in_hand s"
  by (simp_all add: live_def store_def in_hand_def)

declare held.simps(2) [simp del] just_queued.simps(2) [simp del]

lemmas log_simps = held.simps(2) just_queued.simps(2) give_up_def

text \<open>Every queued copy is between the two buffers.\<close>

definition queue_ok :: "AclConfig \<Rightarrow> acl_worker \<Rightarrow> bool" where
  "queue_ok c s \<longleftrightarrow>
     (\<forall>(dst, src, n) \<in> set (in_flight s). {dst, src} = {host_buffer s, device_buffer s} \<and> n = copy_bytes c)
     \<and> (in_flight s \<noteq> [] \<longrightarrow> device_buffer s \<noteq> nullptr)"

definition affinity_ok :: "AclConfig \<Rightarrow> nat \<Rightarrow> bool" where
  "affinity_ok c i \<longleftrightarrow> affinity_lists c = [] \<or> (\<exists>cs. parse_cpu_set (affinity_lists c ! i) = Some (Inr cs))"

definition going :: "api \<Rightarrow> AclConfig \<Rightarrow> nat \<Rightarrow> acl_worker \<Rightarrow> bool" where
  "going A c i s \<longleftrightarrow> ledger A (unat (copy_bytes c)) s \<and> error s = None \<and> all_ok A (call_log s)
     \<and> queue_ok c s \<and> (in_flight s \<noteq> [] \<longleftrightarrow> just_queued A (call_log s)) \<and> result_device s = devices c ! i"

definition acl_failed :: "acl_worker \<Rightarrow> bool" where
  "acl_failed s \<longleftrightarrow> (case error s of Some (AclError e rc) \<Rightarrow> True | _ \<Rightarrow> False)"

definition stopped :: "api \<Rightarrow> AclConfig \<Rightarrow> nat \<Rightarrow> acl_worker \<Rightarrow> bool" where
  "stopped A c i s \<longleftrightarrow> ledger A (unat (copy_bytes c)) s \<and> error s \<noteq> None \<and> \<not> (all_ok A (call_log s) \<and> affinity_ok c i)
     \<and> queue_ok c s \<and> (in_flight s \<noteq> [] \<longleftrightarrow> acl_failed s \<and> just_queued A (tl (call_log s))) \<and> result_device s = devices c ! i"

lemma runs_check:
  assumes "q \<noteq> Os ReadClock" "\<And>s. P s \<Longrightarrow> going A c i s" "\<And>s. P s \<Longrightarrow> cmd s = invoke A q (f s) s"
    and "\<And>s. P s \<Longrightarrow> status A (call_log s) q = 0 \<Longrightarrow> \<exists>t. f s s = Some t \<and> Q (logged q t)"
  shows "runs (stopped A c i) P (check_acl e cmd) Q"
  unfolding runs_def
proof (intro allI impI)
  fix s assume "P s"
  show "\<exists>r t. check_acl e cmd s = Some (r, t) \<and> (if r = 0 then Q t else stopped A c i t)"
  proof (cases "status A (call_log s) q = 0")
    case True
    with assms(3,4) [OF \<open>P s\<close>] show ?thesis by (force simp: check_acl_def invoke_def)
  next
    case False
    with assms(1-3) \<open>P s\<close> show ?thesis
      by (force simp: check_acl_def invoke_def Let_def stopped_def acl_failed_def going_def ledger_def queue_ok_def log_simps)
  qed
qed

lemma going_logged:
  "going A c i s \<Longrightarrow> q = Os ReadClock \<or> status A (call_log s) q = 0 \<Longrightarrow> held A (q # call_log s) = held A (call_log s) \<Longrightarrow>
     just_queued A (q # call_log s) = (in_flight s \<noteq> []) \<Longrightarrow> going A c i (logged q s)"
  by (simp add: going_def ledger_def queue_ok_def)

definition fit :: "AclConfig \<Rightarrow> acl_worker \<Rightarrow> bool" where
  "fit c s \<longleftrightarrow> live Host (unat (copy_bytes c)) (host_buffer s) s \<and> live Device (unat (copy_bytes c)) (device_buffer s) s"

lemma live_write:
  assumes "live k n p s" "length bs \<le> n" "k \<noteq> Reserved"
  shows "\<exists>m. write_mem p bs s = Some (s\<lparr>blocks := (blocks s)(fst p \<mapsto> (k, m))\<rparr>) \<and> length m = n"
  using assms by (auto simp: live_def write_mem_def readable_def set_block_def block_bytes_def)

lemma live_read:
  assumes "live k n p s" "k \<noteq> Reserved"
  shows "\<exists>bs. read_mem s p n = Some bs \<and> length bs = n"
  using assms by (auto simp: live_def read_mem_def readable_def block_bytes_def)

text \<open>Writing into one of the two buffers.\<close>

lemma going_write:
  assumes "going A c i s" "fit c s" "length bs \<le> unat (copy_bytes c)" "p = host_buffer s \<or> p = device_buffer s"
  shows "\<exists>t. write_mem p bs s = Some t \<and> going A c i t \<and> fit c t \<and> call_log t = call_log s
    \<and> in_flight t = in_flight s \<and> host_buffer t = host_buffer s \<and> device_buffer t = device_buffer s"
proof -
  have k: "live (if p = host_buffer s then Host else Device) (unat (copy_bytes c)) p s"
    using assms(2,4) by (auto simp: fit_def)
  have ne: "fst (host_buffer s) \<noteq> fst (device_buffer s)"
    using assms(2) by (auto simp: fit_def live_def)
  have "(if p = host_buffer s then Host else Device) \<noteq> Reserved" by simp
  from live_write [OF k assms(3) this]
  obtain m where m: "write_mem p bs s = Some (s\<lparr>blocks := (blocks s)(fst p \<mapsto> ((if p = host_buffer s then Host else Device), m))\<rparr>)"
      "length m = unat (copy_bytes c)"
    by blast
  have nz: "0 < fst (host_buffer s)" "0 < fst (device_buffer s)"
    using assms(1,2) by (auto simp: going_def ledger_def store_def fit_def live_def intro: gr0I)
  let ?t = "s\<lparr>blocks := (blocks s)(fst p \<mapsto> ((if p = host_buffer s then Host else Device), m))\<rparr>"
  have "store (unat (copy_bytes c)) ?t \<and> fit c ?t"
    using assms(1,2,4) ne nz m(2) by (auto simp: going_def fit_def ledger_def store_def live_def)
  then have "going A c i ?t \<and> fit c ?t"
    using assms(1) by (simp add: going_def ledger_def in_hand_def queue_ok_def)
  then show ?thesis using m(1) by (intro exI [of _ ?t]) simp
qed

definition stage :: "nat \<Rightarrow> api \<Rightarrow> AclConfig \<Rightarrow> nat \<Rightarrow> acl_worker \<Rightarrow> bool" where
  "stage k A c i s \<longleftrightarrow> going A c i s
     \<and> (k < 1 \<longrightarrow> context_handle s = 0) \<and> (k < 2 \<longrightarrow> stream_handle s = 0)
     \<and> (if k < 3 then host_buffer s = nullptr else live Host (unat (copy_bytes c)) (host_buffer s) s)
     \<and> (if k < 4 then device_buffer s = nullptr else live Device (unat (copy_bytes c)) (device_buffer s) s)
     \<and> (k < 5 \<longrightarrow> in_flight s = [])"

definition handles_nonnull :: "api \<Rightarrow> bool" where
  "handles_nonnull A \<longleftrightarrow> (\<forall>log q. q = Acl CreateStream \<or> (\<exists>d. q = Acl (CreateContext d)) \<longrightarrow> delivered A log q \<noteq> 0)"

lemma stage_going: "stage k A c i s \<Longrightarrow> going A c i s"
  by (simp add: stage_def)

lemma stage_logged:
  assumes "stage k A c i s" "q = Os ReadClock \<or> status A (call_log s) q = 0" "held A (q # call_log s) = held A (call_log s)"
    and "\<not> just_queued A (q # call_log s)" "k < 5"
  shows "stage k A c i (logged q s)"
  using assms by (simp add: stage_def going_logged)

lemma stage_call:
  assumes "\<And>log. held A (q # log) = held A log" "q \<noteq> Os ReadClock" "\<And>log. \<not> just_queued A (q # log)" "k < 5"
  shows "runs (stopped A c i) (stage k A c i) (check_acl e (call A q)) (stage k A c i)"
  using assms stage_going stage_logged
  by (intro runs_check [where f = "\<lambda>_. Some"]) (auto simp: call_def)

lemma handlesD:
  assumes "handles_nonnull A"
  shows "delivered A log (Acl CreateStream) \<noteq> 0" "delivered A log (Acl (CreateContext d)) \<noteq> 0"
  using assms by (auto simp: handles_nonnull_def)

lemma stage_context:
  assumes "handles_nonnull A"
  shows "runs (stopped A c i) (stage 0 A c i)
    (check_acl e (call_value A (Acl (CreateContext d)) (\<lambda>n s. s\<lparr>context_handle := n\<rparr>))) (stage 1 A c i)"
  by (intro runs_check [where f = "\<lambda>s u. Some (u\<lparr>context_handle := delivered A (call_log s) (Acl (CreateContext d))\<rparr>)"])
    (auto simp: call_value_def stage_def live_def going_def ledger_def store_def in_hand_def queue_ok_def log_simps handlesD [OF assms])

lemma stage_stream:
  assumes "handles_nonnull A"
  shows "runs (stopped A c i) (stage 1 A c i)
    (check_acl e (call_value A (Acl CreateStream) (\<lambda>n s. s\<lparr>stream_handle := n\<rparr>))) (stage 2 A c i)"
  by (intro runs_check [where f = "\<lambda>s u. Some (u\<lparr>stream_handle := delivered A (call_log s) (Acl CreateStream)\<rparr>)"])
    (auto simp: call_value_def stage_def live_def going_def ledger_def store_def in_hand_def queue_ok_def log_simps handlesD [OF assms])

lemma store_host:
  assumes "store n s" "host_buffer s = nullptr" "device_buffer s = nullptr"
  shows "store n (alloc A q Host n (\<lambda>p s. s\<lparr>host_buffer := p\<rparr>) s)"
    "live Host n (next_block s, 0) (alloc A q Host n (\<lambda>p s. s\<lparr>host_buffer := p\<rparr>) s)"
proof -
  have "blocks s b \<noteq> None \<longrightarrow> b = 0" "blocks s 0 = None" for b using assms by (simp_all add: store_def)
  then have "blocks s b = None" for b by metis
  then show "store n (alloc A q Host n (\<lambda>p s. s\<lparr>host_buffer := p\<rparr>) s)"
    "live Host n (next_block s, 0) (alloc A q Host n (\<lambda>p s. s\<lparr>host_buffer := p\<rparr>) s)"
    using assms by (simp_all add: store_def live_def alloc_def)
qed

lemma store_device:
  assumes "store n s" "live Host n (host_buffer s) s" "device_buffer s = nullptr"
  shows "store n (alloc A q Device n (\<lambda>p s. s\<lparr>device_buffer := p\<rparr>) s)"
    "live Host n (host_buffer s) (alloc A q Device n (\<lambda>p s. s\<lparr>device_buffer := p\<rparr>) s)"
    "live Device n (next_block s, 0) (alloc A q Device n (\<lambda>p s. s\<lparr>device_buffer := p\<rparr>) s)"
proof -
  obtain m where m: "blocks s (fst (host_buffer s)) = Some (Host, m)" "length m = n" "snd (host_buffer s) = 0"
    using assms(2) by (auto simp: live_def)
  have st: "0 < next_block s" "b \<ge> next_block s \<Longrightarrow> blocks s b = None" "blocks s 0 = None"
      "blocks s b \<noteq> None \<Longrightarrow> b = fst (host_buffer s) \<or> b = 0" for b
    using assms(1,3) by (simp_all add: store_def)
  have only: "blocks s b = None" if "b \<noteq> fst (host_buffer s)" for b using st(3) st(4) [of b] that by blast
  have only2: "b = fst (host_buffer s)" if "blocks s b = Some x" for b x using only [of b] that by force
  have below: "fst (host_buffer s) < next_block s" using st(2) [of "fst (host_buffer s)"] m(1) by (force simp: not_le [symmetric])
  show "store n (alloc A q Device n (\<lambda>p s. s\<lparr>device_buffer := p\<rparr>) s)"
  proof -
    let ?t = "alloc A q Device n (\<lambda>p s. s\<lparr>device_buffer := p\<rparr>) s"
    have t: "next_block ?t = Suc (next_block s)" "host_buffer ?t = host_buffer s" "device_buffer ?t = (next_block s, 0)"
        "blocks ?t = (blocks s)(next_block s \<mapsto> (Device, map (fresh_byte A (call_log s) q) [0..<n]))"
      by (simp_all add: alloc_def)
    have "b = fst (host_buffer s) \<or> b = next_block s" if "blocks ?t b \<noteq> None" for b
      using that only2 [of b] by (auto simp: t split: if_splits)
    moreover have "live Host n (host_buffer s) ?t" "live Device n (next_block s, 0) ?t" "blocks ?t 0 = None"
      using st(1,3) below m by (simp_all add: live_def t)
    moreover have "blocks ?t b = None" if "Suc (next_block s) \<le> b" for b using that st(2) [of b] by (simp add: t)
    ultimately show ?thesis by (simp add: store_def t(1-3))
  qed
  show "live Host n (host_buffer s) (alloc A q Device n (\<lambda>p s. s\<lparr>device_buffer := p\<rparr>) s)"
    "live Device n (next_block s, 0) (alloc A q Device n (\<lambda>p s. s\<lparr>device_buffer := p\<rparr>) s)"
    using below m by (simp_all add: live_def alloc_def)
qed


lemma stage_host:
  "runs (stopped A c i) (stage 2 A c i)
    (check_acl e (aclrtMallocHost A (copy_bytes c) (\<lambda>p s. s\<lparr>host_buffer := p\<rparr>))) (stage 3 A c i)"
proof (rule runs_check [where q = "Acl (MallocHost (copy_bytes c))"])
  show "aclrtMallocHost A (copy_bytes c) (\<lambda>p s. s\<lparr>host_buffer := p\<rparr>) s = invoke A (Acl (MallocHost (copy_bytes c)))
      (\<lambda>s. Some (alloc A (Acl (MallocHost (copy_bytes c))) Host (unat (copy_bytes c)) (\<lambda>p s. s\<lparr>host_buffer := p\<rparr>) s)) s" for s :: acl_worker
    by (simp add: aclrtMallocHost_def)
  fix s :: acl_worker assume s: "stage 2 A c i s" and ok: "status A (call_log s) (Acl (MallocHost (copy_bytes c))) = 0"
  let ?q = "Acl (MallocHost (copy_bytes c))"
  let ?t = "alloc A ?q Host (unat (copy_bytes c)) (\<lambda>p s. s\<lparr>host_buffer := p\<rparr>) s"
  have f: "call_log ?t = call_log s" "error ?t = error s" "in_hand ?t = in_hand s" "host_buffer ?t = (next_block s, 0)"
      "device_buffer ?t = device_buffer s"
      "in_flight ?t = in_flight s" "result_device ?t = result_device s"
    by (simp_all add: alloc_def in_hand_def)
  have "stage 3 A c i (logged ?q ?t)"
    using s ok f store_host [of "unat (copy_bytes c)" s A ?q] by (simp add: stage_def going_def ledger_def queue_ok_def log_simps)
  then show "\<exists>t. Some ?t = Some t \<and> stage 3 A c i (logged ?q t)" by simp
qed (simp_all add: stage_going)

lemma stage_device:
  "runs (stopped A c i) (stage 3 A c i)
    (check_acl e (aclrtMalloc A (copy_bytes c) (\<lambda>p s. s\<lparr>device_buffer := p\<rparr>))) (stage 4 A c i)"
proof (rule runs_check [where q = "Acl (Malloc (copy_bytes c))"])
  show "aclrtMalloc A (copy_bytes c) (\<lambda>p s. s\<lparr>device_buffer := p\<rparr>) s = invoke A (Acl (Malloc (copy_bytes c)))
      (\<lambda>s. Some (alloc A (Acl (Malloc (copy_bytes c))) Device (unat (copy_bytes c)) (\<lambda>p s. s\<lparr>device_buffer := p\<rparr>) s)) s" for s :: acl_worker
    by (simp add: aclrtMalloc_def)
  fix s :: acl_worker assume s: "stage 3 A c i s" and ok: "status A (call_log s) (Acl (Malloc (copy_bytes c))) = 0"
  let ?q = "Acl (Malloc (copy_bytes c))"
  let ?t = "alloc A ?q Device (unat (copy_bytes c)) (\<lambda>p s. s\<lparr>device_buffer := p\<rparr>) s"
  have f: "call_log ?t = call_log s" "error ?t = error s" "in_hand ?t = in_hand s" "host_buffer ?t = host_buffer s"
      "device_buffer ?t = (next_block s, 0)"
      "in_flight ?t = in_flight s" "result_device ?t = result_device s"
    by (simp_all add: alloc_def in_hand_def)
  have "stage 4 A c i (logged ?q ?t)"
    using s ok f store_device [of "unat (copy_bytes c)" s A ?q] by (simp add: stage_def going_def ledger_def queue_ok_def log_simps)
  then show "\<exists>t. Some ?t = Some t \<and> stage 4 A c i (logged ?q t)" by simp
qed (simp_all add: stage_going)

lemma stage_write:
  assumes "stage k A c i s" "4 \<le> k" "length bs \<le> unat (copy_bytes c)" "p = host_buffer s \<or> p = device_buffer s"
  shows "\<exists>t. write_mem p bs s = Some t \<and> stage k A c i t \<and> call_log t = call_log s
    \<and> in_flight t = in_flight s \<and> host_buffer t = host_buffer s \<and> device_buffer t = device_buffer s"
  using going_write [of A c i s bs p] assms by (auto simp: stage_def fit_def)

lemma stage4_memset:
  "runs (stopped A c i) (stage 4 A c i)
    (with_state (\<lambda>s. check_acl e (aclrtMemset A (device_buffer s) (copy_bytes c) 0 (copy_bytes c)))) (stage 4 A c i)"
proof (rule runs_with_state)
  fix x
  show "runs (stopped A c i) (\<lambda>s. stage 4 A c i s \<and> s = x)
      (check_acl e (aclrtMemset A (device_buffer x) (copy_bytes c) 0 (copy_bytes c))) (stage 4 A c i)"
  proof (rule runs_check [where q = "Acl (Memset (device_buffer x) (copy_bytes c) 0 (copy_bytes c))"])
    fix s assume "stage 4 A c i s \<and> s = x" "status A (call_log s) (Acl (Memset (device_buffer x) (copy_bytes c) 0 (copy_bytes c))) = 0"
    moreover from this obtain t where "write_mem (device_buffer s) (replicate (unat (copy_bytes c)) 0) s = Some t"
        "stage 4 A c i t" "call_log t = call_log s"
      using stage_write [of 4 A c i s "replicate (unat (copy_bytes c)) 0" "device_buffer s"] by auto
    ultimately show "\<exists>t. (if copy_bytes c \<le> copy_bytes c then write_mem (device_buffer x) (replicate (unat (copy_bytes c)) 0) s else None) = Some t
        \<and> stage 4 A c i (logged (Acl (Memset (device_buffer x) (copy_bytes c) 0 (copy_bytes c))) t)"
      by (auto intro!: stage_logged simp: log_simps)
  qed (auto simp: aclrtMemset_def stage_going)
qed

lemma stage5_copy: "runs (stopped A c i) (stage 5 A c i) (copy_once A c) (stage 5 A c i)"
  unfolding copy_once_def
proof (rule runs_with_state)
  fix x
  have go: "runs (stopped A c i) (\<lambda>s. stage 5 A c i s \<and> s = x)
      (check_acl e (aclrtMemcpyAsync A dst (copy_bytes c) src (copy_bytes c) k (stream_handle x))) (stage 5 A c i)"
    if "{dst, src} = {host_buffer x, device_buffer x}" for e dst src k
  proof (rule runs_check [where q = "Acl (MemcpyAsync dst (copy_bytes c) src (copy_bytes c) k (stream_handle x))"])
    fix s
    assume "stage 5 A c i s \<and> s = x" "status A (call_log s) (Acl (MemcpyAsync dst (copy_bytes c) src (copy_bytes c) k (stream_handle x))) = 0"
    then show "\<exists>t. (if copy_bytes c \<le> copy_bytes c then Some (s\<lparr>in_flight := in_flight s @ [(dst, src, copy_bytes c)]\<rparr>) else None) = Some t
        \<and> stage 5 A c i (logged (Acl (MemcpyAsync dst (copy_bytes c) src (copy_bytes c) k (stream_handle x))) t)"
      using that by (auto simp: stage_def going_def ledger_def queue_ok_def log_simps store_def live_def)
  qed (auto simp: aclrtMemcpyAsync_def stage_going)
  show "runs (stopped A c i) (\<lambda>s. stage 5 A c i s \<and> s = x)
      (if mode c = ''h2d'' then check_acl ''aclrtMemcpyAsync(H2D)''
         (aclrtMemcpyAsync A (device_buffer x) (copy_bytes c) (host_buffer x) (copy_bytes c) HOST_TO_DEVICE (stream_handle x))
       else check_acl ''aclrtMemcpyAsync(D2H)''
         (aclrtMemcpyAsync A (host_buffer x) (copy_bytes c) (device_buffer x) (copy_bytes c) DEVICE_TO_HOST (stream_handle x)))
      (stage 5 A c i)"
    by (auto intro!: go)
qed

text \<open>The copies of the queue can be made, one after another.\<close>

lemma make_copies_fit:
  assumes "\<forall>(dst, src, n) \<in> set cs. {dst, src} = {host_buffer s, device_buffer s} \<and> n = copy_bytes c" "stage 5 A c i s"
  shows "\<exists>t. make_copies cs s = Some t \<and> stage 5 A c i t \<and> call_log t = call_log s \<and> in_flight t = in_flight s"
  using assms
proof (induction cs arbitrary: s)
  case (Cons q cs)
  obtain dst src where q: "q = (dst, src, copy_bytes c)" "{dst, src} = {host_buffer s, device_buffer s}"
    using Cons.prems(1) by (cases q) auto
  have ends: "dst = host_buffer s \<and> src = device_buffer s \<or> dst = device_buffer s \<and> src = host_buffer s"
    using q(2) by (auto simp: doubleton_eq_iff)
  have "\<exists>bs. read_mem s src (unat (copy_bytes c)) = Some bs \<and> length bs = unat (copy_bytes c)"
    using ends Cons.prems(2) live_read [of _ "unat (copy_bytes c)" src s] by (auto simp: stage_def)
  then obtain bs where bs: "read_mem s src (unat (copy_bytes c)) = Some bs" "length bs = unat (copy_bytes c)"
    by blast
  obtain t where t: "write_mem dst bs s = Some t" "stage 5 A c i t" "call_log t = call_log s"
      "in_flight t = in_flight s" "host_buffer t = host_buffer s" "device_buffer t = device_buffer s"
    using stage_write [OF Cons.prems(2), of bs dst] bs(2) ends by auto
  have "\<forall>(dst, src, n) \<in> set cs. {dst, src} = {host_buffer t, device_buffer t} \<and> n = copy_bytes c"
    using Cons.prems(1) t(5,6) by auto
  from Cons.IH [OF this t(2)] show ?case using q(1) bs t by auto
qed simp

lemma stage5_finish:
  "runs (stopped A c i) (stage 5 A c i) (with_state (\<lambda>s. check_acl e (finish_copies A (f s)))) (stage 4 A c i)"
proof (rule runs_with_state)
  fix x
  show "runs (stopped A c i) (\<lambda>s. stage 5 A c i s \<and> s = x) (check_acl e (finish_copies A (f x))) (stage 4 A c i)"
  proof (rule runs_check [where q = "Acl (SynchronizeStream (f x))"])
    fix s assume a: "stage 5 A c i s \<and> s = x" "status A (call_log s) (Acl (SynchronizeStream (f x))) = 0"
    then have st: "stage 5 A c i s" and "queue_ok c s" by (auto simp: stage_def going_def)
    then have "\<forall>(dst, src, n) \<in> set (in_flight s). {dst, src} = {host_buffer s, device_buffer s} \<and> n = copy_bytes c"
      by (simp add: queue_ok_def)
    from make_copies_fit [OF this st] obtain t
      where t: "make_copies (in_flight s) s = Some t" "stage 5 A c i t" "call_log t = call_log s" by blast
    have "stage 4 A c i (logged (Acl (SynchronizeStream (f x))) (t\<lparr>in_flight := []\<rparr>))"
      using t a(2) by (simp add: stage_def going_def ledger_def queue_ok_def log_simps)
    with t show "\<exists>t. map_option (\<lambda>t. t\<lparr>in_flight := []\<rparr>) (make_copies (in_flight s) s) = Some t
        \<and> stage 4 A c i (logged (Acl (SynchronizeStream (f x))) t)" by simp
  qed (auto simp: finish_copies_def stage_going)
qed

lemma stage_bind:
  assumes "affinity_lists c \<noteq> [] \<Longrightarrow> parse_cpu_set (affinity_lists c ! i) \<noteq> None"
  shows "runs (stopped A c i) (stage 0 A c i) (when_do (\<lambda>_. affinity_lists c \<noteq> []) (bind_cpus A (affinity_lists c ! i)))
    (\<lambda>s. stage 0 A c i s \<and> affinity_ok c i)"
proof (rule runs_when)
  show "runs (stopped A c i) (\<lambda>s. stage 0 A c i s \<and> affinity_lists c \<noteq> []) (bind_cpus A (affinity_lists c ! i))
      (\<lambda>s. stage 0 A c i s \<and> affinity_ok c i)"
  proof (cases "affinity_lists c = []")
    case False
    then obtain x where x: "parse_cpu_set (affinity_lists c ! i) = Some x" using assms by auto
    show ?thesis
    proof (cases x)
      case (Inl m)
      then show ?thesis using False x
        by (auto simp: runs_def bind_cpus_def throw_def stopped_def stage_def going_def ledger_def queue_ok_def affinity_ok_def acl_failed_def)
    next
      case (Inr cs)
      have "\<exists>r t. bind_cpus A (affinity_lists c ! i) s = Some (r, t) \<and>
          (if r = 0 then stage 0 A c i t \<and> affinity_ok c i else stopped A c i t)" if s: "stage 0 A c i s" for s
      proof (cases "status A (call_log s) (Os (SetAffinity cs)) = 0")
        case True
        then have "stage 0 A c i (logged (Os (SetAffinity cs)) s)" using s by (auto intro: stage_logged simp: log_simps)
        then show ?thesis using x Inr True by (auto simp: bind_cpus_def affinity_ok_def Let_def)
      next
        case bad: False
        then have "stopped A c i ((logged (Os (SetAffinity cs)) s)\<lparr>error := Some (What ''pthread_setaffinity_np failed'')\<rparr>)"
          using s by (simp add: stopped_def stage_def going_def ledger_def queue_ok_def acl_failed_def log_simps)
        then show ?thesis using x Inr bad by (auto simp: bind_cpus_def throw_def Let_def)
      qed
      then show ?thesis by (auto simp: runs_def)
    qed
  qed (simp add: runs_def)
qed (simp add: affinity_ok_def)

text \<open>The fields that \<open>stage\<close> does not mention.\<close>

definition same_hands :: "acl_worker \<Rightarrow> acl_worker \<Rightarrow> bool" where
  "same_hands t s \<longleftrightarrow> host_buffer t = host_buffer s \<and> device_buffer t = device_buffer s
     \<and> stream_handle t = stream_handle s \<and> context_handle t = context_handle s \<and> error t = error s
     \<and> call_log t = call_log s \<and> blocks t = blocks s \<and> next_block t = next_block s
     \<and> in_flight t = in_flight s \<and> result_device t = result_device s"

lemma stage_same: "stage k A c i s \<Longrightarrow> same_hands t s \<Longrightarrow> stage k A c i t"
proof -
  assume "same_hands t s"
  then have "live k n p t = live k n p s" "store n t = store n s" "in_hand t = in_hand s" for k n p
    by (simp_all add: same_hands_def live_def store_def in_hand_def)
  with \<open>same_hands t s\<close> show "stage k A c i s \<Longrightarrow> stage k A c i t"
    by (simp add: stage_def going_def ledger_def queue_ok_def same_hands_def)
qed

lemma stage_clock:
  assumes "\<And>n s. same_hands (upd n s) s" "k < 5"
  shows "runs (stopped A c i) (stage k A c i) (read_clock A upd) (stage k A c i)"
proof -
  have "stage k A c i (logged (Os ReadClock) s)" if "stage k A c i s" for s
    using that assms(2) by (intro stage_logged) (simp_all add: log_simps)
  then show ?thesis using stage_same [OF _ assms(1)] by (auto simp: runs_def read_clock_def)
qed

lemma runs_frame: "runs I P c Q \<Longrightarrow> runs I (\<lambda>s. P s \<and> X) c (\<lambda>s. Q s \<and> X)"
  unfolding runs_def by metis

lemma runs_seq: "runs I P c R \<Longrightarrow> runs I R d Q \<Longrightarrow> runs I P (steps [c, d]) Q"
  by (intro runs_Cons runs_Nil)

lemma stage_here:
  "(\<And>x. runs I (stage k A c i) (f x) (stage k' A c i)) \<Longrightarrow> runs I (stage k A c i) (with_state f) (stage k' A c i)"
  by (rule runs_with_state) (rule runs_weaken [where P' = "stage k A c i" and Q' = "stage k' A c i"], auto)

lemma worker_setup_runs:
  assumes "affinity_lists c \<noteq> [] \<Longrightarrow> parse_cpu_set (affinity_lists c ! i) \<noteq> None" "handles_nonnull A"
  shows "runs (stopped A c i) (stage 0 A c i) (worker_setup A c i) (\<lambda>s. stage 4 A c i s \<and> affinity_ok c i)"
proof -
  let ?R = "\<lambda>k s. stage k A c i s \<and> affinity_ok c i" and ?I = "stopped A c i"
  have device: "runs ?I (?R 0) (with_state (\<lambda>s. check_acl e (call A (Acl (SetDevice (f s)))))) (?R 0)" for e f
    by (intro runs_frame stage_here stage_call) (simp_all add: log_simps)
  have ctx: "runs ?I (?R 0) (with_state (\<lambda>s. check_acl e (call_value A (Acl (CreateContext (f s)))
      (\<lambda>n s. s\<lparr>context_handle := n\<rparr>)))) (?R 1)" for e f
    by (intro runs_frame stage_here stage_context assms)
  have current: "runs ?I (?R 1) (with_state (\<lambda>s. check_acl e (call A (Acl (SetCurrentContext (f s)))))) (?R 1)" for e f
    by (intro runs_frame stage_here stage_call) (simp_all add: log_simps)
  have fill: "runs ?I (stage 4 A c i)
      (with_state (\<lambda>s. update_opt (write_mem (host_buffer s) (replicate (unat (copy_bytes c)) 0x5A)))) (stage 4 A c i)"
  proof (rule runs_with_state, rule runs_update)
    fix x s assume "stage 4 A c i s \<and> s = x"
    then show "\<exists>t. write_mem (host_buffer x) (replicate (unat (copy_bytes c)) 0x5A) s = Some t \<and> stage 4 A c i t"
      using stage_write [of 4 A c i x "replicate (unat (copy_bytes c)) 0x5A" "host_buffer x"] by auto
  qed
  show ?thesis
    unfolding worker_setup_def
    by (rule runs_Cons [OF stage_bind [OF assms(1)]], assumption, rule runs_Cons [OF device], rule runs_Cons [OF ctx],
        rule runs_Cons [OF current], rule runs_Cons [OF runs_frame [OF stage_stream [OF assms(2)]]],
        rule runs_Cons [OF runs_frame [OF stage_host]], rule runs_Cons [OF runs_frame [OF stage_device]],
        rule runs_Cons [OF runs_frame [OF fill]], rule runs_Cons [OF runs_frame [OF stage4_memset]], rule runs_Nil)
qed

lemma worker_copies_runs:
  "runs (stopped A c i) (stage 4 A c i) (worker_copies A c) (stage 4 A c i)"
proof -
  let ?S = "stage 4 A c i" and ?I = "stopped A c i"
  have copy: "runs ?I ?S (repeat_do n (copy_once A c)) (stage 5 A c i)" for n
    by (rule runs_weaken [OF runs_repeat [OF stage5_copy]]) (simp_all add: stage_def)
  have clock: "runs ?I ?S (read_clock A (\<lambda>n s. s\<lparr>clock_begin := n\<rparr>)) ?S"
      "runs ?I ?S (read_clock A (\<lambda>n s. s\<lparr>seconds := seconds_of (int n - int (clock_begin s))\<rparr>)) ?S"
    by (rule stage_clock, simp_all add: same_hands_def)+
  have keep: "runs ?I ?S (assign (\<lambda>s. s\<lparr>gbps := g s\<rparr>)) ?S" for g
    by (rule runs_assign, erule stage_same) (simp add: same_hands_def)
  show ?thesis
    unfolding worker_copies_def
    by (rule runs_Cons [OF copy], rule runs_Cons [OF stage5_finish], rule runs_Cons [OF clock(1)],
        rule runs_Cons [OF copy], rule runs_Cons [OF stage5_finish], rule runs_Cons [OF clock(2)],
        rule runs_Cons [OF keep], rule runs_Nil)
qed


subsection \<open>Release\<close>

definition releases_succeed :: "api \<Rightarrow> bool" where
  "releases_succeed A \<longleftrightarrow> (\<forall>log q. (\<exists>p n. q \<in> {Acl (Free p), Acl (FreeHost p), Acl (DestroyStream n), Acl (DestroyContext n)}) \<longrightarrow>
     status A log q = 0)"

lemma releasesD:
  assumes "releases_succeed A"
  shows "status A log (Acl (Free p)) = 0" "status A log (Acl (FreeHost p)) = 0"
    "status A log (Acl (DestroyStream n)) = 0" "status A log (Acl (DestroyContext n)) = 0"
  using assms by (auto simp: releases_succeed_def)

definition settled :: "api \<Rightarrow> acl_worker \<Rightarrow> acl_worker \<Rightarrow> bool" where
  "settled A s t \<longleftrightarrow> (error t = error s \<and> (all_ok A (call_log t) \<longleftrightarrow> all_ok A (call_log s)) \<and> result_device t = result_device s
     \<and> host_buffer t = host_buffer s \<and> stream_handle t = stream_handle s \<and> context_handle t = context_handle s
     \<and> in_flight t = in_flight s \<and> seconds t = seconds s \<and> gbps t = gbps s)"

lemma idle: "in_flight s = [] \<Longrightarrow> \<not> in_use p s"
  by (simp add: in_use_def)

lemma release_device:
  assumes "ledger A n s" "releases_succeed A" "in_flight s = []"
  shows "\<exists>t. when_do (\<lambda>s. device_buffer s \<noteq> nullptr) (with_state (\<lambda>s. ignore (free_device A (device_buffer s)))) s = Some (0, t)
    \<and> settled A s t \<and> held A (call_log t) = Some (in_hand t)
    \<and> (host_buffer t = nullptr \<or> live Host n (host_buffer t) t) \<and> (\<forall>b. blocks t b \<noteq> None \<longrightarrow> b = fst (host_buffer t)) \<and> blocks t 0 = None"
proof (cases "device_buffer s = nullptr")
  case True
  then show ?thesis using assms(1) by (fastforce simp: when_do_def settled_def ledger_def store_def)
next
  case False
  let ?q = "Acl (Free (device_buffer s))"
  let ?u = "s\<lparr>blocks := (blocks s)(fst (device_buffer s) := None)\<rparr>"
  have d: "live Device n (device_buffer s) s" using assms(1) False by (auto simp: ledger_def store_def)
  have rel: "release Device (device_buffer s) s = Some ?u"
    using d by (auto simp: release_def live_def)
  have "free_device A (device_buffer s) s = Some (0, logged ?q ?u)"
    using rel releasesD(1) [OF assms(2)] idle [OF assms(3)] by (simp add: free_device_def aclrtFree_def invoke_def)
  then have run: "when_do (\<lambda>s. device_buffer s \<noteq> nullptr) (with_state (\<lambda>s. ignore (free_device A (device_buffer s)))) s
      = Some (0, logged ?q ?u)"
    using False by (simp add: when_do_def with_state_def ignore_def)
  have "settled A s (logged ?q ?u)"
    using releasesD(1) [OF assms(2)] by (simp add: settled_def) (simp add: logged_def)
  moreover have "held A (call_log (logged ?q ?u)) = Some (in_hand (logged ?q ?u))"
    using assms(1) releasesD(1) [OF assms(2)] by (simp add: ledger_def held.simps(2)) (simp add: in_hand_def)
  moreover have "host_buffer s = nullptr \<or> live Host n (host_buffer s) ?u"
    using assms(1) d by (auto simp: ledger_def store_def live_def)
  moreover have "\<forall>b. blocks ?u b \<noteq> None \<longrightarrow> b = fst (host_buffer s)" "blocks ?u 0 = None"
    using assms(1) by (auto simp: ledger_def store_def)
  ultimately show ?thesis using run by (intro exI [of _ "logged ?q ?u"]) simp
qed

lemma release_host:
  assumes "host_buffer s = nullptr \<or> live Host n (host_buffer s) s" "\<forall>b. blocks s b \<noteq> None \<longrightarrow> b = fst (host_buffer s)" "blocks s 0 = None"
    and "held A (call_log s) = Some (in_hand s)" "releases_succeed A" "in_flight s = []"
  shows "\<exists>t. when_do (\<lambda>s. host_buffer s \<noteq> nullptr) (with_state (\<lambda>s. ignore (free_host A (host_buffer s)))) s = Some (0, t)
    \<and> settled A s t \<and> held A (call_log t) = Some (in_hand t) \<and> blocks t = (\<lambda>_. None)"
proof (cases "host_buffer s = nullptr")
  case True
  then have "blocks s b \<noteq> None \<longrightarrow> b = 0" for b using assms(2) by simp
  then have "blocks s b = None" for b using assms(3) by metis
  with True show ?thesis using assms(4) by (auto simp: when_do_def settled_def fun_eq_iff)
next
  case False
  let ?q = "Acl (FreeHost (host_buffer s))"
  let ?u = "s\<lparr>blocks := (blocks s)(fst (host_buffer s) := None)\<rparr>"
  have rel: "release Host (host_buffer s) s = Some ?u"
    using False assms(1) by (auto simp: release_def live_def)
  have "free_host A (host_buffer s) s = Some (0, logged ?q ?u)"
    using rel releasesD(2) [OF assms(5)] idle [OF assms(6)] by (simp add: free_host_def aclrtFreeHost_def invoke_def)
  then have run: "when_do (\<lambda>s. host_buffer s \<noteq> nullptr) (with_state (\<lambda>s. ignore (free_host A (host_buffer s)))) s
      = Some (0, logged ?q ?u)"
    using False by (simp add: when_do_def with_state_def ignore_def)
  have "settled A s (logged ?q ?u)"
    using releasesD(2) [OF assms(5)] by (simp add: settled_def) (simp add: logged_def)
  moreover have "held A (call_log (logged ?q ?u)) = Some (in_hand (logged ?q ?u))"
    using assms(4) releasesD(2) [OF assms(5)] by (simp add: held.simps(2)) (simp add: in_hand_def)
  moreover have "blocks ?u = (\<lambda>_. None)"
  proof
    show "blocks ?u b = None" for b using assms(2) by (cases "blocks s b") auto
  qed
  ultimately show ?thesis using run by (intro exI [of _ "logged ?q ?u"]) simp
qed

lemma destroy_handles:
  assumes "held A (call_log s) = Some (in_hand s)" "releases_succeed A" "in_flight s = []"
  shows "\<exists>t. steps
      [when_do (\<lambda>s. stream_handle s \<noteq> 0) (with_state (\<lambda>s. ignore (destroy_stream A (stream_handle s)))),
       when_do (\<lambda>s. context_handle s \<noteq> 0) (with_state (\<lambda>s. ignore (call A (Acl (DestroyContext (context_handle s))))))] s
      = Some (0, t) \<and> settled A s t \<and> held A (call_log t) = Some {#} \<and> blocks t = blocks s"
  using assms releasesD(3,4) [OF assms(2)]
  by (simp add: cmd_defs call_def destroy_stream_def invoke_def settled_def in_hand_def held.simps(2) give_up_def)
    (simp add: logged_def)

lemma worker_release_runs:
  assumes "ledger A n s" "releases_succeed A" "in_flight s = []"
  shows "\<exists>t. worker_release A s = Some (0, t) \<and> blocks t = (\<lambda>_. None) \<and> held A (call_log t) = Some {#} \<and> settled A s t"
proof -
  obtain u where u: "when_do (\<lambda>s. device_buffer s \<noteq> nullptr) (with_state (\<lambda>s. ignore (free_device A (device_buffer s)))) s = Some (0, u)"
      "settled A s u" "held A (call_log u) = Some (in_hand u)" "host_buffer u = nullptr \<or> live Host n (host_buffer u) u"
      "\<forall>b. blocks u b \<noteq> None \<longrightarrow> b = fst (host_buffer u)" "blocks u 0 = None"
    using release_device [OF assms] by blast
  have "in_flight u = []" using u(2) assms(3) by (simp add: settled_def)
  then obtain v where v: "when_do (\<lambda>s. host_buffer s \<noteq> nullptr) (with_state (\<lambda>s. ignore (free_host A (host_buffer s)))) u = Some (0, v)"
      "settled A u v" "held A (call_log v) = Some (in_hand v)" "blocks v = (\<lambda>_. None)"
    using release_host [OF u(4-6,3) assms(2)] by blast
  have "in_flight v = []" using v(2) \<open>in_flight u = []\<close> by (simp add: settled_def)
  from destroy_handles [OF v(3) assms(2) this] u(1,2) v(1,2,4) show ?thesis
    by (auto simp: worker_release_def steps.simps(2) settled_def)
qed

text \<open>With a copy in flight the first release is undefined.\<close>

lemma worker_release_busy:
  assumes "queue_ok c s" "in_flight s \<noteq> []"
  shows "worker_release A s = None"
proof -
  obtain dst src n cs where "in_flight s = (dst, src, n) # cs" using assms(2) by (cases "in_flight s") auto
  moreover from this have "{dst, src} = {host_buffer s, device_buffer s}" "device_buffer s \<noteq> nullptr"
    using assms(1) by (auto simp: queue_ok_def)
  ultimately have "in_use (device_buffer s) s" "device_buffer s \<noteq> nullptr"
    by (auto simp: in_use_def doubleton_eq_iff)
  then show ?thesis
    by (simp add: worker_release_def steps.simps when_do_def with_state_def ignore_def free_device_def)
qed


subsection \<open>The outcome of a worker\<close>

lemma worker_body_outcome:
  fixes A :: api
  assumes "i < length (devices c)" "affinity_lists c = [] \<or> parse_cpu_set (affinity_lists c ! i) \<noteq> None"
    and "handles_nonnull A"
  shows "\<exists>r u. steps [worker_locals c i, worker_setup A c i, worker_copies A c] new_worker = Some (r, u)
    \<and> run_worker A c i new_worker = worker_release A u
    \<and> ledger A (unat (copy_bytes c)) u \<and> queue_ok c u \<and> result_device u = devices c ! i
    \<and> (error u = None \<longleftrightarrow> all_ok A (call_log u) \<and> affinity_ok c i)
    \<and> (in_flight u \<noteq> [] \<longleftrightarrow> acl_failed u \<and> just_queued A (tl (call_log u)))"
proof -
  let ?s = "new_worker\<lparr>result_device := devices c ! i, context_handle := 0, stream_handle := 0,
      host_buffer := nullptr, device_buffer := nullptr\<rparr>"
  have locals: "worker_locals c i new_worker = Some (0, ?s)"
    using assms(1) by (simp add: worker_locals_def update_opt_def)
  have start: "stage 0 A c i ?s"
    by (simp add: stage_def going_def ledger_def store_def in_hand_def queue_ok_def new_worker_def)
  have aff: "affinity_lists c \<noteq> [] \<Longrightarrow> parse_cpu_set (affinity_lists c ! i) \<noteq> None" using assms(2) by blast
  have "runs (stopped A c i) (stage 0 A c i) (steps [worker_setup A c i, worker_copies A c])
      (\<lambda>s. stage 4 A c i s \<and> affinity_ok c i)"
    by (rule runs_seq [OF worker_setup_runs [OF aff assms(3)] runs_frame [OF worker_copies_runs]])
  then obtain r u where u: "steps [worker_setup A c i, worker_copies A c] ?s = Some (r, u)"
      "if r = 0 then stage 4 A c i u \<and> affinity_ok c i else stopped A c i u"
    using start unfolding runs_def by blast
  have "ledger A (unat (copy_bytes c)) u \<and> queue_ok c u \<and> result_device u = devices c ! i
    \<and> (error u = None \<longleftrightarrow> all_ok A (call_log u) \<and> affinity_ok c i)
    \<and> (in_flight u \<noteq> [] \<longleftrightarrow> acl_failed u \<and> just_queued A (tl (call_log u)))"
    using u(2) by (auto simp: stage_def going_def stopped_def acl_failed_def split: if_splits)
  moreover have "steps [worker_locals c i, worker_setup A c i, worker_copies A c] new_worker = Some (r, u)"
    using u(1) locals by (simp add: steps.simps)
  moreover have "run_worker A c i new_worker = worker_release A u"
    using locals u(1) by (simp add: run_worker_def steps.simps ignore_def split: option.split)
  ultimately show ?thesis by (intro exI [of _ r] exI [of _ u]) simp
qed

lemma run_worker_released:
  assumes "ledger A n u" "releases_succeed A" "queue_ok c u" "run_worker A c i new_worker = worker_release A u"
  shows "if in_flight u = []
    then \<exists>t. run_worker A c i new_worker = Some (0, t) \<and> blocks t = (\<lambda>_. None) \<and> held A (call_log t) = Some {#} \<and> settled A u t
    else run_worker A c i new_worker = None"
  using worker_release_runs [OF assms(1,2)] worker_release_busy [OF assms(3)] assms(4) by simp

text \<open>
  C15.  Let \<open>u\<close> be the state in which the \<open>try\<close> block of a worker ends.  It carries an error exactly when
  a call failed or the CPU list could not be read, and copies are still queued there exactly when
  the call that failed came right after one that queued a copy.  If none is, \<open>run_worker\<close> returns with
  every buffer released, and every stream and context destroyed exactly once, and keeps the error; if
  one is, the worker frees the device buffer that the copy uses, which is undefined.  (A CPU list, if
  given, is no undefined range, a created stream or context is not null, and the releases succeed.)
\<close>
theorem acl_worker_outcome:
  assumes "i < length (devices c)" "affinity_lists c = [] \<or> parse_cpu_set (affinity_lists c ! i) \<noteq> None"
    and "handles_nonnull A" "releases_succeed A"
  shows "\<exists>r u. steps [worker_locals c i, worker_setup A c i, worker_copies A c] new_worker = Some (r, u)
    \<and> (error u = None \<longleftrightarrow> all_ok A (call_log u) \<and> affinity_ok c i)
    \<and> (in_flight u \<noteq> [] \<longleftrightarrow> acl_failed u \<and> just_queued A (tl (call_log u)))
    \<and> (if in_flight u = []
        then \<exists>t. run_worker A c i new_worker = Some (0, t) \<and> blocks t = (\<lambda>_. None) \<and> held A (call_log t) = Some {#}
               \<and> error t = error u \<and> result_device t = devices c ! i
        else run_worker A c i new_worker = None)"
proof -
  obtain r u where u: "steps [worker_locals c i, worker_setup A c i, worker_copies A c] new_worker = Some (r, u)"
      "run_worker A c i new_worker = worker_release A u" "ledger A (unat (copy_bytes c)) u" "queue_ok c u"
      "result_device u = devices c ! i" "error u = None \<longleftrightarrow> all_ok A (call_log u) \<and> affinity_ok c i"
      "in_flight u \<noteq> [] \<longleftrightarrow> acl_failed u \<and> just_queued A (tl (call_log u))"
    using worker_body_outcome [OF assms(1-3)] by metis
  have "if in_flight u = []
      then \<exists>t. run_worker A c i new_worker = Some (0, t) \<and> blocks t = (\<lambda>_. None) \<and> held A (call_log t) = Some {#}
             \<and> error t = error u \<and> result_device t = devices c ! i
      else run_worker A c i new_worker = None"
    using run_worker_released [OF u(3) assms(4) u(4,2)] u(5) by (auto simp: settled_def split: if_splits)
  with u(1,6,7) show ?thesis by (intro exI [of _ r] exI [of _ u]) simp
qed

text \<open>An environment in which exactly the given call fails.\<close>

definition refusing :: "acl_call \<Rightarrow> api" where
  "refusing q = (ideal_api (\<lambda>_ _. 1))\<lparr>status := (\<lambda>_ q'. if q' = Acl q then 207001 else 0)\<rparr>"

lemma refusing_lawful:
  assumes "\<forall>p n. q \<noteq> Free p \<and> q \<noteq> FreeHost p \<and> q \<noteq> DestroyStream n \<and> q \<noteq> DestroyContext n"
  shows "handles_nonnull (refusing q)" "releases_succeed (refusing q)"
  using assms by (auto simp: refusing_def handles_nonnull_def releases_succeed_def ideal_api_def)

definition small_copy :: AclConfig where
  "small_copy = acl_default\<lparr>devices := [3], copy_bytes := 1, acl_warmup_iters := 1, acl_iters := 1\<rparr>"

lemmas worker_defs =
  steps.simps worker_locals_def worker_setup_def worker_copies_def update_opt_def when_do_def with_state_def
  check_acl_def call_def call_value_def invoke_def alloc_def aclrtMallocHost_def aclrtMalloc_def aclrtMemset_def
  write_mem_def read_mem_def readable_def set_block_def block_bytes_def write_at_def logged_def
  aclrtMemcpyAsync_def finish_copies_def copy_once_def repeat_do_def

lemma acl_worker_outcome_witness:
  "run_worker (refusing (SynchronizeStream 1)) small_copy 0 new_worker = None
   \<and> (\<exists>t. run_worker (refusing (Malloc 1)) small_copy 0 new_worker = Some (0, t)
        \<and> blocks t = (\<lambda>_. None) \<and> held (refusing (Malloc 1)) (call_log t) = Some {#} \<and> error t \<noteq> None)"
proof
  let ?W = "\<lambda>A. steps [worker_locals small_copy 0, worker_setup A small_copy 0, worker_copies A small_copy] new_worker"
  have i: "0 < length (devices small_copy)" "affinity_lists small_copy = [] \<or> parse_cpu_set (affinity_lists small_copy ! 0) \<noteq> None"
    by (simp_all add: small_copy_def acl_default_def)
  have "\<exists>r u. ?W (refusing (SynchronizeStream 1)) = Some (r, u) \<and> in_flight u \<noteq> []"
    by (simp add: worker_defs refusing_def ideal_api_def small_copy_def acl_default_def new_worker_def)
  with acl_worker_outcome [OF i, of "refusing (SynchronizeStream 1)"]
  show "run_worker (refusing (SynchronizeStream 1)) small_copy 0 new_worker = None"
    by (auto simp: refusing_lawful)
  have "\<exists>r u. ?W (refusing (Malloc 1)) = Some (r, u) \<and> in_flight u = [] \<and> error u \<noteq> None"
    by (simp add: worker_defs refusing_def ideal_api_def small_copy_def acl_default_def new_worker_def)
  with acl_worker_outcome [OF i, of "refusing (Malloc 1)"]
  show "\<exists>t. run_worker (refusing (Malloc 1)) small_copy 0 new_worker = Some (0, t)
      \<and> blocks t = (\<lambda>_. None) \<and> held (refusing (Malloc 1)) (call_log t) = Some {#} \<and> error t \<noteq> None"
    by (auto simp: refusing_lawful)
qed

subsection \<open>The lines of the program\<close>

lemma those_map: "(\<And>x. x \<in> set xs \<Longrightarrow> f x = Some (g x)) \<Longrightarrow> those (map f xs) = Some (map g xs)"
  by (induction xs) auto

lemma those_none: "x \<in> set xs \<Longrightarrow> f x = None \<Longrightarrow> those (map f xs) = None"
  by (induction xs) (auto split: option.split)

definition is_error_line :: "bench_line \<Rightarrow> bool" where
  "is_error_line l \<longleftrightarrow> (case l of ErrorLine d e \<Rightarrow> True | _ \<Rightarrow> False)"

definition is_device_line :: "bench_line \<Rightarrow> bool" where
  "is_device_line l \<longleftrightarrow> (case l of DeviceLine d s g \<Rightarrow> True | _ \<Rightarrow> False)"

definition is_aggregate :: "bench_line \<Rightarrow> bool" where
  "is_aggregate l \<longleftrightarrow> (case l of SumLine x \<Rightarrow> True | WallLine x \<Rightarrow> True | _ \<Rightarrow> False)"

lemma filter_none: "(\<And>x. x \<in> set xs \<Longrightarrow> \<not> P x) \<Longrightarrow> filter P xs = []"
  by (simp add: filter_empty_conv)

lemma error_lines:
  "filter is_error_line (concat (map (\<lambda>r. case error r of None \<Rightarrow> [] | Some e \<Rightarrow> [ErrorLine (result_device r) e]) gs)) =
     map (\<lambda>r. ErrorLine (result_device r) (the (error r))) (filter (\<lambda>r. error r \<noteq> None) gs)"
  "filter is_device_line (concat (map (\<lambda>r. case error r of None \<Rightarrow> [] | Some e \<Rightarrow> [ErrorLine (result_device r) e]) gs)) = []"
  by (induction gs) (auto simp: is_error_line_def is_device_line_def split: option.split)

lemma report_lines:
  "filter is_error_line (snd (acl_report c gs)) =
     map (\<lambda>r. ErrorLine (result_device r) (the (error r))) (filter (\<lambda>r. error r \<noteq> None) gs)"
  "filter is_device_line (snd (acl_report c gs)) =
     map (\<lambda>r. DeviceLine (result_device r) (seconds r) (gbps r)) (filter (\<lambda>r. error r = None) gs)"
  "(\<exists>l \<in> set (snd (acl_report c gs)). is_aggregate l) \<longleftrightarrow> (\<forall>r \<in> set gs. error r = None)"
  "fst (acl_report c gs) = (if \<forall>r \<in> set gs. error r = None then 0 else 1)"
  by (auto simp: acl_report_def Let_def error_lines is_error_line_def [of "Settings _ _ _ _"]
      is_error_line_def [of "DeviceLine _ _ _"] is_error_line_def [of "SumLine _"] is_error_line_def [of "WallLine _"]
      is_device_line_def [of "Settings _ _ _ _"] is_device_line_def [of "DeviceLine _ _ _"]
      is_device_line_def [of "SumLine _"] is_device_line_def [of "WallLine _"] is_aggregate_def filter_map comp_def
      list_ex_iff split: option.splits)

lemma run_worker_result:
  assumes "i < length (devices c)" "affinity_lists c = [] \<or> parse_cpu_set (affinity_lists c ! i) \<noteq> None"
    and "handles_nonnull A" "releases_succeed A" "run_worker A c i new_worker \<noteq> None"
  shows "\<exists>t. run_worker A c i new_worker = Some (0, t) \<and> result_device t = devices c ! i
    \<and> (error t = None \<longleftrightarrow> all_ok A (call_log t) \<and> affinity_ok c i)"
proof -
  obtain r u where u: "run_worker A c i new_worker = worker_release A u" "ledger A (unat (copy_bytes c)) u" "queue_ok c u"
      "result_device u = devices c ! i" "error u = None \<longleftrightarrow> all_ok A (call_log u) \<and> affinity_ok c i"
    using worker_body_outcome [OF assms(1-3)] by metis
  from run_worker_released [OF u(2) assms(4) u(3,1)] u(4,5) assms(5) show ?thesis
    by (auto simp: settled_def split: if_splits)
qed

text \<open>
  C16.  The exit status and the lines tell which devices were measured.  Unless a worker frees a buffer
  with a copy in flight, which is undefined, every device \<open>i\<close> has a result \<open>t i\<close>, with an error exactly
  when one of its calls failed or its CPU list could not be read; the error lines are those of the devices
  with an error, in order and with the number of the device, and the bandwidth lines those of all
  others, with its time and bandwidth; the status is 0 exactly when no device has an error, and only then
  the aggregate lines are printed.
\<close>
theorem acl_exit_status:
  assumes "acl_parse_args argv = Inr c" "status A [] (Acl AclInit) = 0" "list_all spawn_ok [0..<length (devices c)]"
    and "\<And>i. i < length (devices c) \<Longrightarrow> handles_nonnull (W i) \<and> releases_succeed (W i)"
    and "\<And>i. i < length (devices c) \<Longrightarrow> affinity_lists c = [] \<or> parse_cpu_set (affinity_lists c ! i) \<noteq> None"
  shows "if \<exists>i < length (devices c). run_worker (W i) c i new_worker = None then acl_main A W spawn_ok argv = None
    else \<exists>t n lines. acl_main A W spawn_ok argv = Some (Inr (n, lines))
      \<and> (\<forall>i < length (devices c). run_worker (W i) c i new_worker = Some (0, t i)
           \<and> (error (t i) = None \<longleftrightarrow> all_ok (W i) (call_log (t i)) \<and> affinity_ok c i))
      \<and> filter is_error_line lines =
          map (\<lambda>i. ErrorLine (devices c ! i) (the (error (t i)))) (filter (\<lambda>i. error (t i) \<noteq> None) [0..<length (devices c)])
      \<and> filter is_device_line lines =
          map (\<lambda>i. DeviceLine (devices c ! i) (seconds (t i)) (gbps (t i)))
            (filter (\<lambda>i. error (t i) = None) [0..<length (devices c)])
      \<and> n = (if \<forall>i < length (devices c). error (t i) = None then 0 else 1)
      \<and> ((\<exists>l \<in> set lines. is_aggregate l) \<longleftrightarrow> n = 0)"
proof (cases "\<exists>i < length (devices c). run_worker (W i) c i new_worker = None")
  case True
  then obtain i where "i \<in> set [0..<length (devices c)]" "map_option snd (run_worker (W i) c i new_worker) = None" by auto
  from those_none [of i _ "\<lambda>i. map_option snd (run_worker (W i) c i new_worker)", OF this]
  show ?thesis using True assms(1-3) by (simp add: acl_main_def)
next
  case False
  let ?is = "[0..<length (devices c)]"
  define t where "t i = snd (the (run_worker (W i) c i new_worker))" for i
  have run: "run_worker (W i) c i new_worker = Some (0, t i)" "result_device (t i) = devices c ! i"
      "error (t i) = None \<longleftrightarrow> all_ok (W i) (call_log (t i)) \<and> affinity_ok c i" if "i < length (devices c)" for i
    using run_worker_result [of i c "W i"] assms(4,5) [OF that] that False by (auto simp: t_def)
  have "those (map (\<lambda>i. map_option snd (run_worker (W i) c i new_worker)) ?is) = Some (map t ?is)"
    by (rule those_map) (simp add: run)
  then have main: "acl_main A W spawn_ok argv = Some (Inr (acl_report c (map t ?is)))"
    using assms(1-3) by (simp add: acl_main_def)
  obtain n ls where rep: "acl_report c (map t ?is) = (n, ls)" by (cases "acl_report c (map t ?is)")
  have "filter is_error_line ls = map (\<lambda>i. ErrorLine (devices c ! i) (the (error (t i)))) (filter (\<lambda>i. error (t i) \<noteq> None) ?is)"
    "filter is_device_line ls =
      map (\<lambda>i. DeviceLine (devices c ! i) (seconds (t i)) (gbps (t i))) (filter (\<lambda>i. error (t i) = None) ?is)"
    using report_lines(1,2) [of c "map t ?is"] run(2) by (simp_all add: rep filter_map comp_def)
  moreover have "n = (if \<forall>i < length (devices c). error (t i) = None then 0 else 1)"
    "(\<exists>l \<in> set ls. is_aggregate l) \<longleftrightarrow> n = 0"
    using report_lines(3,4) [of c "map t ?is"] by (auto simp: rep split: if_splits)
  ultimately have "acl_main A W spawn_ok argv = Some (Inr (n, ls))
      \<and> (\<forall>i < length (devices c). run_worker (W i) c i new_worker = Some (0, t i)
           \<and> (error (t i) = None \<longleftrightarrow> all_ok (W i) (call_log (t i)) \<and> affinity_ok c i))
      \<and> filter is_error_line ls =
          map (\<lambda>i. ErrorLine (devices c ! i) (the (error (t i)))) (filter (\<lambda>i. error (t i) \<noteq> None) ?is)
      \<and> filter is_device_line ls =
          map (\<lambda>i. DeviceLine (devices c ! i) (seconds (t i)) (gbps (t i))) (filter (\<lambda>i. error (t i) = None) ?is)
      \<and> n = (if \<forall>i < length (devices c). error (t i) = None then 0 else 1)
      \<and> ((\<exists>l \<in> set ls. is_aggregate l) \<longleftrightarrow> n = 0)"
    using main rep run(1,3) by simp
  with False show ?thesis by (simp only: if_False) blast
qed

text \<open>Two devices, of which the first one refuses to be set.\<close>

lemma acl_exit_status_witness:
  "\<exists>x lines. acl_main (refusing (SetDevice 0)) (\<lambda>_. refusing (SetDevice 0)) (\<lambda>_. True)
      [''--devices'', ''0,1'', ''--size-mb'', ''0'', ''--warmup'', ''0'', ''--iters'', ''0''] = Some (Inr (1, lines))
    \<and> filter is_error_line lines = [ErrorLine 0 (AclError ''aclrtSetDevice'' 207001)]
    \<and> filter is_device_line lines = [DeviceLine 1 (seconds_of 0) x]"
proof -
  let ?A = "refusing (SetDevice 0)"
  define c where "c = acl_default\<lparr>devices := [0, 1], copy_bytes := 0, acl_warmup_iters := 0, acl_iters := 0\<rparr>"
  have args: "acl_parse_args [''--devices'', ''0,1'', ''--size-mb'', ''0'', ''--warmup'', ''0'', ''--iters'', ''0''] = Inr c"
    by (simp add: acl_parse_args_def acl_option_def parse_int_list_def split.simps megabytes_option_def int_option_def acl_default_def
        stoi_def stoull_def scan_int_def digit_val_def isdigit_def isspace_def ord_def in_s_def c_def)
  obtain t0 where bad: "run_worker ?A c 0 new_worker = Some (0, t0)" "error t0 = Some (AclError ''aclrtSetDevice'' 207001)"
    by (simp add: run_worker_def ignore_def worker_release_def worker_defs refusing_def ideal_api_def acl_default_def
        new_worker_def c_def)
  obtain t1 where good: "run_worker ?A c 1 new_worker = Some (0, t1)" "error t1 = None" "seconds t1 = seconds_of 0"
    by (simp add: run_worker_def ignore_def worker_release_def free_device_def free_host_def destroy_stream_def in_use_def
        aclrtFree_def aclrtFreeHost_def release_def read_clock_def assign_def worker_defs refusing_def ideal_api_def
        acl_default_def new_worker_def c_def)
  have c: "length (devices c) = 2" "devices c ! 0 = 0" "devices c ! 1 = 1" "affinity_lists c = []"
    by (simp_all add: c_def acl_default_def)
  have two: "(\<forall>i < 2. P i) \<longleftrightarrow> P 0 \<and> P 1" "(\<exists>i < 2. P i) \<longleftrightarrow> P 0 \<or> P 1" "[0..<2] = [0, 1 :: nat]" for P :: "nat \<Rightarrow> bool"
    by (auto simp: less_2_cases_iff upt_rec)
  have "status ?A [] (Acl AclInit) = 0" by (simp add: refusing_def)
  from acl_exit_status [OF args this, of "\<lambda>_. True" "\<lambda>_. ?A"] bad good refusing_lawful [of "SetDevice 0"]
  show ?thesis unfolding c two by (auto simp: c(2) c(3) [simplified])
qed

end
