(* ===== verification/Cpu_Lists.thy ===== *)
theory Cpu_Lists
  imports Acl_Copy_Bench
begin

text \<open>The meaning of the CPU lists that \<open>acl_copy_bench\<close> binds its threads to.\<close>

subsection \<open>CPU lists\<close>

text \<open>\<open>split\<close> keeps the pieces between the delimiters that are not empty.\<close>

lemma split_Nil: "split [] d = []"
  by (subst split.simps) simp

lemma split_Cons_delim: "split (d # s) d = split s d"
  by (subst split.simps) simp

lemma split_piece: "d \<notin> set p \<Longrightarrow> p \<noteq> [] \<Longrightarrow> split (p @ d # s) d = p # split s d"
  by (subst split.simps) (simp add: cut_found Let_def)

lemma split_last: "d \<notin> set p \<Longrightarrow> p \<noteq> [] \<Longrightarrow> split p d = [p]"
  by (subst split.simps) (simp add: cut_missing Let_def split_Nil)

text \<open>An item of a CPU list: a number or a range, in decimal digits.\<close>

datatype cpu_item = One string | Span string string

fun item_text :: "cpu_item \<Rightarrow> string" where
  "item_text (One a) = a"
| "item_text (Span a b) = a @ ''-'' @ b"

fun item_cpus :: "cpu_item \<Rightarrow> nat set" where
  "item_cpus (One a) = {digits_val 10 a}"
| "item_cpus (Span a b) = {digits_val 10 a..digits_val 10 b}"

definition numeral_text :: "string \<Rightarrow> bool" where
  "numeral_text a \<longleftrightarrow> a \<noteq> [] \<and> list_all isdigit a \<and> digits_val 10 a < 2147483647"

fun item_ok :: "cpu_item \<Rightarrow> bool" where
  "item_ok (One a) \<longleftrightarrow> numeral_text a"
| "item_ok (Span a b) \<longleftrightarrow> numeral_text a \<and> numeral_text b"

fun list_text :: "cpu_item list \<Rightarrow> string" where
  "list_text [] = []"
| "list_text [x] = item_text x"
| "list_text (x # xs) = item_text x @ '','' @ list_text xs"

lemma stoi_numeral: "numeral_text a \<Longrightarrow> stoi a = Some (int (digits_val 10 a))"
proof -
  assume a: "numeral_text a"
  then obtain c cs where c: "a = c # cs" "isdigit c" "list_all isdigit a" by (cases a) (auto simp: numeral_text_def)
  then have "scan_digits 10 0 0 (a @ []) = (digits_val 10 a, length a, [])"
    by (intro scan_digits_app) (auto simp: list_all_iff isdigit_digit_val_lt simp del: ord_digit)
  then have "scan_int 10 a = Some (False, digits_val 10 a, [])"
    using c isdigit_not_space [of c] isdigit_not_sign [of c] by (simp add: scan_int_def)
  then show ?thesis using a by (simp add: stoi_def numeral_text_def in_s_def)
qed

lemma numeral_chars: "numeral_text a \<Longrightarrow> CHR ''-'' \<notin> set a \<and> CHR '','' \<notin> set a"
  by (auto simp: numeral_text_def list_all_iff isdigit_def ord_def)

lemma fold_CPU_SET:
  "fold CPU_SET [int a..int b] (map f [0..<N]) = map (\<lambda>n. f n \<or> n \<in> {a..b}) [0..<N]"
proof (induction "Suc b - a" arbitrary: a f)
  case 0
  then show ?case by auto
next
  case (Suc k)
  then have "[int a..int b] = int a # [int (Suc a)..int b]" by (subst upto.simps) (simp add: add.commute)
  moreover have "CPU_SET (int a) (map f [0..<N]) = map (\<lambda>n. f n \<or> n = a) [0..<N]"
    by (cases "a < N") (auto simp: CPU_SET_def nth_list_update intro!: nth_equalityI)
  moreover have "k = Suc b - Suc a" using Suc by simp
  ultimately show ?case using Suc.hyps(1) [of "Suc a"] Suc.hyps(2) by (auto simp: not_less_eq_eq)
qed

lemma cpu_token_item:
  assumes "item_ok x"
  shows "cpu_token (item_text x) (map f [0..<N]) = Some (Inr (map (\<lambda>n. f n \<or> n \<in> item_cpus x) [0..<N]))"
proof (cases x)
  case (One a)
  then show ?thesis
    using assms stoi_numeral [of a] numeral_chars [of a] fold_CPU_SET [of "digits_val 10 a" "digits_val 10 a" f N]
    by (simp add: cpu_token_def cut_missing)
next
  case (Span a b)
  then show ?thesis
    using assms stoi_numeral [of a] stoi_numeral [of b] numeral_chars [of a] fold_CPU_SET [of "digits_val 10 a" "digits_val 10 b" f N]
    by (auto simp: cpu_token_def cut_found numeral_text_def Let_def)
qed

lemma cpu_tokens_items:
  "list_all item_ok xs \<Longrightarrow> cpu_tokens (map item_text xs) (map f [0..<N]) =
     Some (Inr (map (\<lambda>n. f n \<or> (\<exists>x \<in> set xs. n \<in> item_cpus x)) [0..<N]))"
  by (induction xs arbitrary: f) (simp_all add: cpu_token_item disj_assoc)

lemma item_text_chars: "item_ok x \<Longrightarrow> CHR '','' \<notin> set (item_text x) \<and> item_text x \<noteq> []"
  using numeral_chars by (cases x) (auto simp: numeral_text_def)

lemma split_list_text: "list_all item_ok xs \<Longrightarrow> split (list_text xs) (CHR '','') = map item_text xs"
  by (induction xs rule: list_text.induct) (auto simp: split_Nil split_last split_piece dest!: item_text_chars)

text \<open>
  C34.  A CPU list means what it says: numbers and ranges of decimal digits, separated by commas,
  are read as the set of the CPUs they name.  Numbers beyond \<open>CPU_SETSIZE\<close> and empty ranges add
  nothing.
\<close>
theorem parse_cpu_set_ranges:
  assumes "list_all item_ok xs"
  shows "parse_cpu_set (list_text xs) = Some (Inr (map (\<lambda>n. \<exists>x \<in> set xs. n \<in> item_cpus x) [0..<CPU_SETSIZE]))"
proof -
  have "replicate CPU_SETSIZE False = map (\<lambda>_. False) [0..<CPU_SETSIZE]" by (simp add: map_replicate_const)
  then show ?thesis
    using assms by (simp add: parse_cpu_set_def split_list_text cpu_tokens_items)
qed

lemma parse_cpu_set_ranges_witness:
  "\<exists>cs. parse_cpu_set ''0-3,07,2000'' = Some (Inr cs) \<and> cs ! 2 \<and> cs ! 7 \<and> \<not> cs ! 5"
  using parse_cpu_set_ranges [of "[Span ''0'' ''3'', One ''07'', One ''2000'']"]
  by (simp add: numeral_text_def digits_val_def isdigit_def ord_def CPU_SETSIZE_def)

end
