(* ===== verification/Spec2Isabelle.thy ===== *)
theory Spec2Isabelle
  imports Option_Text Device_Text Reduce_Init Check_Common Alltoall_Check Cmd_Line Test_Programs
    Measurement Allreduce_Verdict Host_Buffers Exchange_Laws Exit_Status
    Numa_Order Numa_Finish Release_Agreement Unverified_Types Zero_Copy_Safety Typed_Options Acl_Copy_Laws Cpu_Lists
begin

text \<open>
  The C++ programs of the hub: the benchmarks of the Ascend machine (\<open>src/Ascend-Machine/\<close>).

  \<^bold>\<open>The programs.\<close>  \<open>build/hccl_test_probe\<close> is a family of eleven MPI programs, one per collective
  operation.  Each process takes a device, joins the communicator and, for every size between
  \<open>--minbytes\<close> and \<open>--maxbytes\<close>, fills host buffers, copies them to the device, queues the
  collective between two events, and compares what comes back with the value it computed itself;
  the root prints one row per size.  \<open>common/src\<close> holds the driver (class \<open>HcclTest\<close>), the base of
  the tests (\<open>HcclOpBaseTest\<close>) and the routines on buffers; \<open>opbase_test\<close> the eleven subclasses.
  \<open>build/hccl_test\<close> is an older release of the same program.  \<open>benchmarks/numa_memcpy_bench.cpp\<close> and
  \<open>benchmarks/acl_copy_bench.cpp\<close> measure host copies by pinned threads and copies to devices.

  \<^bold>\<open>How code is modelled.\<close>  A class is a record over the state of the outside world, a member
  function that returns a status a \<open>cmd\<close>, a function from a state to a status and a new state, or
  \<open>None\<close> for undefined behaviour, an uncaught exception or an endless loop (\<open>Prelude\<close>).  The
  macros \<open>ACLCHECK\<close> and \<open>HCCLCHECK\<close> are \<open>steps\<close>, the sequence that a status other than 0 ends.  The
  device runtime, the collective library, MPI and the operating system are not in the repository:
  they are the parameter \<open>api\<close> of \<open>World\<close>, which answers each call as a function of the calls before
  it.  The model adds memory: blocks that calls allocate, copy and free, with undefined
  behaviour for what leaves them.  Integers keep their width: unsigned types are words, \<open>int\<close> and
  \<open>long\<close> are \<open>int\<close> with the wrap-around (\<open>wrap_s\<close>) or the undefined overflow written out; \<open>float\<close> and
  \<open>double\<close> are bit patterns with the IEEE operations of \<open>Soft_Float\<close>.

  \<^bold>\<open>Theories and the code they model\<close> (paths below \<open>build/hccl_test_probe\<close> where none is given).
  \<^item> \<open>Prelude\<close>, \<open>Byte_Memory\<close>, \<open>Soft_Float\<close>, \<open>C_Library\<close>: integers, loops, commands; typed access to
    bytes; floating point; \<open>strtol\<close>, \<open>stoi\<close>, \<open>strtof\<close> and the like.
  \<^item> \<open>Hccl_Types\<close>, \<open>Option_Text\<close>, \<open>Device_Text\<close>: tables and text functions of \<open>hccl_test_common.cc\<close>.
  \<^item> \<open>Half_Float\<close>, \<open>Buf_Init\<close>, \<open>Reduce_Init\<close>, \<open>Alltoall_Check\<close>: \<open>hccl_check_buf_init\<close>, the fill
    routines, the expected results and the checks of exchanges.
  \<^item> \<open>Check_Common\<close>: the comparisons of \<open>hccl_check_common.cc\<close>.
  \<^item> \<open>World\<close>, \<open>Test_State\<close>, \<open>Command_Logic\<close>: the outside world, the two base classes, and the rules
    for commands.
  \<^item> \<open>Getopt\<close>, \<open>Cmd_Line\<close>: from the arguments to the settings, their checks, MPI rank and device,
    environment variables.
  \<^item> \<open>Op_Base\<close>, \<open>Collective_Run\<close>: \<open>hccl_opbase_rootinfo_base.cc\<close> and what the eleven tests share.
  \<^item> \<open>Reduce_Tests\<close>, \<open>Gather_Tests\<close>, \<open>Exchange_Tests\<close>: the eleven tests; \<open>Test_Programs\<close>: their
    virtual functions as vtables, and that they meet the interface \<open>tester\<close> of the driver.
  \<^item> \<open>Driver\<close>: devices, communicator, zero copy, the loop over the sizes, the clean-up labels and
    \<open>main\<close>.
  \<^item> \<open>Older_Routines\<close>, \<open>Older_Release\<close>, \<open>Older_Tests\<close>: the three layers of \<open>build/hccl_test\<close>, the
    routines on buffers, the driver and the eleven tests.  A function with the same text in both
    releases is the same constant under a name of its own.
  \<^item> \<open>Bench_Common\<close>, \<open>Numa_Bench\<close>, \<open>Acl_Copy_Bench\<close>: the two stand-alone benchmarks, the first as a
    step relation between its threads, and \<open>hccl_compat.cc\<close>.

  \<^bold>\<open>What is shown.\<close>
  \<^item> Buffers: filling and expecting (\<open>Buf_Init\<close>, \<open>Reduce_Init\<close>) write exactly the elements they should;
    the conversion to half precision equals IEEE rounding for every bit pattern, while the one to
    bfloat16 rounds correctly but returns the number and not the pattern (\<open>Half_Float\<close>); the comparisons
    decide equality, and the checks of exchanges accept exactly the correct ones.
  \<^item> Verdicts (\<open>Reduce_Verdict\<close>, \<open>Allreduce_Verdict\<close>, \<open>Exchange_Laws\<close>): while verification is on, the
    expected value is the exact reduction; the allreduce test reports an error exactly when the
    device delivers something else; correct exchanges are accepted.  \<open>Unverified_Types\<close>: the data
    types for which a test fails whatever the device delivers.
  \<^item> Measurement (\<open>Measurement\<close>): exactly the measured iterations lie between the two events.
  \<^item> Memory (\<open>Host_Buffers\<close>, \<open>Op_Base\<close>): no host buffer is lost or freed twice; the heap arrays of the
    \<open>V\<close> tests are, when memory runs out (\<open>Exchange_Laws\<close>).  With zero copy (\<open>Zero_Copy\<close>,
    \<open>Zero_Copy_Safety\<close>) a test of any size runs with mapped buffers that do not overlap, as what is
    reserved for the size beyond the last is enough; except with a step of zero and a factor.
  \<^item> Control (\<open>Cmd_Line\<close>, \<open>Getopt\<close>, \<open>Test_Programs\<close>, \<open>Exit_Status\<close>): what the options mean and which are
    refused, which sizes are visited and when the loop does not end, and how little of a failure
    reaches the exit status.  \<open>Typed_Options\<close>: through \<open>main\<close>, a test is only ever entered with options
    that are well typed.
  \<^item> Releases (\<open>Agreement\<close>, \<open>Driver_Agreement\<close>, \<open>Release_Agreement\<close>): a calculus of commands that behave
    the same under an invariant, and a driver that behaves the same with tests that do; so each test
    and \<open>main\<close> of the newer release behave as those of the older one, under the options and data types
    both support; only the older one checks the communicator.
  \<^item> Threads (\<open>Numa_Barrier\<close>, \<open>Numa_Order\<close>, \<open>Numa_Memory\<close>, \<open>Numa_Finish\<close>): in every reachable state the
    counter and the flag agree with where the threads are, and the memory orders of the two atomics
    put every measured copy between the two clock readings, but no warm-up copy before the first;
    the program can always finish, and it stays in its buffers exactly when the total size does not
    wrap.
  \<^item> Devices (\<open>Acl_Copy_Laws\<close>, \<open>Cpu_Lists\<close>): asynchronous copies are queued until the stream has been
    waited for; a worker releases all it holds exactly once, but frees a buffer with a copy in flight
    when a call fails right after a copy was queued; the lines and the exit status tell which devices
    were measured; CPU lists mean what they say.

  \<^bold>\<open>Interfaces.\<close>  Locales state what one part promises another: \<open>filler\<close>, \<open>comparison\<close> and
  \<open>block_check\<close> for the routines on buffers; \<open>quiet_frame\<close>, \<open>alloc_frame\<close>, \<open>world_frame\<close>,
  \<open>quiet_object\<close>, \<open>world_object\<close>, \<open>quiet_test\<close>, \<open>test_frame\<close>, \<open>driver_frame\<close>, \<open>comm_frame\<close> and
  \<open>settings_frame\<close> for properties that calls, tests and the driver keep; \<open>host_slot\<close> for the three
  host buffers; \<open>measured_call\<close> for the collective a test queues; \<open>tester\<close> for a test as the driver
  uses it, \<open>same_tests\<close> for two that behave the same, \<open>twins\<close> for those of the two releases,
  \<open>zero_copy_tester\<close> and \<open>growing_tester\<close> for one that leaves the memory of zero copy alone and needs
  more for a larger size; \<open>option_tables\<close> for the tables given to \<open>getopt_long\<close>; \<open>invariant_system\<close>
  and \<open>progressing_system\<close> for the threads.  Each is interpreted on the definitions of the model.

  \<^bold>\<open>Bounds.\<close>  No fuel is used.  The loop over the sizes and the doubling copy are partial functions
  whose \<open>None\<close> includes not returning; that they return is proved where it is claimed.  Element counts
  are arbitrary 64-bit words; theorems say where they need them below \<open>2^31\<close> (the \<open>int\<close> counters of the
  comparisons) or \<open>2^63\<close>.

  \<^bold>\<open>Not modelled.\<close>  Printed text is kept only as the rows and messages that matter; the times
  logged under \<open>HCCL_TEST_LOG_ENABLE\<close> are left out, as are the destructors, which free what nothing
  uses afterwards, and the member \<open>prop\<close>, rebuilt from others.  What the collectives do to device
  memory is a parameter.  The other directories \<open>hccl_test_probe2\<close> to \<open>hccl_test_probe_all\<close> hold the
  same bytes as \<open>hccl_test_probe\<close>.  The Python packages and shell scripts of the hub drive git,
  containers and package managers, whose behaviour is outside the repository.
\<close>

end
